theory Spec2Isabelle
  imports Main
begin

section \<open>Data model\<close>

text \<open>
  Modelled from the spec: the declarations of \<open>Drive\<close>, \<open>DeviceType\<close> and of the keys
  in \<open>Configuration\<close> are not among the source files. The drive autopilot keeps one
  \<open>Drive\<close> per block device; the fields below are the ones that the LUKS manager (the
  file with \<open>OpenLUKS\<close>, \<open>CloseLUKS\<close>, \<open>ScanLUKSMappings\<close>, \<open>CheckLUKS\<close> and
  \<open>FormatLUKSIfRequired\<close>) reads and writes, completed from the data model of the
  specification: \<open>Type\<close> is one of Unknown, NotScanned, LUKS and Filesystem,
  \<open>TemporaryMount\<close> has a name, a path and an activity flag, and the configuration has
  an ordered list of keys, each with its secret.
\<close>

datatype DeviceType =
    DeviceTypeUnknown
  | DeviceTypeNotScanned
  | DeviceTypeLUKS
  | DeviceTypeFilesystem

record TemporaryMount =
  Name :: string
  Path :: string
  Active :: bool

record Drive =
  DevicePath :: string
  MappedDevicePath :: string
  Type :: DeviceType
  Broken :: bool
  TemporaryMount :: TemporaryMount
  SwiftID :: string
  StartedOutEmpty :: bool

record Key =
  Secret :: string

record Configuration =
  ChrootPath :: string
  DriveGlobs :: "string list"
  Keys :: "Key list"

section \<open>The process and its surroundings\<close>

text \<open>
  Everything the LUKS manager does to the outside goes through two channels: the logger
  and the command runner. The state of the surroundings is the list of log calls made so
  far, the list of external commands started so far, and the answers of the operating
  system: \<open>responses w n\<close> is the captured output and the success flag of the
  \<open>n\<close>-th command the process starts. Every run of the program against a real system
  is a run against some such answer sequence, so a statement proved for all \<open>responses\<close>
  holds for all behaviours of the external commands.
\<close>

datatype LogLevel = LogFatal | LogError | LogInfo | LogDebug

datatype Arg = ArgS string | ArgI nat

record LogEntry =
  level :: LogLevel
  format :: string
  args :: "Arg list"

record Invocation =
  argv :: "string list"
  stdin :: string
  skiplog :: bool

record World =
  logged :: "LogEntry list"
  issued :: "Invocation list"
  responses :: "nat \<Rightarrow> string \<times> bool"

text \<open>
  A call either returns to its caller or ends the process (a fatal log message, or a
  command run in exit-on-error mode that fails).
\<close>

datatype 'a result = Returned 'a World | Terminated World

definition andThen :: "'a result \<Rightarrow> ('a \<Rightarrow> World \<Rightarrow> 'b result) \<Rightarrow> 'b result" where
  "andThen r f = (case r of Terminated w \<Rightarrow> Terminated w | Returned x w \<Rightarrow> f x w)"

fun is_Terminated :: "'a result \<Rightarrow> bool" where
  "is_Terminated (Terminated w) = True"
| "is_Terminated (Returned x w) = False"

text \<open>
  Modelled from the spec: the logger \<open>Log(level, format, args...)\<close> is not among the
  source files. The specification (external interfaces, log levels) says that the logger
  receives levelled messages and that Fatal ends the process right after the message is
  emitted. The entry keeps the format string and the arguments as the call passes them.
\<close>

definition Log :: "LogLevel \<Rightarrow> string \<Rightarrow> Arg list \<Rightarrow> World \<Rightarrow> unit result" where
  "Log lvl fmt as w =
     (let w' = w\<lparr>logged := logged w @ [\<lparr>level = lvl, format = fmt, args = as\<rparr>]\<rparr>
      in if lvl = LogFatal then Terminated w' else Returned () w')"

text \<open>
  Modelled from the spec: the command runner is not among the source files. Its contract
  in the specification: \<open>Run(program, args...) -> (stdout, success)\<close>, with the optional
  fields piped stdin, suppress-argument-logging (\<open>SkipLog\<close>) and an exit-on-error mode
  that ends the process instead of returning an error. The runner starts the command
  (recorded in \<open>issued\<close> with its argument vector, its piped input and the logging flag)
  and takes the next answer of the operating system. Its own log line is the report of a
  failed command, which names the arguments (the aggregate error of \<open>OpenLUKS\<close>,
  \<open>exec(cryptsetup luksOpen ...) failed: ...\<close>, is worded after it); \<open>SkipLog\<close>
  suppresses that line.
\<close>

record Command =
  Stdin :: string
  SkipLog :: bool
  ExitOnError :: bool

fun Join :: "string list \<Rightarrow> string \<Rightarrow> string" where
  "Join [] sep = []"
| "Join [x] sep = x"
| "Join (x # y # ys) sep = x @ sep @ Join (y # ys) sep"

definition Command_Run :: "Command \<Rightarrow> string list \<Rightarrow> World \<Rightarrow> (string \<times> bool) result" where
  "Command_Run c cmd w =
     (let answer = responses w (length (issued w));
          w1 = w\<lparr>issued := issued w @ [\<lparr>argv = cmd, stdin = Stdin c, skiplog = SkipLog c\<rparr>]\<rparr>
      in if snd answer then Returned (fst answer, True) w1
         else if ExitOnError c then
           (if SkipLog c then Terminated w1
            else andThen (Log LogFatal ''exec(%s) failed'' [ArgS (Join cmd '' '')] w1)
                   (\<lambda>_ w2. Terminated w2))
         else if SkipLog c then Returned (fst answer, False) w1
         else andThen (Log LogError ''exec(%s) failed'' [ArgS (Join cmd '' '')] w1)
                (\<lambda>_ w2. Returned (fst answer, False) w2))"

text \<open>
  Modelled from the spec: the package-level \<open>Run(cmd...)\<close>, which \<open>CloseLUKS\<close> calls,
  is the runner with no option set.
\<close>

definition Run :: "string list \<Rightarrow> World \<Rightarrow> (string \<times> bool) result" where
  "Run cmd w = Command_Run \<lparr>Stdin = [], SkipLog = False, ExitOnError = False\<rparr> cmd w"

text \<open>
  The two procedures of \<open>Drive\<close> that the LUKS manager calls and that live in other
  files, \<open>Classify\<close> and \<open>MarkAsBroken\<close>, are parameters of the model: any procedure that
  takes the drive and the surroundings and either returns (with the updated drive, and
  for \<open>Classify\<close> its success flag) or ends the process.
\<close>

record Program =
  Classify :: "Drive \<Rightarrow> World \<Rightarrow> (bool \<times> Drive) result"
  MarkAsBroken :: "Drive \<Rightarrow> World \<Rightarrow> Drive result"

section \<open>Library functions of Go used by the LUKS manager\<close>

text \<open>
  \<open>filepath.Base\<close> on a Unix system: the last element of the path, after removing
  trailing slashes; \<open>.\<close> for the empty path, \<open>/\<close> for a path of slashes only.
\<close>

definition Base :: "string \<Rightarrow> string" where
  "Base path =
     (if path = [] then ''.''
      else let stripped = rev (dropWhile (\<lambda>c. c = CHR ''/'') (rev path));
               element = rev (takeWhile (\<lambda>c. c \<noteq> CHR ''/'') (rev stripped))
           in if element = [] then ''/'' else element)"

text \<open>
  Go strings are byte sequences; \<open>strings.TrimSpace\<close> and \<open>strings.Fields\<close> read
  them as UTF-8 and test every code point with \<open>unicode.IsSpace\<close>. A \<open>string\<close> here
  is the list of the bytes, \<open>byte c\<close> the value of one.

  \<open>utf8.DecodeRuneInString\<close>: the first code point of the string and the number of
  bytes of its encoding; \<open>(RuneError, 0)\<close> for the empty string and \<open>(RuneError, 1)\<close>
  when the string does not start with a well-formed encoding (a byte that cannot start
  one, a sequence cut short, a continuation byte out of range, which also excludes the
  overlong forms, the surrogates and the values above \<open>U+10FFFF\<close>).
\<close>

definition byte :: "char \<Rightarrow> nat" where
  "byte c = of_char c"

definition RuneError :: nat where
  "RuneError = 0xFFFD"

fun DecodeRuneInString :: "string \<Rightarrow> nat \<times> nat" where
  "DecodeRuneInString [] = (RuneError, 0)"
| "DecodeRuneInString (c # cs) =
     (let s0 = byte c
      in if s0 < 0x80 then (s0, 1)
         else if s0 < 0xC2 \<or> 0xF4 < s0 then (RuneError, 1)
         else
           let sz = (if s0 < 0xE0 then 2 else if s0 < 0xF0 then 3 else 4);
               lo = (if s0 = 0xE0 then 0xA0 else if s0 = 0xF0 then 0x90 else 0x80);
               hi = (if s0 = 0xED then 0x9F else if s0 = 0xF4 then 0x8F else 0xBF)
           in if length (c # cs) < sz then (RuneError, 1)
              else
                let s1 = byte (cs ! 0)
                in if s1 < lo \<or> hi < s1 then (RuneError, 1)
                   else if sz \<le> 2 then ((s0 mod 32) * 64 + s1 mod 64, 2)
                   else
                     let s2 = byte (cs ! 1)
                     in if s2 < 0x80 \<or> 0xBF < s2 then (RuneError, 1)
                        else if sz \<le> 3
                        then ((s0 mod 16) * 4096 + (s1 mod 64) * 64 + s2 mod 64, 3)
                        else
                          let s3 = byte (cs ! 2)
                          in if s3 < 0x80 \<or> 0xBF < s3 then (RuneError, 1)
                             else ((s0 mod 8) * 262144 + (s1 mod 64) * 4096
                                     + (s2 mod 64) * 64 + s3 mod 64, 4))"

text \<open>
  \<open>utf8.DecodeLastRuneInString\<close>: the last code point of the string and the number
  of bytes of its encoding. From the last byte it steps back over at most three bytes to
  a byte that can start an encoding (\<open>scanBack\<close>, the loop with its limit \<open>lim\<close>) and
  decodes from there; the result counts only if the encoding ends at the end of the
  string.
\<close>

definition RuneStart :: "nat \<Rightarrow> bool" where
  "RuneStart b = (\<not> (0x80 \<le> b \<and> b \<le> 0xBF))"

fun scanBack :: "string \<Rightarrow> nat \<Rightarrow> nat \<Rightarrow> nat" where
  "scanBack s 0 lim = 0"
| "scanBack s (Suc j) lim =
     (if Suc j \<le> lim then j
      else if RuneStart (byte (s ! j)) then j
      else scanBack s j lim)"

definition DecodeLastRuneInString :: "string \<Rightarrow> nat \<times> nat" where
  "DecodeLastRuneInString s =
     (let end = length s
      in if end = 0 then (RuneError, 0)
         else
           let r = byte (s ! (end - 1))
           in if r < 0x80 then (r, 1)
              else
                let lim = end - 4;
                    start = scanBack s (end - 1) lim;
                    decoded = DecodeRuneInString (drop start s)
                in if start + snd decoded \<noteq> end then (RuneError, 1) else decoded)"

text \<open>
  \<open>unicode.IsSpace\<close>: in Latin-1 the characters tab, line feed, vertical tab, form
  feed, carriage return, space, \<open>U+0085\<close> and \<open>U+00A0\<close>; beyond Latin-1 the code
  points with the property \<open>White_Space\<close>.
\<close>

definition IsSpace :: "nat \<Rightarrow> bool" where
  "IsSpace r =
     (if r \<le> 0xFF
      then r = 0x09 \<or> r = 0x0A \<or> r = 0x0B \<or> r = 0x0C \<or> r = 0x0D \<or> r = 0x20
             \<or> r = 0x85 \<or> r = 0xA0
      else r = 0x1680 \<or> (0x2000 \<le> r \<and> r \<le> 0x200A) \<or> r = 0x2028 \<or> r = 0x2029
             \<or> r = 0x202F \<or> r = 0x205F \<or> r = 0x3000)"

text \<open>
  \<open>strings.TrimSpace(s)\<close> is \<open>TrimRightFunc(TrimLeftFunc(s, unicode.IsSpace),
  unicode.IsSpace)\<close>. \<open>TrimLeftSpace\<close> drops code points from the front while they
  are white space. \<open>lastIndexNotSpace\<close> is \<open>lastIndexFunc\<close>: it walks back from the
  end, one code point at a time, and gives the index at which the last code point that
  is no white space starts (\<open>None\<close> for the \<open>-1\<close> of Go); \<open>TrimRightSpace\<close> cuts the
  string after that code point.
\<close>

function TrimLeftSpace :: "string \<Rightarrow> string" where
  "TrimLeftSpace [] = []"
| "TrimLeftSpace (c # cs) =
     (if IsSpace (fst (DecodeRuneInString (c # cs)))
      then TrimLeftSpace (drop (snd (DecodeRuneInString (c # cs))) (c # cs))
      else c # cs)"
  by pat_completeness auto
termination
proof (relation "measure length")
  show "wf (measure length)" by simp
next
  fix c cs
  assume "IsSpace (fst (DecodeRuneInString (c # cs)))"
  have "0 < snd (DecodeRuneInString (c # cs))"
    by (simp add: Let_def)
  then show "(drop (snd (DecodeRuneInString (c # cs))) (c # cs), c # cs) \<in> measure length"
    by simp
qed

function lastIndexNotSpace :: "string \<Rightarrow> nat option" where
  "lastIndexNotSpace s =
     (if s = [] then None
      else if \<not> IsSpace (fst (DecodeLastRuneInString s))
      then Some (length s - snd (DecodeLastRuneInString s))
      else lastIndexNotSpace (take (length s - snd (DecodeLastRuneInString s)) s))"
  by pat_completeness auto
termination
proof (relation "measure length")
  show "wf (measure length)" by simp
next
  fix s :: string
  assume ne: "s \<noteq> []" and sp: "\<not> \<not> IsSpace (fst (DecodeLastRuneInString s))"
  have "0 < snd (DecodeLastRuneInString s)"
  proof (rule ccontr)
    assume "\<not> 0 < snd (DecodeLastRuneInString s)"
    then have z: "snd (DecodeLastRuneInString s) = 0" by simp
    have "fst (DecodeLastRuneInString s) = RuneError"
      using z ne
      by (auto simp: DecodeLastRuneInString_def Let_def split: if_splits)
    then show False using sp by (simp add: IsSpace_def RuneError_def)
  qed
  then show "(take (length s - snd (DecodeLastRuneInString s)) s, s) \<in> measure length"
    using ne by (cases s) auto
qed

definition TrimRightSpace :: "string \<Rightarrow> string" where
  "TrimRightSpace s =
     (case lastIndexNotSpace s of
        None \<Rightarrow> []
      | Some i \<Rightarrow>
          if 0x80 \<le> byte (s ! i) then take (i + snd (DecodeRuneInString (drop i s))) s
          else take (i + 1) s)"

definition TrimSpace :: "string \<Rightarrow> string" where
  "TrimSpace s = TrimRightSpace (TrimLeftSpace s)"

text \<open>
  \<open>strings.Split(s, sep)\<close> for a separator of one byte: the pieces between the
  separators, one more piece than there are separators.
\<close>

fun Split :: "string \<Rightarrow> char \<Rightarrow> string list" where
  "Split [] sep = [[]]"
| "Split (c # cs) sep =
     (if c = sep then [] # Split cs sep
      else (case Split cs sep of [] \<Rightarrow> [[c]] | piece # pieces \<Rightarrow> (c # piece) # pieces))"

text \<open>
  \<open>strings.Fields(s)\<close> is \<open>FieldsFunc(s, unicode.IsSpace)\<close>: the maximal runs of
  code points that are not white space, in order. \<open>fieldsFrom cur s\<close> carries the field
  being read; a byte that starts no well-formed encoding counts as the code point
  \<open>RuneError\<close>, which is no white space, and stays in its field.
\<close>

function fieldsFrom :: "string \<Rightarrow> string \<Rightarrow> string list" where
  "fieldsFrom cur [] = (if cur = [] then [] else [cur])"
| "fieldsFrom cur (c # cs) =
     (if IsSpace (fst (DecodeRuneInString (c # cs)))
      then (if cur = [] then fieldsFrom [] (drop (snd (DecodeRuneInString (c # cs))) (c # cs))
            else cur # fieldsFrom [] (drop (snd (DecodeRuneInString (c # cs))) (c # cs)))
      else fieldsFrom (cur @ take (snd (DecodeRuneInString (c # cs))) (c # cs))
             (drop (snd (DecodeRuneInString (c # cs))) (c # cs)))"
  by pat_completeness auto
termination
proof (relation "measure (\<lambda>(cur, s). length s)")
  show "wf (measure (\<lambda>(cur, s). length s))" by simp
next
  fix cur :: string and c cs
  have "0 < snd (DecodeRuneInString (c # cs))"
    by (simp add: Let_def)
  then show "(([], drop (snd (DecodeRuneInString (c # cs))) (c # cs)), cur, c # cs)
               \<in> measure (\<lambda>(cur, s). length s)"
    by simp
next
  fix cur :: string and c cs
  have "0 < snd (DecodeRuneInString (c # cs))"
    by (simp add: Let_def)
  then show "(([], drop (snd (DecodeRuneInString (c # cs))) (c # cs)), cur, c # cs)
               \<in> measure (\<lambda>(cur, s). length s)"
    by simp
next
  fix cur :: string and c cs
  have "0 < snd (DecodeRuneInString (c # cs))"
    by (simp add: Let_def)
  then show "((cur @ take (snd (DecodeRuneInString (c # cs))) (c # cs),
            drop (snd (DecodeRuneInString (c # cs))) (c # cs)), cur, c # cs)
               \<in> measure (\<lambda>(cur, s). length s)"
    by simp
qed

definition Fields :: "string \<Rightarrow> string list" where
  "Fields s = fieldsFrom [] s"


text \<open>
  The regular expression \<^verbatim>\<open>(?m)^\s*device:\s*(\S+)\s*$\<close> and its
  \<open>FindStringSubmatch\<close>. In Go's syntax \<^verbatim>\<open>\s\<close> is tab, line feed, form feed,
  carriage return or space; with the flag \<open>m\<close> the anchor \<^verbatim>\<open>^\<close> holds at the start
  of the text and after every line feed, and \<^verbatim>\<open>$\<close> holds at the end of the text
  and before every line feed.

  \<open>rxMatchAt s\<close> is the match that starts at the beginning of \<open>s\<close>, a position where
  \<^verbatim>\<open>^\<close> holds; it gives the text of group 1. The first \<^verbatim>\<open>\s*\<close> has to take
  the whole run of white space, since \<open>device:\<close> starts with a letter; the second one
  too, since group 1 starts with a character that is no white space; group 1 has to take
  the whole run that follows, since every shorter choice leaves a character behind it on
  which neither \<^verbatim>\<open>\s*\<close> nor \<^verbatim>\<open>$\<close> can go on; and after the last
  \<^verbatim>\<open>\s*\<close> the anchor \<^verbatim>\<open>$\<close> can hold if and only if the white space after
  group 1 runs to the end of the text or has a line feed in it.

  \<open>rxFind\<close> tries the start positions from left to right, as the leftmost match
  requires; its flag tells whether \<^verbatim>\<open>^\<close> holds at the current position.
\<close>

definition rxSpace :: "char \<Rightarrow> bool" where
  "rxSpace c = (c = CHR 0x09 \<or> c = CHR ''\<newline>'' \<or> c = CHR 0x0C \<or> c = CHR 0x0D
                \<or> c = CHR '' '')"

definition rxMatchAt :: "string \<Rightarrow> string option" where
  "rxMatchAt s =
     (let s1 = dropWhile rxSpace s
      in if take 7 s1 = ''device:'' then
           (let s2 = dropWhile rxSpace (drop 7 s1);
                group1 = takeWhile (\<lambda>c. \<not> rxSpace c) s2;
                s3 = dropWhile (\<lambda>c. \<not> rxSpace c) s2;
                trailing = takeWhile rxSpace s3;
                s4 = dropWhile rxSpace s3
            in if group1 \<noteq> [] \<and> (s4 = [] \<or> CHR ''\<newline>'' \<in> set trailing)
               then Some group1 else None)
         else None)"

fun rxFind :: "bool \<Rightarrow> string \<Rightarrow> string option" where
  "rxFind atLineStart [] = (if atLineStart then rxMatchAt [] else None)"
| "rxFind atLineStart (c # cs) =
     (case (if atLineStart then rxMatchAt (c # cs) else None) of
        Some group1 \<Rightarrow> Some group1
      | None \<Rightarrow> rxFind (c = CHR ''\<newline>'') cs)"

text \<open>
  \<open>backingDeviceRx.FindStringSubmatch(stdout)\<close>, reduced to what the caller reads of it:
  \<open>None\<close> for \<open>nil\<close> (no match), otherwise \<open>match[1]\<close>.
\<close>

definition backingDeviceRx_FindStringSubmatch :: "string \<Rightarrow> string option" where
  "backingDeviceRx_FindStringSubmatch stdout = rxFind True stdout"

section \<open>The LUKS manager\<close>

subsection \<open>CloseLUKS\<close>

definition CloseLUKS :: "Drive \<Rightarrow> World \<Rightarrow> Drive result" where
  "CloseLUKS d w =
     (if MappedDevicePath d = [] then Returned d w
      else
        let mapperName = Base (MappedDevicePath d)
        in andThen (Run [''cryptsetup'', ''close'', mapperName] w) (\<lambda>(out, ok) w1.
             if ok then
               andThen (Log LogInfo ''LUKS container %s closed'' [ArgS (MappedDevicePath d)] w1)
                 (\<lambda>_ w2. Returned (d\<lparr>MappedDevicePath := []\<rparr>) w2)
             else Returned d w1))"

subsection \<open>CheckLUKS\<close>

text \<open>
  A Go \<open>map[string]string\<close> read at a missing key gives the empty string.
\<close>

definition lookup :: "(string \<rightharpoonup> string) \<Rightarrow> string \<Rightarrow> string" where
  "lookup m k = (case m k of None \<Rightarrow> [] | Some v \<Rightarrow> v)"

definition CheckLUKS :: "Program \<Rightarrow> (string \<rightharpoonup> string) \<Rightarrow> Drive \<Rightarrow> World \<Rightarrow> Drive result" where
  "CheckLUKS P activeMappings d w =
     (let actualMapName = lookup activeMappings (DevicePath d)
      in if actualMapName = [] then
           (if MappedDevicePath d \<noteq> [] then
              andThen (Log LogError ''LUKS container in %s should be open at %s, but is not''
                         [ArgS (DevicePath d), ArgS (MappedDevicePath d)] w)
                (\<lambda>_ w1. MarkAsBroken P d w1)
            else Returned d w)
         else
           let actualMappedPath = ''/dev/mapper/'' @ actualMapName
           in if MappedDevicePath d = [] then
                (let d1 = d\<lparr>MappedDevicePath := actualMappedPath\<rparr>
                 in andThen (Log LogInfo ''discovered %s to be mapped to %s already''
                               [ArgS (DevicePath d1), ArgS (MappedDevicePath d1)] w)
                      (\<lambda>_ w1. Returned (d1\<lparr>StartedOutEmpty := False\<rparr>) w1))
              else if MappedDevicePath d = actualMappedPath then Returned d w
              else
                andThen (Log LogError
                           ''LUKS container in %s should be open at %s, but is actually open at %s''
                           [ArgS (DevicePath d), ArgS (MappedDevicePath d), ArgS actualMappedPath] w)
                  (\<lambda>_ w1. MarkAsBroken P d w1))"

subsection \<open>ScanLUKSMappings\<close>

definition getBackingDevicePath :: "string \<Rightarrow> World \<Rightarrow> string result" where
  "getBackingDevicePath mapName w =
     andThen (Command_Run \<lparr>Stdin = [], SkipLog = False, ExitOnError = True\<rparr>
                [''cryptsetup'', ''status'', mapName] w) (\<lambda>(stdout, _) w1.
       case backingDeviceRx_FindStringSubmatch stdout of
         None \<Rightarrow>
           andThen (Log LogFatal ''cannot find backing device for /dev/mapper/%s'' [ArgS mapName] w1)
             (\<lambda>_ w2. Terminated w2)
       | Some group1 \<Rightarrow> Returned group1 w1)"

text \<open>The loop over the lines of the mapping list.\<close>

fun scanLines :: "string list \<Rightarrow> (string \<rightharpoonup> string) \<Rightarrow> World \<Rightarrow> (string \<rightharpoonup> string) result" where
  "scanLines [] result w = Returned result w"
| "scanLines (line # rest) result w =
     (case Fields line of
        [] \<Rightarrow> scanLines rest result w
      | mapName # _ \<Rightarrow>
          (case getBackingDevicePath mapName w of
             Terminated w1 \<Rightarrow> Terminated w1
           | Returned backingDevicePath w1 \<Rightarrow>
               scanLines rest (result(backingDevicePath \<mapsto> mapName)) w1))"

definition ScanLUKSMappings :: "World \<Rightarrow> (string \<rightharpoonup> string) result" where
  "ScanLUKSMappings w =
     andThen (Command_Run \<lparr>Stdin = [], SkipLog = False, ExitOnError = True\<rparr>
                [''dmsetup'', ''ls'', ''--target=crypt''] w) (\<lambda>(stdout, _) w1.
       if TrimSpace stdout = ''No devices found'' then Returned Map.empty w1
       else scanLines (Split stdout CHR ''\<newline>'') Map.empty w1)"

subsection \<open>OpenLUKS\<close>

text \<open>The loop over the configured keys: \<open>idx\<close> is the index of the next key.\<close>

fun tryKeys :: "string \<Rightarrow> string \<Rightarrow> nat \<Rightarrow> Key list \<Rightarrow> World \<Rightarrow> bool result" where
  "tryKeys devicePath mapperName idx [] w = Returned False w"
| "tryKeys devicePath mapperName idx (key # rest) w =
     (case Log LogDebug ''trying to luksOpen %s as %s with key %d...''
             [ArgS devicePath, ArgS mapperName, ArgI idx] w of
        Terminated w1 \<Rightarrow> Terminated w1
      | Returned _ w1 \<Rightarrow>
          (case Command_Run \<lparr>Stdin = Secret key @ ''\<newline>'', SkipLog = True, ExitOnError = False\<rparr>
                  [''cryptsetup'', ''luksOpen'', devicePath, mapperName] w1 of
             Terminated w2 \<Rightarrow> Terminated w2
           | Returned (out, ok) w2 \<Rightarrow>
               if ok then Returned True w2
               else tryKeys devicePath mapperName (Suc idx) rest w2))"

definition OpenLUKS :: "Program \<Rightarrow> Configuration \<Rightarrow> Drive \<Rightarrow> World \<Rightarrow> Drive result" where
  "OpenLUKS P Config d w =
     (if Broken d then Returned d w
      else if MappedDevicePath d \<noteq> [] then Returned d w
      else andThen (Classify P d w) (\<lambda>(classified, d1) w1.
        if \<not> classified then Returned d1 w1
        else if Type d1 \<noteq> DeviceTypeLUKS then Returned d1 w1
        else
          let mapperName = Name (TemporaryMount d1)
          in andThen (tryKeys (DevicePath d1) mapperName 0 (Keys Config) w1) (\<lambda>success w2.
               if \<not> success then
                 andThen (Log LogError
                            ''exec(cryptsetup luksOpen %s %s) failed: none of the configured keys was accepted''
                            [] w2)
                   (\<lambda>_ w3. MarkAsBroken P d1 w3)
               else
                 let d2 = d1\<lparr>MappedDevicePath := ''/dev/mapper/'' @ mapperName\<rparr>;
                     d3 = d2\<lparr>Type := DeviceTypeNotScanned\<rparr>
                 in andThen (Log LogInfo ''LUKS container at %s opened as %s''
                               [ArgS (DevicePath d3), ArgS (MappedDevicePath d3)] w2)
                      (\<lambda>_ w3. Returned d3 w3))))"

subsection \<open>FormatLUKSIfRequired\<close>

text \<open>
  \<open>Config.Keys[0]\<close> on an empty list would panic; the fatal log message of the sanity
  check ends the process before.
\<close>

definition FormatLUKSIfRequired :: "Program \<Rightarrow> Configuration \<Rightarrow> Drive \<Rightarrow> World \<Rightarrow> Drive result" where
  "FormatLUKSIfRequired P Config d w =
     (if Broken d then Returned d w
      else if MappedDevicePath d \<noteq> [] then Returned d w
      else
        andThen (if length (Keys Config) = 0
                 then Log LogFatal ''FormatLUKSIfRequired called on %s, but no keys specified!''
                        [ArgS (DevicePath d)] w
                 else Returned () w) (\<lambda>_ w0.
        andThen (Classify P d w0) (\<lambda>(classified, d1) w1.
          if \<not> classified then Returned d1 w1
          else if Type d1 \<noteq> DeviceTypeUnknown then Returned d1 w1
          else
            (case Keys Config of
               [] \<Rightarrow> Terminated w1
             | key # _ \<Rightarrow>
                 andThen (Log LogDebug ''running cryptsetup luksFormat %s with key 0...''
                            [ArgS (DevicePath d1)] w1) (\<lambda>_ w2.
                 andThen (Command_Run \<lparr>Stdin = Secret key @ ''\<newline>'', SkipLog = False, ExitOnError = False\<rparr>
                            [''cryptsetup'', ''luksFormat'', DevicePath d1] w2) (\<lambda>(out, ok) w3.
                   if ok then Returned (d1\<lparr>Type := DeviceTypeLUKS\<rparr>) w3
                   else MarkAsBroken P d1 w3))))))"

section \<open>The entry point main\<close>

text \<open>
  The function \<open>main\<close> of \<open>main.go\<close>, whole. What it calls lives in other files or in
  libraries and is a parameter here, acting on the state of the system, of any type
  \<open>'s\<close> (the file system, the mount table, the global variable \<open>Config\<close>, which
  \<open>Config_global\<close> reads from the state).

  The model records what the process does as a list of events: every call with its
  arguments and its result, every log entry, and the usage message written to the
  standard error stream. A Go result \<open>(value, err)\<close> is a sum, \<open>Inl\<close> the text
  \<open>err.Error()\<close> of the error and \<open>Inr\<close> the value; a lone \<open>err\<close> is an option.

  The library calls of the start-up (\<open>ioutil.ReadFile\<close>, \<open>yaml.Unmarshal\<close> into the
  global \<open>Config\<close>, \<open>os.Chdir\<close>) return their result and the new state.

  The stages (\<open>ListDrives\<close>, \<open>ScanMountPoints\<close>, \<open>MountDevice\<close>, \<open>ScanSwiftID\<close>,
  \<open>ExecuteFinalMount\<close>, \<open>ExecSimple\<close>) are procedures of the program: besides returning
  a result they can write log entries, and they can end the process themselves (a fatal
  log entry, a command run in exit-on-error mode). A stage takes the state and gives
  the entries it logs, in order, and \<open>Some\<close> of its result and the new state, or
  \<open>None\<close> when it ends the process. \<open>'m\<close> is the type of the mount table. The map that
  \<open>ScanSwiftID\<close> returns is given as the list of its entries \<open>(swiftID, device)\<close> in the
  order in which \<open>main\<close> ranges over it.
\<close>

datatype ExecMode = ExecChroot

datatype Event =
    UsageEvent string
  | ReadFileEvent string "string + string"
  | UnmarshalEvent string "string option"
  | ChdirEvent string "string option"
  | ListDrivesEvent "string + string list"
  | ScanMountPointsEvent "string option"
  | MountDeviceEvent string "string + string"
  | ScanSwiftIDEvent "(string \<times> string) list" bool
  | ExecuteFinalMountEvent string string "string option"
  | ExecSimpleEvent ExecMode "string list" "string option"
  | StageLogEvent LogEntry
  | StageEndedEvent
  | MainLogEvent LogEntry

record 's Library =
  ReadFile :: "string \<Rightarrow> 's \<Rightarrow> (string + string) \<times> 's"
  Unmarshal :: "string \<Rightarrow> 's \<Rightarrow> string option \<times> 's"
  Config_global :: "'s \<Rightarrow> Configuration"
  Chdir :: "string \<Rightarrow> 's \<Rightarrow> string option \<times> 's"

type_synonym ('a, 's) stage = "'s \<Rightarrow> LogEntry list \<times> ('a \<times> 's) option"

record ('s, 'm) Stages =
  ListDrives :: "(string + string list, 's) stage"
  ScanMountPoints :: "(string + 'm, 's) stage"
  MountDevice :: "string \<Rightarrow> 'm \<Rightarrow> (string + string, 's) stage"
  ScanSwiftID :: "'m \<Rightarrow> ((string \<times> string) list \<times> bool, 's) stage"
  ExecuteFinalMount :: "string \<Rightarrow> string \<Rightarrow> 'm \<Rightarrow> (string option, 's) stage"
  ExecSimple :: "ExecMode \<Rightarrow> string list \<Rightarrow> (string \<times> string option, 's) stage"

text \<open>
  How the process ends: with an exit status (\<open>os.Exit\<close>, or the return of \<open>main\<close>,
  status 0), in a fatal log entry of \<open>main\<close>, inside a stage, or in the run-time panic
  of an index out of range.
\<close>

datatype Outcome = ExitStatus nat | FatalExit | EndedByStage | Panicked

text \<open>
  A part of \<open>main\<close> either goes on, with a value and the events so far, or has ended the
  process.
\<close>

datatype 'a step = Continue 'a "Event list" | Stop Outcome "Event list"

text \<open>
  The call of a stage: the entries the stage logs, then the event of its return, made
  by \<open>event\<close> from the result, or the end of the process.
\<close>

definition call :: "('a, 's) stage \<Rightarrow> ('a \<Rightarrow> Event) \<Rightarrow> 's \<Rightarrow> Event list \<Rightarrow> ('a \<times> 's) step" where
  "call stage event s tr =
     (case stage s of
        (logs, None) \<Rightarrow> Stop EndedByStage (tr @ map StageLogEvent logs @ [StageEndedEvent])
      | (logs, Some (x, s1)) \<Rightarrow> Continue (x, s1) (tr @ map StageLogEvent logs @ [event x]))"

text \<open>
  Modelled from the spec: a log call of \<open>main\<close> itself writes one entry, as \<open>Log\<close>
  above, and an entry of level Fatal ends the process right after the message is
  emitted, which is why every fatal entry below is the last event of a
  \<open>Stop FatalExit\<close>.
\<close>

definition logEvent :: "LogLevel \<Rightarrow> string \<Rightarrow> Arg list \<Rightarrow> Event" where
  "logEvent lvl fmt as = MainLogEvent \<lparr>level = lvl, format = fmt, args = as\<rparr>"

text \<open>
  The start-up, lines 41 to 67: the check of the arguments (\<open>os.Args\<close> is \<open>Args\<close>; the
  usage message names \<open>os.Args[0]\<close>, which panics when there is no argument at all),
  the configuration file, the working directory.
\<close>

definition startup :: "'s Library \<Rightarrow> string list \<Rightarrow> 's \<Rightarrow> 's step" where
  "startup L Args s =
     (if length Args \<noteq> 2 then
        (case Args of
           [] \<Rightarrow> Stop Panicked []
         | name # _ \<Rightarrow> Stop (ExitStatus 1) [UsageEvent name])
      else
        (case ReadFile L (Args ! 1) s of
           (Inl err, s1) \<Rightarrow>
             Stop FatalExit
               [ReadFileEvent (Args ! 1) (Inl err),
                logEvent LogFatal ''read configuration file: %s'' [ArgS err]]
         | (Inr configBytes, s1) \<Rightarrow>
             (case Unmarshal L configBytes s1 of
                (Some err, s2) \<Rightarrow>
                  Stop FatalExit
                    [ReadFileEvent (Args ! 1) (Inr configBytes),
                     UnmarshalEvent configBytes (Some err),
                     logEvent LogFatal ''parse configuration: %s'' [ArgS err]]
              | (None, s2) \<Rightarrow>
                  (let workingDir = (if ChrootPath (Config_global L s2) \<noteq> []
                                     then ChrootPath (Config_global L s2) else ''/'')
                   in case Chdir L workingDir s2 of
                        (Some err, s3) \<Rightarrow>
                          Stop FatalExit
                            [ReadFileEvent (Args ! 1) (Inr configBytes),
                             UnmarshalEvent configBytes None,
                             ChdirEvent workingDir (Some err),
                             logEvent LogFatal ''chdir to %s: %s'' [ArgS workingDir, ArgS err]]
                      | (None, s3) \<Rightarrow>
                          Continue s3
                            [ReadFileEvent (Args ! 1) (Inr configBytes),
                             UnmarshalEvent configBytes None,
                             ChdirEvent workingDir None]))))"

text \<open>
  The loop over the drive paths, lines 82 to 92: \<open>failed\<close> and \<open>mountPaths\<close> are main's
  variables.
\<close>

fun mountLoop ::
  "('s, 'm) Stages \<Rightarrow> 'm \<Rightarrow> string list \<Rightarrow> bool \<Rightarrow> string list \<Rightarrow> 's \<Rightarrow> Event list
     \<Rightarrow> (bool \<times> string list \<times> 's) step" where
  "mountLoop S allMounts [] failed mountPaths s tr = Continue (failed, mountPaths, s) tr"
| "mountLoop S allMounts (drivePath # rest) failed mountPaths s tr =
     (case call (MountDevice S (''/'' @ drivePath) allMounts)
                (MountDeviceEvent (''/'' @ drivePath)) s tr of
        Stop outcome tr1 \<Rightarrow> Stop outcome tr1
      | Continue (Inr mountPath, s1) tr1 \<Rightarrow>
          mountLoop S allMounts rest failed (mountPaths @ [mountPath]) s1 tr1
      | Continue (Inl err, s1) tr1 \<Rightarrow>
          mountLoop S allMounts rest True mountPaths s1 (tr1 @ [logEvent LogError err []]))"

text \<open>The loop over the entries \<open>(swiftID, device)\<close> of \<open>mountsByID\<close>, lines 108 to 116.\<close>

fun finalLoop ::
  "('s, 'm) Stages \<Rightarrow> 'm \<Rightarrow> (string \<times> string) list \<Rightarrow> bool \<Rightarrow> 's \<Rightarrow> Event list
     \<Rightarrow> (bool \<times> 's) step" where
  "finalLoop S allMounts [] failed s tr = Continue (failed, s) tr"
| "finalLoop S allMounts ((swiftID, device) # rest) failed s tr =
     (case call (ExecuteFinalMount S device swiftID allMounts)
                (ExecuteFinalMountEvent device swiftID) s tr of
        Stop outcome tr1 \<Rightarrow> Stop outcome tr1
      | Continue (None, s1) tr1 \<Rightarrow>
          finalLoop S allMounts rest failed s1
            (tr1 @ [logEvent LogInfo ''%s is mounted on /srv/node/%s'' [ArgS device, ArgS swiftID]])
      | Continue (Some err, s1) tr1 \<Rightarrow>
          finalLoop S allMounts rest True s1 (tr1 @ [logEvent LogError err []]))"

text \<open>The exit, lines 126 to 130.\<close>

definition exitDecision :: "bool \<Rightarrow> Event list \<Rightarrow> Outcome \<times> Event list" where
  "exitDecision failed tr =
     (if failed
      then (ExitStatus 1, tr @ [logEvent LogInfo ''completed with errors, see above'' []])
      else (ExitStatus 0, tr))"

text \<open>
  The second half of the pass, lines 103 to 130, from the identity scan to the exit,
  with the mount table \<open>allMounts\<close> as it is after the optional rescan.
\<close>

definition finishPass ::
  "('s, 'm) Stages \<Rightarrow> 'm \<Rightarrow> bool \<Rightarrow> 's \<Rightarrow> Event list \<Rightarrow> Outcome \<times> Event list" where
  "finishPass S allMounts failed s tr =
     (case call (ScanSwiftID S allMounts)
                (\<lambda>(mountsByID, scanFailed). ScanSwiftIDEvent mountsByID scanFailed) s tr of
        Stop outcome tr1 \<Rightarrow> (outcome, tr1)
      | Continue ((mountsByID, scanFailed), s1) tr1 \<Rightarrow>
          (case finalLoop S allMounts mountsByID (failed \<or> scanFailed) s1 tr1 of
             Stop outcome tr2 \<Rightarrow> (outcome, tr2)
           | Continue (failed2, s2) tr2 \<Rightarrow>
               (case call (ExecSimple S ExecChroot [''touch'', ''/srv/node/ready''])
                          (\<lambda>(out, err). ExecSimpleEvent ExecChroot
                                           [''touch'', ''/srv/node/ready''] err) s2 tr2 of
                  Stop outcome tr3 \<Rightarrow> (outcome, tr3)
                | Continue ((out, None), s3) tr3 \<Rightarrow> exitDecision failed2 tr3
                | Continue ((out, Some err), s3) tr3 \<Rightarrow>
                    exitDecision True
                      (tr3 @ [logEvent LogError ''touch /srv/node/ready: %s'' [ArgS err]]))))"

text \<open>The event of a call of \<open>ScanMountPoints\<close> keeps the error, not the mount table.\<close>

fun scanEvent :: "string + 'm \<Rightarrow> Event" where
  "scanEvent (Inl err) = ScanMountPointsEvent (Some err)"
| "scanEvent (Inr allMounts) = ScanMountPointsEvent None"

text \<open>
  The pass, lines 69 to 130: the list of drives and the mount table (an error of either
  is fatal), the mount loop, the rescan of the mount table when something was mounted
  (an error is fatal again), and the second half.
\<close>

definition main_pass :: "('s, 'm) Stages \<Rightarrow> 's \<Rightarrow> Event list \<Rightarrow> Outcome \<times> Event list" where
  "main_pass S s tr =
     (case call (ListDrives S) ListDrivesEvent s tr of
        Stop outcome tr1 \<Rightarrow> (outcome, tr1)
      | Continue (Inl err, s1) tr1 \<Rightarrow>
          (FatalExit, tr1 @ [logEvent LogFatal ''list drives: %s'' [ArgS err]])
      | Continue (Inr drivePaths, s1) tr1 \<Rightarrow>
          (case call (ScanMountPoints S) scanEvent s1 tr1 of
             Stop outcome tr2 \<Rightarrow> (outcome, tr2)
           | Continue (Inl err, s2) tr2 \<Rightarrow>
               (FatalExit, tr2 @ [logEvent LogFatal ''list mount points: %s'' [ArgS err]])
           | Continue (Inr allMounts, s2) tr2 \<Rightarrow>
               (case mountLoop S allMounts drivePaths False [] s2 tr2 of
                  Stop outcome tr3 \<Rightarrow> (outcome, tr3)
                | Continue (failed, mountPaths, s3) tr3 \<Rightarrow>
                    if length mountPaths > 0 then
                      (case call (ScanMountPoints S) scanEvent s3 tr3 of
                         Stop outcome tr4 \<Rightarrow> (outcome, tr4)
                       | Continue (Inl err, s4) tr4 \<Rightarrow>
                           (FatalExit,
                            tr4 @ [logEvent LogFatal ''list mount points: %s'' [ArgS err]])
                       | Continue (Inr rescanned, s4) tr4 \<Rightarrow>
                           finishPass S rescanned failed s4 tr4)
                    else finishPass S allMounts failed s3 tr3)))"

definition main :: "'s Library \<Rightarrow> ('s, 'm) Stages \<Rightarrow> string list \<Rightarrow> 's \<Rightarrow> Outcome \<times> Event list" where
  "main L S Args s =
     (case startup L Args s of
        Stop outcome tr \<Rightarrow> (outcome, tr)
      | Continue s1 tr \<Rightarrow> main_pass S s1 tr)"

section \<open>Notions used to state the properties\<close>

text \<open>
  \<open>answer w i\<close> is the answer of the operating system to the \<open>i\<close>-th command started
  from the state \<open>w\<close> on (counting from 0), and \<open>accepted w i\<close> its success flag.
\<close>

definition answer :: "World \<Rightarrow> nat \<Rightarrow> string \<times> bool" where
  "answer w i = responses w (length (issued w) + i)"

definition accepted :: "World \<Rightarrow> nat \<Rightarrow> bool" where
  "accepted w i = snd (answer w i)"

text \<open>
  With \<open>n\<close> keys configured and \<open>acc i\<close> telling whether the \<open>i\<close>-th attempt succeeds:
  whether some attempt among the first \<open>n\<close> succeeds, and the number of attempts up to
  and including the first one that succeeds (all \<open>n\<close> when none does).
\<close>

definition anyAccepted :: "(nat \<Rightarrow> bool) \<Rightarrow> nat \<Rightarrow> bool" where
  "anyAccepted acc n = list_ex acc [0..<n]"

definition attemptsMade :: "(nat \<Rightarrow> bool) \<Rightarrow> nat \<Rightarrow> nat" where
  "attemptsMade acc n = min n (Suc (length (takeWhile (\<lambda>i. \<not> acc i) [0..<n])))"

text \<open>The command that \<open>OpenLUKS\<close> starts for a key, and the debug line before it.\<close>

definition openInvocation :: "string \<Rightarrow> string \<Rightarrow> Key \<Rightarrow> Invocation" where
  "openInvocation devicePath mapperName key =
     \<lparr>argv = [''cryptsetup'', ''luksOpen'', devicePath, mapperName],
      stdin = Secret key @ ''\<newline>'', skiplog = True\<rparr>"

definition tryingEntry :: "string \<Rightarrow> string \<Rightarrow> nat \<Rightarrow> LogEntry" where
  "tryingEntry devicePath mapperName idx =
     \<lparr>level = LogDebug, format = ''trying to luksOpen %s as %s with key %d...'',
      args = [ArgS devicePath, ArgS mapperName, ArgI idx]\<rparr>"

definition noKeyAcceptedEntry :: LogEntry where
  "noKeyAcceptedEntry =
     \<lparr>level = LogError,
      format = ''exec(cryptsetup luksOpen %s %s) failed: none of the configured keys was accepted'',
      args = []\<rparr>"

text \<open>
  What an observer sees who cannot read the piped input of the commands: the
  surroundings with every piped input blanked. \<open>keyBlind P\<close> says that \<open>MarkAsBroken\<close>
  of the rest of the program does not read the piped input of earlier commands: on
  surroundings that differ in nothing else it behaves the same.
\<close>

definition redact :: "World \<Rightarrow> World" where
  "redact w = w\<lparr>issued := map (\<lambda>c. c\<lparr>stdin := []\<rparr>) (issued w)\<rparr>"

fun redactResult :: "'a result \<Rightarrow> 'a result" where
  "redactResult (Returned x w) = Returned x (redact w)"
| "redactResult (Terminated w) = Terminated (redact w)"

definition keyBlind :: "Program \<Rightarrow> bool" where
  "keyBlind P =
     (\<forall>d w w'. redact w = redact w' \<longrightarrow>
        redactResult (MarkAsBroken P d w) = redactResult (MarkAsBroken P d w'))"

text \<open>
  For \<open>ScanLUKSMappings\<close>: the mapping names that the list of mappings holds (the
  first field of every line that has a field), the two commands it starts, the backing
  device that the \<open>i\<close>-th next command reports (\<open>None\<close> when the command fails or its
  output has no match of the pattern), and the backing devices of the first \<open>n\<close>
  status queries, given by \<open>f\<close>.
\<close>

definition mappingNamesOf :: "string list \<Rightarrow> string list" where
  "mappingNamesOf lines = concat (map (\<lambda>line. take 1 (Fields line)) lines)"

definition mappingNames :: "string \<Rightarrow> string list" where
  "mappingNames stdout = mappingNamesOf (Split stdout CHR ''\<newline>'')"

definition listInvocation :: Invocation where
  "listInvocation = \<lparr>argv = [''dmsetup'', ''ls'', ''--target=crypt''], stdin = [], skiplog = False\<rparr>"

definition statusInvocation :: "string \<Rightarrow> Invocation" where
  "statusInvocation mapName =
     \<lparr>argv = [''cryptsetup'', ''status'', mapName], stdin = [], skiplog = False\<rparr>"

definition backingOf :: "World \<Rightarrow> nat \<Rightarrow> string option" where
  "backingOf w i =
     (if accepted w i then backingDeviceRx_FindStringSubmatch (fst (answer w i)) else None)"

definition pathsOf :: "(nat \<Rightarrow> string option) \<Rightarrow> nat \<Rightarrow> string list" where
  "pathsOf f n = map (\<lambda>i. case f i of None \<Rightarrow> [] | Some p \<Rightarrow> p) [0..<n]"

text \<open>
  For \<open>main\<close>, read off its list of events: the drive paths that \<open>ListDrives\<close> returned;
  the arguments of the calls of \<open>MountDevice\<close> and the mount paths it returned; the
  entries that \<open>ScanSwiftID\<close> returned and the arguments of the calls of
  \<open>ExecuteFinalMount\<close>; whether an event is a call of \<open>ScanMountPoints\<close>, or the touch
  of the readiness marker; whether it is a stage's report of a failure (an error
  returned by \<open>MountDevice\<close>, \<open>ExecuteFinalMount\<close> or the touch, or the failure flag of
  \<open>ScanSwiftID\<close>); whether it is an error that \<open>main\<close> takes as fatal (returned by
  \<open>ReadFile\<close>, \<open>Unmarshal\<close>, \<open>Chdir\<close>, \<open>ListDrives\<close> or \<open>ScanMountPoints\<close>); and the log
  of the process, the entries of the stages and of \<open>main\<close> in the order in which they
  were written.
\<close>

fun drivesArg :: "Event \<Rightarrow> string list" where
  "drivesArg (ListDrivesEvent (Inr drivePaths)) = drivePaths"
| "drivesArg e = []"

fun mountArg :: "Event \<Rightarrow> string list" where
  "mountArg (MountDeviceEvent path r) = [path]"
| "mountArg e = []"

fun mountedArg :: "Event \<Rightarrow> string list" where
  "mountedArg (MountDeviceEvent path (Inr mountPath)) = [mountPath]"
| "mountedArg e = []"

fun scanArg :: "Event \<Rightarrow> (string \<times> string) list list" where
  "scanArg (ScanSwiftIDEvent mountsByID scanFailed) = [mountsByID]"
| "scanArg e = []"

fun finalArg :: "Event \<Rightarrow> (string \<times> string) list" where
  "finalArg (ExecuteFinalMountEvent device swiftID r) = [(swiftID, device)]"
| "finalArg e = []"

fun logArg :: "Event \<Rightarrow> LogEntry list" where
  "logArg (StageLogEvent entry) = [entry]"
| "logArg (MainLogEvent entry) = [entry]"
| "logArg e = []"

fun isScan :: "Event \<Rightarrow> bool" where
  "isScan (ScanMountPointsEvent r) = True"
| "isScan e = False"

fun isTouch :: "Event \<Rightarrow> bool" where
  "isTouch (ExecSimpleEvent mode cmd r) = (cmd = [''touch'', ''/srv/node/ready''])"
| "isTouch e = False"

fun stageFailed :: "Event \<Rightarrow> bool" where
  "stageFailed (MountDeviceEvent path (Inl err)) = True"
| "stageFailed (ExecuteFinalMountEvent device swiftID (Some err)) = True"
| "stageFailed (ExecSimpleEvent mode cmd (Some err)) = True"
| "stageFailed (ScanSwiftIDEvent mountsByID scanFailed) = scanFailed"
| "stageFailed e = False"

fun fatalReturned :: "Event \<Rightarrow> bool" where
  "fatalReturned (ReadFileEvent name (Inl err)) = True"
| "fatalReturned (UnmarshalEvent bytes (Some err)) = True"
| "fatalReturned (ChdirEvent dir (Some err)) = True"
| "fatalReturned (ListDrivesEvent (Inl err)) = True"
| "fatalReturned (ScanMountPointsEvent (Some err)) = True"
| "fatalReturned e = False"

definition drives :: "Event list \<Rightarrow> string list" where
  "drives tr = concat (map drivesArg tr)"

definition mountCalls :: "Event list \<Rightarrow> string list" where
  "mountCalls tr = concat (map mountArg tr)"

definition mounted :: "Event list \<Rightarrow> string list" where
  "mounted tr = concat (map mountedArg tr)"

definition scans :: "Event list \<Rightarrow> (string \<times> string) list list" where
  "scans tr = concat (map scanArg tr)"

definition finalCalls :: "Event list \<Rightarrow> (string \<times> string) list" where
  "finalCalls tr = concat (map finalArg tr)"

definition logOf :: "Event list \<Rightarrow> LogEntry list" where
  "logOf tr = concat (map logArg tr)"

text \<open>
  The Error entry that \<open>main\<close> writes for an error that a stage returned: the text of
  the error as the format, for \<open>MountDevice\<close> and \<open>ExecuteFinalMount\<close>, and the message
  about the touch. \<open>paired tr\<close> says that in \<open>tr\<close> every such returned error is followed
  at once by its entry, written by \<open>main\<close>, and that \<open>main\<close> writes no other entry of
  level Error.
\<close>

fun errorEntryOf :: "Event \<Rightarrow> LogEntry option" where
  "errorEntryOf (MountDeviceEvent path (Inl err)) =
     Some \<lparr>level = LogError, format = err, args = []\<rparr>"
| "errorEntryOf (ExecuteFinalMountEvent device swiftID (Some err)) =
     Some \<lparr>level = LogError, format = err, args = []\<rparr>"
| "errorEntryOf (ExecSimpleEvent mode cmd (Some err)) =
     Some \<lparr>level = LogError, format = ''touch /srv/node/ready: %s'', args = [ArgS err]\<rparr>"
| "errorEntryOf e = None"

fun isMainError :: "Event \<Rightarrow> bool" where
  "isMainError (MainLogEvent entry) = (level entry = LogError)"
| "isMainError e = False"

fun paired :: "Event list \<Rightarrow> bool" where
  "paired [] = True"
| "paired (e # rest) =
     (case errorEntryOf e of
        Some entry \<Rightarrow>
          (case rest of [] \<Rightarrow> False | e' # rest' \<Rightarrow> e' = MainLogEvent entry \<and> paired rest')
      | None \<Rightarrow> \<not> isMainError e \<and> paired rest)"

section \<open>Sample inputs\<close>

text \<open>
  Concrete values for running the model: a drive, a configuration, surroundings that
  give a fixed list of answers (and a failure with empty output to every later command),
  and an instance of the rest of the program: \<open>Classify\<close> keeps a type that was
  determined before and otherwise reports what \<open>found\<close> says (\<open>None\<close>: the inspection
  fails; \<open>Some t\<close>: the device holds \<open>t\<close>), \<open>MarkAsBroken\<close> sets the flag.
\<close>

definition sampleDrive :: Drive where
  "sampleDrive =
     \<lparr>DevicePath = ''/dev/sdb'', MappedDevicePath = [], Type = DeviceTypeNotScanned,
      Broken = False,
      TemporaryMount = \<lparr>Name = ''abc'', Path = ''/run/swift-storage/abc'', Active = False\<rparr>,
      SwiftID = [], StartedOutEmpty = True\<rparr>"

definition sampleConfig :: "string list \<Rightarrow> Configuration" where
  "sampleConfig secrets =
     \<lparr>ChrootPath = [], DriveGlobs = [''/dev/sd?''], Keys = map (\<lambda>s. \<lparr>Secret = s\<rparr>) secrets\<rparr>"

definition sampleWorld :: "(string \<times> bool) list \<Rightarrow> World" where
  "sampleWorld answers =
     \<lparr>logged = [], issued = [],
      responses = (\<lambda>n. if n < length answers then answers ! n else ([], False))\<rparr>"

definition sampleProgram :: "DeviceType option \<Rightarrow> Program" where
  "sampleProgram found =
     \<lparr>Classify = (\<lambda>d w.
        if Type d \<noteq> DeviceTypeNotScanned then Returned (True, d) w
        else (case found of
                None \<Rightarrow> Returned (False, d) w
              | Some t \<Rightarrow> Returned (True, d\<lparr>Type := t\<rparr>) w)),
      MarkAsBroken = (\<lambda>d w. Returned (d\<lparr>Broken := True\<rparr>) w)\<rparr>"

text \<open>
  For \<open>main\<close>: library calls that succeed, with a configuration whose chroot directory
  is \<open>/mnt\<close>, and three instances of the stages on a state that counts the calls of
  \<open>ScanMountPoints\<close>. In \<open>sampleStages\<close> there are two drives, \<open>MountDevice\<close> fails for
  the first one, and every other call succeeds. In \<open>rescanFailsStages\<close> the one drive
  is mounted and the second call of \<open>ScanMountPoints\<close> returns an error. In
  \<open>chattyStages\<close> every call succeeds, and \<open>MountDevice\<close> writes an entry of level Error
  about a problem that it has worked around.
\<close>

definition sampleLibrary :: "nat Library" where
  "sampleLibrary =
     \<lparr>ReadFile = (\<lambda>name s. (Inr ''chroot: /mnt'', s)),
      Unmarshal = (\<lambda>bytes s. (None, s)),
      Config_global = (\<lambda>s. \<lparr>ChrootPath = ''/mnt'', DriveGlobs = [], Keys = []\<rparr>),
      Chdir = (\<lambda>dir s. (None, s))\<rparr>"

definition sampleStages :: "(nat, unit) Stages" where
  "sampleStages =
     \<lparr>ListDrives = (\<lambda>s. ([], Some (Inr [''dev/sdb'', ''dev/sdc''], s))),
      ScanMountPoints = (\<lambda>s. ([], Some (Inr (), Suc s))),
      MountDevice = (\<lambda>path m s.
        ([], Some (if path = ''/dev/sdb'' then Inl ''mount failed''
                   else Inr (''/run/swift-storage'' @ path), s))),
      ScanSwiftID = (\<lambda>m s. ([], Some (([(''swift1'', ''/dev/sdc'')], False), s))),
      ExecuteFinalMount = (\<lambda>device swiftID m s. ([], Some (None, s))),
      ExecSimple = (\<lambda>mode cmd s. ([], Some (([], None), s)))\<rparr>"

definition rescanFailsStages :: "(nat, unit) Stages" where
  "rescanFailsStages =
     \<lparr>ListDrives = (\<lambda>s. ([], Some (Inr [''dev/sdb''], s))),
      ScanMountPoints = (\<lambda>s.
        ([], Some (if s = 0 then Inr () else Inl ''cannot read the mount table'', Suc s))),
      MountDevice = (\<lambda>path m s. ([], Some (Inr (''/run/swift-storage'' @ path), s))),
      ScanSwiftID = (\<lambda>m s. ([], Some (([], False), s))),
      ExecuteFinalMount = (\<lambda>device swiftID m s. ([], Some (None, s))),
      ExecSimple = (\<lambda>mode cmd s. ([], Some (([], None), s)))\<rparr>"

definition chattyStages :: "(nat, unit) Stages" where
  "chattyStages =
     \<lparr>ListDrives = (\<lambda>s. ([], Some (Inr [''dev/sdb''], s))),
      ScanMountPoints = (\<lambda>s. ([], Some (Inr (), Suc s))),
      MountDevice = (\<lambda>path m s.
        ([\<lparr>level = LogError,
           format = ''cannot determine serial number for %s, will use device ID %s instead'',
           args = [ArgS path, ArgS ''d41d8cd9'']\<rparr>],
         Some (Inr (''/run/swift-storage'' @ path), s))),
      ScanSwiftID = (\<lambda>m s. ([], Some (([(''swift1'', ''/dev/sdb'')], False), s))),
      ExecuteFinalMount = (\<lambda>device swiftID m s. ([], Some (None, s))),
      ExecSimple = (\<lambda>mode cmd s. ([], Some (([], None), s)))\<rparr>"

section \<open>Basic facts\<close>

lemmas sample_defs = sampleConfig_def sampleProgram_def sampleDrive_def sampleWorld_def

lemma andThen_simps:
  "andThen (Returned x w) f = f x w"
  "andThen (Terminated w) f = Terminated w"
  by (simp_all add: andThen_def)

lemma Log_simps:
  "Log LogFatal fmt as w = Terminated (w\<lparr>logged := logged w @ [\<lparr>level = LogFatal, format = fmt, args = as\<rparr>]\<rparr>)"
  "lvl \<noteq> LogFatal \<Longrightarrow> Log lvl fmt as w = Returned () (w\<lparr>logged := logged w @ [\<lparr>level = lvl, format = fmt, args = as\<rparr>]\<rparr>)"
  by (simp_all add: Log_def)

lemma Base_last_element:
  assumes "n \<noteq> []" and "CHR ''/'' \<notin> set n"
  shows "Base (dir @ CHR ''/'' # n) = n"
proof -
  obtain c cs where rn: "rev n = c # cs"
    using assms(1) by (cases "rev n") auto
  have c: "c \<noteq> CHR ''/''"
    using assms(2) rn by (metis list.set_intros(1) set_rev)
  have all: "\<And>x. x \<in> set (rev n) \<Longrightarrow> x \<noteq> CHR ''/''"
    using assms(2) by auto
  have r: "rev (dir @ CHR ''/'' # n) = rev n @ CHR ''/'' # rev dir" by simp
  have strip: "dropWhile (\<lambda>c. c = CHR ''/'') (rev n @ CHR ''/'' # rev dir) = rev n @ CHR ''/'' # rev dir"
    using rn c by simp
  have "takeWhile (\<lambda>c. c \<noteq> CHR ''/'') (rev n @ CHR ''/'' # rev dir)
          = rev n @ takeWhile (\<lambda>c. c \<noteq> CHR ''/'') (CHR ''/'' # rev dir)"
    by (rule takeWhile_append2) (use assms(2) in auto)
  then have elem: "takeWhile (\<lambda>c. c \<noteq> CHR ''/'') (rev n @ CHR ''/'' # rev dir) = rev n"
    by simp
  show ?thesis
    unfolding Base_def Let_def r strip
    using assms(1) by (simp add: r elem del: rev_append rev.simps)
qed

lemma Base_mapper:
  assumes "n \<noteq> []" and "CHR ''/'' \<notin> set n"
  shows "Base (''/dev/mapper/'' @ n) = n"
  using Base_last_element [OF assms, of "''/dev/mapper''"] by simp

lemma fieldsFrom_nonempty: "x \<in> set (fieldsFrom cur s) \<Longrightarrow> x \<noteq> []"
  by (induction cur s rule: fieldsFrom.induct) (auto split: if_splits)

lemma Fields_nonempty: "Fields line = x # xs \<Longrightarrow> x \<noteq> []"
  using fieldsFrom_nonempty [of x "[]" line] by (simp add: Fields_def)

lemma scanLines_values_nonempty:
  assumes "scanLines lines result w = Returned m w'"
      and "\<And>k v. result k = Some v \<Longrightarrow> v \<noteq> []"
      and "m k = Some v"
  shows "v \<noteq> []"
  using assms
proof (induction lines arbitrary: result w)
  case Nil
  then show ?case by auto
next
  case (Cons line rest)
  show ?case
  proof (cases "Fields line")
    case Nil
    with Cons.prems have "scanLines rest result w = Returned m w'" by simp
    then show ?thesis using Cons.IH Cons.prems(2,3) by blast
  next
    case (Cons mapName more)
    then have ne: "mapName \<noteq> []" by (rule Fields_nonempty)
    from Cons Cons.prems(1) obtain backing w1 where
      g: "getBackingDevicePath mapName w = Returned backing w1" and
      r: "scanLines rest (result(backing \<mapsto> mapName)) w1 = Returned m w'"
      by (auto split: result.splits)
    have "\<And>k v. (result(backing \<mapsto> mapName)) k = Some v \<Longrightarrow> v \<noteq> []"
      using ne Cons.prems(2) by (auto split: if_splits)
    then show ?thesis using Cons.IH [OF r _ Cons.prems(3)] by blast
  qed
qed

lemma ScanLUKSMappings_values_nonempty:
  assumes "ScanLUKSMappings w0 = Returned m w1" and "m k = Some v"
  shows "v \<noteq> []"
proof -
  have "m = Map.empty \<or> (\<exists>lines w. scanLines lines Map.empty w = Returned m w1)"
    using assms(1)
    by (auto simp: ScanLUKSMappings_def Command_Run_def Let_def andThen_def Log_def
             split: if_splits result.splits prod.splits)
  then show ?thesis
    using assms(2) scanLines_values_nonempty [of _ Map.empty _ m w1 k v] by auto
qed

lemma upt_0_Suc: "[0..<Suc n] = 0 # map Suc [0..<n]"
  by (simp add: upt_conv_Cons map_Suc_upt del: upt_Suc)

lemma anyAccepted_0: "anyAccepted acc 0 = False"
  by (simp add: anyAccepted_def)

lemma list_ex_map: "list_ex P (map f xs) = list_ex (\<lambda>x. P (f x)) xs"
  by (induction xs) simp_all

lemma anyAccepted_Suc: "anyAccepted acc (Suc n) = (acc 0 \<or> anyAccepted (\<lambda>i. acc (Suc i)) n)"
  unfolding anyAccepted_def upt_0_Suc by (simp only: list_ex_Cons_iff list_ex_map)

lemma attemptsMade_0: "attemptsMade acc 0 = 0"
  by (simp add: attemptsMade_def)

lemma attemptsMade_Suc:
  "attemptsMade acc (Suc n) = (if acc 0 then 1 else Suc (attemptsMade (\<lambda>i. acc (Suc i)) n))"
  unfolding attemptsMade_def upt_0_Suc by (simp add: takeWhile_map comp_def del: upt_Suc)

lemma accepted_after_attempt:
  "accepted (w\<lparr>logged := l, issued := issued w @ [c]\<rparr>) i = accepted w (Suc i)"
  by (simp add: accepted_def answer_def)

lemma tryKeys_closed_form:
  "tryKeys dev mapper idx keys w =
     Returned (anyAccepted (accepted w) (length keys))
       (w\<lparr>logged := logged w @
             map (tryingEntry dev mapper) [idx..<idx + attemptsMade (accepted w) (length keys)],
          issued := issued w @
             map (openInvocation dev mapper) (take (attemptsMade (accepted w) (length keys)) keys)\<rparr>)"
proof (induction keys arbitrary: idx w)
  case Nil
  show ?case by (simp add: anyAccepted_0 attemptsMade_0)
next
  case (Cons key rest)
  let ?w2 = "w\<lparr>logged := logged w @ [tryingEntry dev mapper idx],
               issued := issued w @ [openInvocation dev mapper key]\<rparr>"
  have acc2: "accepted ?w2 = (\<lambda>i. accepted w (Suc i))"
    by (rule ext) (simp add: accepted_after_attempt)
  show ?case
  proof (cases "accepted w 0")
    case True
    then have "tryKeys dev mapper idx (key # rest) w = Returned True ?w2"
      by (simp add: Log_simps Command_Run_def Let_def accepted_def answer_def tryingEntry_def
            openInvocation_def)
    then show ?thesis
      using True by (simp add: anyAccepted_Suc attemptsMade_Suc)
  next
    case False
    then have "tryKeys dev mapper idx (key # rest) w = tryKeys dev mapper (Suc idx) rest ?w2"
      by (simp add: Log_simps Command_Run_def Let_def accepted_def answer_def tryingEntry_def
            openInvocation_def)
    then show ?thesis
      using False
      by (simp add: Cons.IH acc2 anyAccepted_Suc attemptsMade_Suc upt_conv_Cons del: upt_Suc)
  qed
qed


lemma anyAccepted_iff: "anyAccepted acc n \<longleftrightarrow> (\<exists>i<n. acc i)"
  by (auto simp: anyAccepted_def list_ex_iff)

lemma attemptsMade_none: "\<not> anyAccepted acc n \<Longrightarrow> attemptsMade acc n = n"
proof (induction n arbitrary: acc)
  case 0
  show ?case by (simp add: attemptsMade_0)
next
  case (Suc n)
  then show ?case by (simp add: anyAccepted_Suc attemptsMade_Suc)
qed

lemma attemptsMade_first:
  "j < n \<Longrightarrow> acc j \<Longrightarrow> (\<And>i. i < j \<Longrightarrow> \<not> acc i) \<Longrightarrow> attemptsMade acc n = Suc j"
proof (induction j arbitrary: acc n)
  case 0
  then obtain n' where "n = Suc n'" by (cases n) auto
  with 0 show ?case by (simp add: attemptsMade_Suc)
next
  case (Suc j)
  then obtain n' where n: "n = Suc n'" by (cases n) auto
  have "\<not> acc 0" using Suc.prems(3) [of 0] by simp
  moreover have "attemptsMade (\<lambda>i. acc (Suc i)) n' = Suc j"
    using Suc.prems n by (intro Suc.IH) auto
  ultimately show ?case by (simp add: n attemptsMade_Suc)
qed

lemma OpenLUKS_run:
  assumes "\<not> Broken d" and "MappedDevicePath d = []"
      and "Classify P d w = Returned (True, d1) w1" and "Type d1 = DeviceTypeLUKS"
  shows "OpenLUKS P Config d w =
     (if anyAccepted (accepted w1) (length (Keys Config))
      then Returned (d1\<lparr>MappedDevicePath := ''/dev/mapper/'' @ Name (TemporaryMount d1),
                        Type := DeviceTypeNotScanned\<rparr>)
             (w1\<lparr>issued := issued w1 @
                    map (openInvocation (DevicePath d1) (Name (TemporaryMount d1)))
                      (take (attemptsMade (accepted w1) (length (Keys Config))) (Keys Config)),
                  logged := logged w1 @
                    map (tryingEntry (DevicePath d1) (Name (TemporaryMount d1)))
                      [0..<attemptsMade (accepted w1) (length (Keys Config))] @
                    [\<lparr>level = LogInfo, format = ''LUKS container at %s opened as %s'',
                      args = [ArgS (DevicePath d1),
                              ArgS (''/dev/mapper/'' @ Name (TemporaryMount d1))]\<rparr>]\<rparr>)
      else MarkAsBroken P d1
             (w1\<lparr>issued := issued w1 @
                    map (openInvocation (DevicePath d1) (Name (TemporaryMount d1))) (Keys Config),
                  logged := logged w1 @
                    map (tryingEntry (DevicePath d1) (Name (TemporaryMount d1)))
                      [0..<length (Keys Config)] @ [noKeyAcceptedEntry]\<rparr>))"
  using assms
  by (simp add: OpenLUKS_def andThen_simps tryKeys_closed_form Log_simps Let_def
        noKeyAcceptedEntry_def attemptsMade_none del: append.simps)

lemma OpenLUKS_skips:
  "Broken d \<or> MappedDevicePath d \<noteq> [] \<Longrightarrow> OpenLUKS P Config d w = Returned d w"
  "\<not> Broken d \<Longrightarrow> MappedDevicePath d = [] \<Longrightarrow> Classify P d w = Returned (ok, d1) w1
     \<Longrightarrow> \<not> ok \<or> Type d1 \<noteq> DeviceTypeLUKS \<Longrightarrow> OpenLUKS P Config d w = Returned d1 w1"
  "\<not> Broken d \<Longrightarrow> MappedDevicePath d = [] \<Longrightarrow> Classify P d w = Terminated w1
     \<Longrightarrow> OpenLUKS P Config d w = Terminated w1"
  by (auto simp: OpenLUKS_def andThen_simps)

lemma FormatLUKSIfRequired_run:
  assumes "\<not> Broken d" and "MappedDevicePath d = []" and "Keys Config = key # others"
      and "Classify P d w = Returned (True, d1) w1" and "Type d1 = DeviceTypeUnknown"
  shows "FormatLUKSIfRequired P Config d w =
     (if accepted w1 0
      then Returned (d1\<lparr>Type := DeviceTypeLUKS\<rparr>)
             (w1\<lparr>logged := logged w1 @
                    [\<lparr>level = LogDebug, format = ''running cryptsetup luksFormat %s with key 0...'',
                      args = [ArgS (DevicePath d1)]\<rparr>],
                  issued := issued w1 @
                    [\<lparr>argv = [''cryptsetup'', ''luksFormat'', DevicePath d1],
                      stdin = Secret key @ ''\<newline>'', skiplog = False\<rparr>]\<rparr>)
      else MarkAsBroken P d1
             (w1\<lparr>issued := issued w1 @
                    [\<lparr>argv = [''cryptsetup'', ''luksFormat'', DevicePath d1],
                      stdin = Secret key @ ''\<newline>'', skiplog = False\<rparr>],
                  logged := logged w1 @
                    [\<lparr>level = LogDebug, format = ''running cryptsetup luksFormat %s with key 0...'',
                      args = [ArgS (DevicePath d1)]\<rparr>,
                     \<lparr>level = LogError, format = ''exec(%s) failed'',
                      args = [ArgS (Join [''cryptsetup'', ''luksFormat'', DevicePath d1] '' '')]\<rparr>]\<rparr>))"
  using assms
  by (simp add: FormatLUKSIfRequired_def andThen_simps Log_simps Command_Run_def Let_def
        accepted_def answer_def del: Join.simps)

lemma FormatLUKSIfRequired_skips:
  "Broken d \<or> MappedDevicePath d \<noteq> [] \<Longrightarrow> FormatLUKSIfRequired P Config d w = Returned d w"
  "\<not> Broken d \<Longrightarrow> MappedDevicePath d = [] \<Longrightarrow> Keys Config = [] \<Longrightarrow>
     FormatLUKSIfRequired P Config d w =
       Terminated (w\<lparr>logged := logged w @
         [\<lparr>level = LogFatal, format = ''FormatLUKSIfRequired called on %s, but no keys specified!'',
           args = [ArgS (DevicePath d)]\<rparr>]\<rparr>)"
  "\<not> Broken d \<Longrightarrow> MappedDevicePath d = [] \<Longrightarrow> Keys Config \<noteq> [] \<Longrightarrow>
     Classify P d w = Returned (ok, d1) w1 \<Longrightarrow> \<not> ok \<or> Type d1 \<noteq> DeviceTypeUnknown \<Longrightarrow>
     FormatLUKSIfRequired P Config d w = Returned d1 w1"
  "\<not> Broken d \<Longrightarrow> MappedDevicePath d = [] \<Longrightarrow> Keys Config \<noteq> [] \<Longrightarrow>
     Classify P d w = Terminated w1 \<Longrightarrow> FormatLUKSIfRequired P Config d w = Terminated w1"
  by (auto simp: FormatLUKSIfRequired_def andThen_simps Log_simps)

lemma blank_opens:
  "map (\<lambda>c. c\<lparr>stdin := []\<rparr>) (map (openInvocation dev mapper) ks) =
     replicate (length ks) \<lparr>argv = [''cryptsetup'', ''luksOpen'', dev, mapper], stdin = [], skiplog = True\<rparr>"
  by (induction ks) (simp_all add: openInvocation_def)

lemma redact_eqI:
  "logged w = logged w' \<Longrightarrow> responses w = responses w' \<Longrightarrow>
   map (\<lambda>c. c\<lparr>stdin := []\<rparr>) (issued w) = map (\<lambda>c. c\<lparr>stdin := []\<rparr>) (issued w') \<Longrightarrow>
   redact w = redact w'"
  by (cases w, cases w') (simp add: redact_def)

lemma redact_opens:
  assumes "length ks1 = length ks2"
  shows "redact (w\<lparr>issued := issued w @ map (openInvocation dev mapper) ks1, logged := l\<rparr>)
       = redact (w\<lparr>issued := issued w @ map (openInvocation dev mapper) ks2, logged := l\<rparr>)"
proof (rule redact_eqI)
  show "map (\<lambda>c. c\<lparr>stdin := []\<rparr>)
          (issued (w\<lparr>issued := issued w @ map (openInvocation dev mapper) ks1, logged := l\<rparr>))
      = map (\<lambda>c. c\<lparr>stdin := []\<rparr>)
          (issued (w\<lparr>issued := issued w @ map (openInvocation dev mapper) ks2, logged := l\<rparr>))"
    using assms blank_opens [of dev mapper ks1] blank_opens [of dev mapper ks2]
    by (simp del: map_map)
qed simp_all

lemma redact_one:
  "redact (w\<lparr>issued := issued w @ [\<lparr>argv = a, stdin = s1, skiplog = b\<rparr>], logged := l\<rparr>)
     = redact (w\<lparr>issued := issued w @ [\<lparr>argv = a, stdin = s2, skiplog = b\<rparr>], logged := l\<rparr>)"
  "redact (w\<lparr>logged := l, issued := issued w @ [\<lparr>argv = a, stdin = s1, skiplog = b\<rparr>]\<rparr>)
     = redact (w\<lparr>logged := l, issued := issued w @ [\<lparr>argv = a, stdin = s2, skiplog = b\<rparr>]\<rparr>)"
  by (rule redact_eqI; simp)+

lemma keyBlindD:
  "keyBlind P \<Longrightarrow> redact w = redact w' \<Longrightarrow>
     redactResult (MarkAsBroken P d w) = redactResult (MarkAsBroken P d w')"
  unfolding keyBlind_def by blast

lemma OpenLUKS_key_independent:
  assumes len: "length (Keys Config1) = length (Keys Config2)" and blind: "keyBlind P"
  shows "redactResult (OpenLUKS P Config1 d w) = redactResult (OpenLUKS P Config2 d w)"
proof (cases "Broken d \<or> MappedDevicePath d \<noteq> []")
  case True
  then show ?thesis by (simp add: OpenLUKS_skips(1))
next
  case False
  then have nb: "\<not> Broken d" and um: "MappedDevicePath d = []" by auto
  show ?thesis
  proof (cases "Classify P d w")
    case (Terminated w1)
    then show ?thesis using nb um by (simp add: OpenLUKS_skips(3))
  next
    case (Returned r w1)
    obtain ok d1 where r: "r = (ok, d1)" by (cases r)
    show ?thesis
    proof (cases "ok \<and> Type d1 = DeviceTypeLUKS")
      case False
      then show ?thesis
        using nb um Returned r OpenLUKS_skips(2) [of d P w ok d1 w1] by auto
    next
      case True
      then have cl: "Classify P d w = Returned (True, d1) w1" and ty: "Type d1 = DeviceTypeLUKS"
        using Returned r by auto
      note run1 = OpenLUKS_run [OF nb um cl ty, of Config1]
      note run2 = OpenLUKS_run [OF nb um cl ty, of Config2]
      show ?thesis
      proof (cases "anyAccepted (accepted w1) (length (Keys Config2))")
        case True
        then show ?thesis
          unfolding run1 run2 using len
          by (simp add: redact_opens [of "take m (Keys Config1)" "take m (Keys Config2)" for m])
      next
        case False
        let ?l = "logged w1 @ map (tryingEntry (DevicePath d1) (Name (TemporaryMount d1)))
                      [0..<length (Keys Config2)] @ [noKeyAcceptedEntry]"
        let ?W = "\<lambda>ks. w1\<lparr>issued := issued w1 @
                    map (openInvocation (DevicePath d1) (Name (TemporaryMount d1))) ks,
                  logged := ?l\<rparr>"
        have "redact (?W (Keys Config1)) = redact (?W (Keys Config2))"
          using len by (rule redact_opens)
        then have "redactResult (MarkAsBroken P d1 (?W (Keys Config1)))
                 = redactResult (MarkAsBroken P d1 (?W (Keys Config2)))"
          by (rule keyBlindD [OF blind])
        then show ?thesis
          unfolding run1 run2 using len False by simp
      qed
    qed
  qed
qed

lemma FormatLUKSIfRequired_key_independent:
  assumes len: "length (Keys Config1) = length (Keys Config2)" and blind: "keyBlind P"
  shows "redactResult (FormatLUKSIfRequired P Config1 d w)
       = redactResult (FormatLUKSIfRequired P Config2 d w)"
proof (cases "Broken d \<or> MappedDevicePath d \<noteq> []")
  case True
  then show ?thesis by (simp add: FormatLUKSIfRequired_skips(1))
next
  case False
  then have nb: "\<not> Broken d" and um: "MappedDevicePath d = []" by auto
  show ?thesis
  proof (cases "Keys Config1")
    case Nil
    then have "Keys Config2 = []" using len by simp
    then show ?thesis using Nil nb um by (simp add: FormatLUKSIfRequired_skips(2))
  next
    case (Cons key1 others1)
    then obtain key2 others2 where k2: "Keys Config2 = key2 # others2"
      using len by (cases "Keys Config2") auto
    have ne: "Keys Config1 \<noteq> []" "Keys Config2 \<noteq> []" using Cons k2 by auto
    show ?thesis
    proof (cases "Classify P d w")
      case (Terminated w1)
      then show ?thesis using nb um ne by (simp add: FormatLUKSIfRequired_skips(4))
    next
      case (Returned r w1)
      obtain ok d1 where r: "r = (ok, d1)" by (cases r)
      show ?thesis
      proof (cases "ok \<and> Type d1 = DeviceTypeUnknown")
        case False
        then show ?thesis
          using nb um ne Returned r FormatLUKSIfRequired_skips(3) [of d _ P w ok d1 w1] by auto
      next
        case True
        then have cl: "Classify P d w = Returned (True, d1) w1" and ty: "Type d1 = DeviceTypeUnknown"
          using Returned r by auto
        note run1 = FormatLUKSIfRequired_run [OF nb um Cons cl ty]
        note run2 = FormatLUKSIfRequired_run [OF nb um k2 cl ty]
        show ?thesis
        proof (cases "accepted w1 0")
          case True
          then show ?thesis
            unfolding run1 run2
            by (simp add: redact_one(2) [where ?s1.0 = "Secret key1 @ ''\<newline>''" and ?s2.0 = "Secret key2 @ ''\<newline>''"])
        next
          case False
          let ?W = "\<lambda>key. w1\<lparr>issued := issued w1 @
                    [\<lparr>argv = [''cryptsetup'', ''luksFormat'', DevicePath d1],
                      stdin = Secret key @ ''\<newline>'', skiplog = False\<rparr>],
                  logged := logged w1 @
                    [\<lparr>level = LogDebug, format = ''running cryptsetup luksFormat %s with key 0...'',
                      args = [ArgS (DevicePath d1)]\<rparr>,
                     \<lparr>level = LogError, format = ''exec(%s) failed'',
                      args = [ArgS (Join [''cryptsetup'', ''luksFormat'', DevicePath d1] '' '')]\<rparr>]\<rparr>"
          have "redact (?W key1) = redact (?W key2)"
            by (rule redact_one(1))
          then have "redactResult (MarkAsBroken P d1 (?W key1))
                   = redactResult (MarkAsBroken P d1 (?W key2))"
            by (rule keyBlindD [OF blind])
          then show ?thesis
            unfolding run1 run2 using False by simp
        qed
      qed
    qed
  qed
qed

lemma backingOf_after_command:
  "backingOf (w\<lparr>issued := issued w @ [c]\<rparr>) i = backingOf w (Suc i)"
  by (simp add: backingOf_def accepted_def answer_def)

lemma getBackingDevicePath_found:
  "backingOf w 0 = Some p \<Longrightarrow>
     getBackingDevicePath mapName w = Returned p (w\<lparr>issued := issued w @ [statusInvocation mapName]\<rparr>)"
  by (simp add: backingOf_def accepted_def answer_def getBackingDevicePath_def Command_Run_def
        Let_def andThen_simps statusInvocation_def split: if_splits)

lemma getBackingDevicePath_fatal:
  "backingOf w 0 = None \<Longrightarrow> is_Terminated (getBackingDevicePath mapName w)"
  by (simp add: backingOf_def accepted_def answer_def getBackingDevicePath_def Command_Run_def
        Let_def andThen_simps Log_simps split: if_splits)

lemma mappingNamesOf_Cons:
  "mappingNamesOf (line # rest) = take 1 (Fields line) @ mappingNamesOf rest"
  by (simp add: mappingNamesOf_def)

lemma pathsOf_Suc:
  "pathsOf f (Suc n) = (case f 0 of None \<Rightarrow> [] | Some p \<Rightarrow> p) # pathsOf (\<lambda>i. f (Suc i)) n"
  unfolding pathsOf_def upt_0_Suc by (simp add: comp_def del: upt_Suc)

lemma scanLines_all_found:
  assumes "\<And>i. i < length (mappingNamesOf lines) \<Longrightarrow> backingOf w i \<noteq> None"
  shows "scanLines lines result w =
           Returned (result(pathsOf (backingOf w) (length (mappingNamesOf lines)) [\<mapsto>] mappingNamesOf lines))
             (w\<lparr>issued := issued w @ map statusInvocation (mappingNamesOf lines)\<rparr>)"
  using assms
proof (induction lines arbitrary: result w)
  case Nil
  show ?case by (simp add: mappingNamesOf_def pathsOf_def)
next
  case (Cons line rest)
  show ?case
  proof (cases "Fields line")
    case Nil
    then show ?thesis
      using Cons.IH [of w result] Cons.prems by (simp add: mappingNamesOf_Cons)
  next
    case (Cons mapName others)
    then have names: "mappingNamesOf (line # rest) = mapName # mappingNamesOf rest"
      by (simp add: mappingNamesOf_Cons)
    obtain p where p: "backingOf w 0 = Some p"
      using Cons.prems [of 0] names by auto
    let ?w1 = "w\<lparr>issued := issued w @ [statusInvocation mapName]\<rparr>"
    have shift: "backingOf ?w1 = (\<lambda>i. backingOf w (Suc i))"
      by (rule ext) (rule backingOf_after_command)
    have "\<And>i. i < length (mappingNamesOf rest) \<Longrightarrow> backingOf ?w1 i \<noteq> None"
      using Cons.prems names by (simp add: shift)
    then have "scanLines rest (result(p \<mapsto> mapName)) ?w1 =
           Returned ((result(p \<mapsto> mapName))
                       (pathsOf (backingOf ?w1) (length (mappingNamesOf rest)) [\<mapsto>] mappingNamesOf rest))
             (?w1\<lparr>issued := issued ?w1 @ map statusInvocation (mappingNamesOf rest)\<rparr>)"
      by (rule Cons.IH)
    then show ?thesis
      using Cons p by (simp add: getBackingDevicePath_found names pathsOf_Suc shift)
  qed
qed

lemma scanLines_fatal_iff:
  "is_Terminated (scanLines lines result w) \<longleftrightarrow>
     (\<exists>i<length (mappingNamesOf lines). backingOf w i = None)"
proof (induction lines arbitrary: result w)
  case Nil
  show ?case by (simp add: mappingNamesOf_def)
next
  case (Cons line rest)
  show ?case
  proof (cases "Fields line")
    case Nil
    then show ?thesis
      using Cons.IH [of result w] by (simp add: mappingNamesOf_Cons)
  next
    case (Cons mapName others)
    then have names: "mappingNamesOf (line # rest) = mapName # mappingNamesOf rest"
      by (simp add: mappingNamesOf_Cons)
    show ?thesis
    proof (cases "backingOf w 0")
      case None
      then have "is_Terminated (getBackingDevicePath mapName w)"
        by (rule getBackingDevicePath_fatal)
      then have "is_Terminated (scanLines (line # rest) result w)"
        using Cons by (cases "getBackingDevicePath mapName w") simp_all
      then show ?thesis using None names by auto
    next
      case (Some p)
      let ?w1 = "w\<lparr>issued := issued w @ [statusInvocation mapName]\<rparr>"
      have step: "scanLines (line # rest) result w = scanLines rest (result(p \<mapsto> mapName)) ?w1"
        using Cons Some by (simp add: getBackingDevicePath_found)
      have "is_Terminated (scanLines rest (result(p \<mapsto> mapName)) ?w1) \<longleftrightarrow>
              (\<exists>i<length (mappingNamesOf rest). backingOf w (Suc i) = None)"
        using Cons.IH [of "result(p \<mapsto> mapName)" ?w1]
        by (simp only: backingOf_after_command)
      then show ?thesis
        unfolding step names using Some by (simp add: Ex_less_Suc2)
    qed
  qed
qed

lemma map_upds_nth:
  assumes len: "length xs = length ys" and dist: "distinct xs" and i: "i < length ys"
  shows "(m(xs [\<mapsto>] ys)) (xs ! i) = Some (ys ! i)"
proof -
  let ?j = "length ys - Suc i"
  have j: "?j < length (rev ys)" using i by simp
  have "map_of (zip (rev xs) (rev ys)) (rev xs ! ?j) = Some (rev ys ! ?j)"
    using len dist j by (intro map_of_zip_nth) simp_all
  moreover have "rev xs ! ?j = xs ! i" "rev ys ! ?j = ys ! i"
    using len i by (simp_all add: rev_nth)
  ultimately have "map_of (rev (zip xs ys)) (xs ! i) = Some (ys ! i)"
    using len by (simp add: zip_rev)
  then show ?thesis
    unfolding map_upds_def by (rule map_add_find_right)
qed

lemma rxMatchAt_SomeD:
  assumes "rxMatchAt s = Some p"
  shows "\<exists>ws1 ws2 after. s = ws1 @ ''device:'' @ ws2 @ p @ after
           \<and> list_all rxSpace ws1 \<and> list_all rxSpace ws2
           \<and> p \<noteq> [] \<and> list_all (\<lambda>c. \<not> rxSpace c) p"
proof -
  let ?s1 = "dropWhile rxSpace s"
  let ?s2 = "dropWhile rxSpace (drop 7 ?s1)"
  from assms have dev: "take 7 ?s1 = ''device:''"
    by (simp add: rxMatchAt_def Let_def split: if_splits)
  from assms dev have p: "p = takeWhile (\<lambda>c. \<not> rxSpace c) ?s2" and ne: "p \<noteq> []"
    by (auto simp: rxMatchAt_def Let_def split: if_splits)
  have "s = takeWhile rxSpace s @ ?s1" by simp
  also have "?s1 = take 7 ?s1 @ drop 7 ?s1" by simp
  also have "drop 7 ?s1 = takeWhile rxSpace (drop 7 ?s1) @ ?s2" by simp
  also have "?s2 = p @ dropWhile (\<lambda>c. \<not> rxSpace c) ?s2" by (simp add: p)
  finally have "s = takeWhile rxSpace s @ ''device:'' @ takeWhile rxSpace (drop 7 ?s1) @ p
                      @ dropWhile (\<lambda>c. \<not> rxSpace c) ?s2"
    unfolding dev .
  moreover have "list_all rxSpace (takeWhile rxSpace s)"
    and "list_all rxSpace (takeWhile rxSpace (drop 7 ?s1))"
    and "list_all (\<lambda>c. \<not> rxSpace c) p"
    by (auto simp: list_all_iff p dest: set_takeWhileD)
  ultimately show ?thesis using ne by blast
qed

lemma rxFind_SomeD:
  "rxFind b s = Some p \<Longrightarrow>
     \<exists>before rest. s = before @ rest \<and> rxMatchAt rest = Some p
        \<and> (if before = [] then b else last before = CHR ''\<newline>'')"
proof (induction s arbitrary: b)
  case Nil
  then show ?case by (auto split: if_splits)
next
  case (Cons c cs)
  show ?case
  proof (cases "b \<and> rxMatchAt (c # cs) = Some p")
    case True
    then show ?thesis by (intro exI [of _ "[]"] exI [of _ "c # cs"]) simp
  next
    case False
    then have "rxFind (c = CHR ''\<newline>'') cs = Some p"
      using Cons.prems by (auto split: if_splits option.splits)
    then obtain before rest where br: "cs = before @ rest" "rxMatchAt rest = Some p"
        "if before = [] then c = CHR ''\<newline>'' else last before = CHR ''\<newline>''"
      using Cons.IH by blast
    then show ?thesis
      by (intro exI [of _ "c # before"] exI [of _ rest]) (simp split: if_splits)
  qed
qed

lemma FindStringSubmatch_device_line:
  assumes "backingDeviceRx_FindStringSubmatch stdout = Some p"
  shows "\<exists>before ws1 ws2 after. stdout = before @ ws1 @ ''device:'' @ ws2 @ p @ after
           \<and> (before = [] \<or> last before = CHR ''\<newline>'')
           \<and> list_all rxSpace ws1 \<and> list_all rxSpace ws2
           \<and> p \<noteq> [] \<and> list_all (\<lambda>c. \<not> rxSpace c) p"
proof -
  obtain before rest where br: "stdout = before @ rest" "rxMatchAt rest = Some p"
      "before = [] \<or> last before = CHR ''\<newline>''"
    using rxFind_SomeD [of True stdout p] assms
    by (auto simp: backingDeviceRx_FindStringSubmatch_def split: if_splits)
  obtain ws1 ws2 after where m: "rest = ws1 @ ''device:'' @ ws2 @ p @ after"
      "list_all rxSpace ws1" "list_all rxSpace ws2" "p \<noteq> []" "list_all (\<lambda>c. \<not> rxSpace c) p"
    using rxMatchAt_SomeD [OF br(2)] by blast
  show ?thesis
    using br(1,3) m by blast
qed

section \<open>CloseLUKS\<close>

text \<open>
  Claim C8. \<open>CloseLUKS\<close> does nothing when \<open>MappedDevicePath\<close> is empty. Otherwise it
  starts exactly one command, \<open>cryptsetup close\<close> with the last element of the mapped
  path as the mapping name (for a path \<open>/dev/mapper/n\<close> that is \<open>n\<close>). When the command
  succeeds, \<open>MappedDevicePath\<close> is cleared and the closing is logged; when it fails, the
  drive is returned as it was, every field included, so that a later pass finds the
  mapping still recorded and can close it again.
\<close>

theorem CloseLUKS_contract:
  "(MappedDevicePath d = [] \<longrightarrow> CloseLUKS d w = Returned d w)
   \<and> (MappedDevicePath d \<noteq> [] \<longrightarrow>
        (\<exists>w'. CloseLUKS d w =
                Returned (if snd (responses w (length (issued w)))
                          then d\<lparr>MappedDevicePath := []\<rparr> else d) w'
          \<and> issued w' = issued w @
                [\<lparr>argv = [''cryptsetup'', ''close'', Base (MappedDevicePath d)],
                  stdin = [], skiplog = False\<rparr>]
          \<and> (snd (responses w (length (issued w))) \<longrightarrow>
                logged w' = logged w @
                  [\<lparr>level = LogInfo, format = ''LUKS container %s closed'',
                    args = [ArgS (MappedDevicePath d)]\<rparr>])))
   \<and> (n \<noteq> [] \<and> CHR ''/'' \<notin> set n \<longrightarrow> Base (''/dev/mapper/'' @ n) = n)"
  using Base_mapper [of n]
  by (simp add: CloseLUKS_def Run_def Command_Run_def Let_def andThen_simps Log_simps del: append.simps)


theorem CloseLUKS_contract_witness:
  "MappedDevicePath (sampleDrive\<lparr>MappedDevicePath := ''/dev/mapper/abc''\<rparr>) \<noteq> []
   \<and> snd (responses (sampleWorld [([], True)]) (length (issued (sampleWorld [([], True)]))))
   \<and> (\<exists>w'. CloseLUKS (sampleDrive\<lparr>MappedDevicePath := ''/dev/mapper/abc''\<rparr>)
               (sampleWorld [([], True)]) = Returned sampleDrive w'
          \<and> issued w' = [\<lparr>argv = [''cryptsetup'', ''close'', ''abc''], stdin = [], skiplog = False\<rparr>]
          \<and> logged w' = [\<lparr>level = LogInfo, format = ''LUKS container %s closed'',
                           args = [ArgS ''/dev/mapper/abc'']\<rparr>])
   \<and> (\<exists>w'. CloseLUKS (sampleDrive\<lparr>MappedDevicePath := ''/dev/mapper/abc''\<rparr>)
               (sampleWorld []) = Returned (sampleDrive\<lparr>MappedDevicePath := ''/dev/mapper/abc''\<rparr>) w'
          \<and> issued w' = [\<lparr>argv = [''cryptsetup'', ''close'', ''abc''], stdin = [], skiplog = False\<rparr>])
   \<and> CloseLUKS sampleDrive (sampleWorld []) = Returned sampleDrive (sampleWorld [])"
  using CloseLUKS_contract [of "sampleDrive\<lparr>MappedDevicePath := ''/dev/mapper/abc''\<rparr>"
          "sampleWorld [([], True)]" "''abc''"]
        CloseLUKS_contract [of "sampleDrive\<lparr>MappedDevicePath := ''/dev/mapper/abc''\<rparr>"
          "sampleWorld []" "''abc''"]
        CloseLUKS_contract [of sampleDrive "sampleWorld []" "''abc''"]
  by (simp add: sampleDrive_def sampleWorld_def Base_def)

section \<open>CheckLUKS\<close>

text \<open>
  Claim C1. For the map that \<open>ScanLUKSMappings\<close> returns, \<open>CheckLUKS\<close> is the
  reconciliation in five cases. (1) No mapping for the device path, but the drive
  records a mapped path: one error is logged and \<open>MarkAsBroken\<close> runs on the drive.
  (2) No mapping and none recorded: nothing happens. (3) The mapping is the recorded
  one: nothing happens. (4) A mapping \<open>n\<close> and none recorded: \<open>MappedDevicePath\<close> becomes
  \<open>/dev/mapper/n\<close>, the discovery is logged at level Info, and \<open>StartedOutEmpty\<close> is
  cleared. (5) A mapping other than the recorded one: one error is logged and
  \<open>MarkAsBroken\<close> runs on the drive.
\<close>

theorem CheckLUKS_five_cases:
  assumes "ScanLUKSMappings w0 = Returned activeMappings w1"
  shows
    "(activeMappings (DevicePath d) = None \<and> MappedDevicePath d \<noteq> [] \<longrightarrow>
        CheckLUKS P activeMappings d w =
          MarkAsBroken P d (w\<lparr>logged := logged w @
            [\<lparr>level = LogError,
              format = ''LUKS container in %s should be open at %s, but is not'',
              args = [ArgS (DevicePath d), ArgS (MappedDevicePath d)]\<rparr>]\<rparr>))
   \<and> (activeMappings (DevicePath d) = None \<and> MappedDevicePath d = [] \<longrightarrow>
        CheckLUKS P activeMappings d w = Returned d w)
   \<and> (activeMappings (DevicePath d) = Some n \<and> MappedDevicePath d = ''/dev/mapper/'' @ n \<longrightarrow>
        CheckLUKS P activeMappings d w = Returned d w)
   \<and> (activeMappings (DevicePath d) = Some n \<and> MappedDevicePath d = [] \<longrightarrow>
        CheckLUKS P activeMappings d w =
          Returned (d\<lparr>MappedDevicePath := ''/dev/mapper/'' @ n, StartedOutEmpty := False\<rparr>)
            (w\<lparr>logged := logged w @
              [\<lparr>level = LogInfo, format = ''discovered %s to be mapped to %s already'',
                args = [ArgS (DevicePath d), ArgS (''/dev/mapper/'' @ n)]\<rparr>]\<rparr>))
   \<and> (activeMappings (DevicePath d) = Some n \<and> MappedDevicePath d \<noteq> []
        \<and> MappedDevicePath d \<noteq> ''/dev/mapper/'' @ n \<longrightarrow>
        CheckLUKS P activeMappings d w =
          MarkAsBroken P d (w\<lparr>logged := logged w @
            [\<lparr>level = LogError,
              format = ''LUKS container in %s should be open at %s, but is actually open at %s'',
              args = [ArgS (DevicePath d), ArgS (MappedDevicePath d),
                      ArgS (''/dev/mapper/'' @ n)]\<rparr>]\<rparr>))"
proof -
  have ne: "activeMappings (DevicePath d) = Some n \<Longrightarrow> n \<noteq> []"
    using ScanLUKSMappings_values_nonempty [OF assms] by blast
  show ?thesis
    using ne
    by (auto simp: CheckLUKS_def lookup_def Let_def andThen_simps Log_simps simp del: append.simps)
qed


theorem CheckLUKS_five_cases_witness:
  "ScanLUKSMappings (sampleWorld [(''abc\<newline>'', True), (''  device:  /dev/sdb\<newline>'', True)])
     = Returned [''/dev/sdb'' \<mapsto> ''abc'']
         ((sampleWorld [(''abc\<newline>'', True), (''  device:  /dev/sdb\<newline>'', True)])
            \<lparr>issued := [\<lparr>argv = [''dmsetup'', ''ls'', ''--target=crypt''], stdin = [], skiplog = False\<rparr>,
                        \<lparr>argv = [''cryptsetup'', ''status'', ''abc''], stdin = [], skiplog = False\<rparr>]\<rparr>)
   \<and> CheckLUKS (sampleProgram None) [''/dev/sdb'' \<mapsto> ''abc'']
        (sampleDrive\<lparr>DevicePath := ''/dev/sdc'', MappedDevicePath := ''/dev/mapper/xyz''\<rparr>)
        (sampleWorld [])
      = Returned (sampleDrive\<lparr>DevicePath := ''/dev/sdc'', MappedDevicePath := ''/dev/mapper/xyz'',
                               Broken := True\<rparr>)
          ((sampleWorld [])\<lparr>logged :=
             [\<lparr>level = LogError,
               format = ''LUKS container in %s should be open at %s, but is not'',
               args = [ArgS ''/dev/sdc'', ArgS ''/dev/mapper/xyz'']\<rparr>]\<rparr>)
   \<and> CheckLUKS (sampleProgram None) [''/dev/sdb'' \<mapsto> ''abc'']
        (sampleDrive\<lparr>DevicePath := ''/dev/sdc''\<rparr>) (sampleWorld [])
      = Returned (sampleDrive\<lparr>DevicePath := ''/dev/sdc''\<rparr>) (sampleWorld [])
   \<and> CheckLUKS (sampleProgram None) [''/dev/sdb'' \<mapsto> ''abc'']
        (sampleDrive\<lparr>MappedDevicePath := ''/dev/mapper/abc''\<rparr>) (sampleWorld [])
      = Returned (sampleDrive\<lparr>MappedDevicePath := ''/dev/mapper/abc''\<rparr>) (sampleWorld [])
   \<and> CheckLUKS (sampleProgram None) [''/dev/sdb'' \<mapsto> ''abc''] sampleDrive (sampleWorld [])
      = Returned (sampleDrive\<lparr>MappedDevicePath := ''/dev/mapper/abc'', StartedOutEmpty := False\<rparr>)
          ((sampleWorld [])\<lparr>logged :=
             [\<lparr>level = LogInfo, format = ''discovered %s to be mapped to %s already'',
               args = [ArgS ''/dev/sdb'', ArgS ''/dev/mapper/abc'']\<rparr>]\<rparr>)
   \<and> CheckLUKS (sampleProgram None) [''/dev/sdb'' \<mapsto> ''abc'']
        (sampleDrive\<lparr>MappedDevicePath := ''/dev/mapper/other''\<rparr>) (sampleWorld [])
      = Returned (sampleDrive\<lparr>MappedDevicePath := ''/dev/mapper/other'', Broken := True\<rparr>)
          ((sampleWorld [])\<lparr>logged :=
             [\<lparr>level = LogError,
               format = ''LUKS container in %s should be open at %s, but is actually open at %s'',
               args = [ArgS ''/dev/sdb'', ArgS ''/dev/mapper/other'', ArgS ''/dev/mapper/abc'']\<rparr>]\<rparr>)"
proof -
  let ?w0 = "sampleWorld [(''abc\<newline>'', True), (''  device:  /dev/sdb\<newline>'', True)]"
  let ?m = "[''/dev/sdb'' \<mapsto> ''abc'']"
  let ?w1 = "?w0\<lparr>issued := [\<lparr>argv = [''dmsetup'', ''ls'', ''--target=crypt''], stdin = [], skiplog = False\<rparr>,
                        \<lparr>argv = [''cryptsetup'', ''status'', ''abc''], stdin = [], skiplog = False\<rparr>]\<rparr>"
  have scan: "ScanLUKSMappings ?w0 = Returned ?m ?w1"
    by (simp add: ScanLUKSMappings_def sampleWorld_def Command_Run_def andThen_def TrimSpace_def
          TrimRightSpace_def DecodeLastRuneInString_def IsSpace_def byte_def Fields_def
          getBackingDevicePath_def backingDeviceRx_FindStringSubmatch_def
          rxMatchAt_def rxSpace_def Let_def)
  note cases = CheckLUKS_five_cases [OF scan, where P = "sampleProgram None" and w = "sampleWorld []"]
  show ?thesis
    using scan
      cases [of "sampleDrive\<lparr>DevicePath := ''/dev/sdc'', MappedDevicePath := ''/dev/mapper/xyz''\<rparr>" "''abc''"]
      cases [of "sampleDrive\<lparr>DevicePath := ''/dev/sdc''\<rparr>" "''abc''"]
      cases [of "sampleDrive\<lparr>MappedDevicePath := ''/dev/mapper/abc''\<rparr>" "''abc''"]
      cases [of sampleDrive "''abc''"]
      cases [of "sampleDrive\<lparr>MappedDevicePath := ''/dev/mapper/other''\<rparr>" "''abc''"]
    by (simp add: sampleDrive_def sampleProgram_def sampleWorld_def)
qed

text \<open>
  Claim C10. The \<open>Broken\<close> flag does not exempt a drive from \<open>CheckLUKS\<close>: for a
  drive that is flagged broken, has an active mapping \<open>n\<close> in the kernel and records no
  mapped path, \<open>CheckLUKS\<close> still sets \<open>MappedDevicePath\<close> to \<open>/dev/mapper/n\<close> and clears
  \<open>StartedOutEmpty\<close>; \<open>OpenLUKS\<close> and \<open>FormatLUKSIfRequired\<close> leave the same drive and
  the surroundings untouched.
\<close>

theorem CheckLUKS_ignores_Broken:
  assumes "Broken d" and "activeMappings (DevicePath d) = Some n" and "n \<noteq> []"
      and "MappedDevicePath d = []"
  shows "(\<exists>w'. CheckLUKS P activeMappings d w =
            Returned (d\<lparr>MappedDevicePath := ''/dev/mapper/'' @ n, StartedOutEmpty := False\<rparr>) w')
         \<and> OpenLUKS P Config d w = Returned d w
         \<and> FormatLUKSIfRequired P Config d w = Returned d w"
  using assms
  by (simp add: CheckLUKS_def lookup_def Let_def andThen_simps Log_simps OpenLUKS_def
        FormatLUKSIfRequired_def del: append.simps)

theorem CheckLUKS_ignores_Broken_witness:
  "Broken (sampleDrive\<lparr>Broken := True\<rparr>)
   \<and> [''/dev/sdb'' \<mapsto> ''abc''] (DevicePath (sampleDrive\<lparr>Broken := True\<rparr>)) = Some ''abc''
   \<and> MappedDevicePath (sampleDrive\<lparr>Broken := True\<rparr>) = []
   \<and> (\<exists>w'. CheckLUKS (sampleProgram None) [''/dev/sdb'' \<mapsto> ''abc'']
               (sampleDrive\<lparr>Broken := True\<rparr>) (sampleWorld [])
             = Returned (sampleDrive\<lparr>Broken := True, MappedDevicePath := ''/dev/mapper/abc'',
                                      StartedOutEmpty := False\<rparr>) w')
   \<and> OpenLUKS (sampleProgram None) (sampleConfig [''secret'']) (sampleDrive\<lparr>Broken := True\<rparr>)
        (sampleWorld []) = Returned (sampleDrive\<lparr>Broken := True\<rparr>) (sampleWorld [])
   \<and> FormatLUKSIfRequired (sampleProgram None) (sampleConfig [''secret''])
        (sampleDrive\<lparr>Broken := True\<rparr>) (sampleWorld [])
      = Returned (sampleDrive\<lparr>Broken := True\<rparr>) (sampleWorld [])"
  using CheckLUKS_ignores_Broken [of "sampleDrive\<lparr>Broken := True\<rparr>" "[''/dev/sdb'' \<mapsto> ''abc'']"
          "''abc''" "sampleProgram None" "sampleWorld []" "sampleConfig [''secret'']"]
  by (simp add: sampleDrive_def)

section \<open>OpenLUKS\<close>

text \<open>
  Claim C2, as the code has it. \<open>OpenLUKS\<close> returns at once, with the drive and the
  surroundings untouched, when the drive is broken or already mapped. When \<open>Classify\<close>
  fails or determines a type other than LUKS, \<open>OpenLUKS\<close> adds nothing to what
  \<open>Classify\<close> did: it returns the drive and the surroundings exactly as \<open>Classify\<close>
  left them (so no command to open a container is started), which includes the type
  that \<open>Classify\<close> has recorded in the drive. When some configured key is accepted,
  \<open>MappedDevicePath\<close> becomes \<open>/dev/mapper/\<close> followed by the mapper name and \<open>Type\<close>
  is reset to \<open>NotScanned\<close>. When every configured key is rejected, the log grows by one
  debug line per key and exactly one entry of level Error, and \<open>MarkAsBroken\<close> runs on
  the drive.
\<close>

theorem OpenLUKS_contract:
  "(Broken d \<or> MappedDevicePath d \<noteq> [] \<longrightarrow> OpenLUKS P Config d w = Returned d w)
   \<and> (\<not> Broken d \<and> MappedDevicePath d = [] \<and> Classify P d w = Returned (ok, d1) w1
        \<and> (\<not> ok \<or> Type d1 \<noteq> DeviceTypeLUKS) \<longrightarrow>
        OpenLUKS P Config d w = Returned d1 w1)
   \<and> (\<not> Broken d \<and> MappedDevicePath d = [] \<and> Classify P d w = Returned (True, d1) w1
        \<and> Type d1 = DeviceTypeLUKS \<and> anyAccepted (accepted w1) (length (Keys Config)) \<longrightarrow>
        (\<exists>w'. OpenLUKS P Config d w =
           Returned (d1\<lparr>MappedDevicePath := ''/dev/mapper/'' @ Name (TemporaryMount d1),
                       Type := DeviceTypeNotScanned\<rparr>) w'))
   \<and> (\<not> Broken d \<and> MappedDevicePath d = [] \<and> Classify P d w = Returned (True, d1) w1
        \<and> Type d1 = DeviceTypeLUKS \<and> \<not> anyAccepted (accepted w1) (length (Keys Config)) \<longrightarrow>
        (\<exists>w2. OpenLUKS P Config d w = MarkAsBroken P d1 w2
           \<and> logged w2 = logged w1 @
                map (tryingEntry (DevicePath d1) (Name (TemporaryMount d1)))
                  [0..<length (Keys Config)] @ [noKeyAcceptedEntry]
           \<and> filter (\<lambda>e. level e = LogError) (drop (length (logged w1)) (logged w2))
                = [noKeyAcceptedEntry]))"
proof -
  have noerr: "filter (\<lambda>e. level e = LogError) (map (tryingEntry dev mapper) xs) = []" for dev mapper xs
    by (induction xs) (simp_all add: tryingEntry_def)
  have "\<exists>w2. OpenLUKS P Config d w = MarkAsBroken P d1 w2
           \<and> logged w2 = logged w1 @
                map (tryingEntry (DevicePath d1) (Name (TemporaryMount d1)))
                  [0..<length (Keys Config)] @ [noKeyAcceptedEntry]
           \<and> filter (\<lambda>e. level e = LogError) (drop (length (logged w1)) (logged w2))
                = [noKeyAcceptedEntry]"
    if "\<not> Broken d" "MappedDevicePath d = []" "Classify P d w = Returned (True, d1) w1"
       "Type d1 = DeviceTypeLUKS" "\<not> anyAccepted (accepted w1) (length (Keys Config))"
  proof -
    let ?w2 = "w1\<lparr>issued := issued w1 @
                    map (openInvocation (DevicePath d1) (Name (TemporaryMount d1))) (Keys Config),
                  logged := logged w1 @
                    map (tryingEntry (DevicePath d1) (Name (TemporaryMount d1)))
                      [0..<length (Keys Config)] @ [noKeyAcceptedEntry]\<rparr>"
    have "OpenLUKS P Config d w = MarkAsBroken P d1 ?w2"
      using that by (simp add: OpenLUKS_run)
    moreover have "filter (\<lambda>e. level e = LogError) (drop (length (logged w1)) (logged ?w2))
                = [noKeyAcceptedEntry]"
      by (simp add: noerr noKeyAcceptedEntry_def)
    ultimately show ?thesis
      by (intro exI [of _ ?w2]) simp
  qed
  moreover have "\<not> Broken d \<Longrightarrow> MappedDevicePath d = [] \<Longrightarrow> Classify P d w = Returned (True, d1) w1
        \<Longrightarrow> Type d1 = DeviceTypeLUKS \<Longrightarrow> anyAccepted (accepted w1) (length (Keys Config)) \<Longrightarrow>
        (\<exists>w'. OpenLUKS P Config d w =
           Returned (d1\<lparr>MappedDevicePath := ''/dev/mapper/'' @ Name (TemporaryMount d1),
                       Type := DeviceTypeNotScanned\<rparr>) w')"
    by (simp add: OpenLUKS_run)
  ultimately show ?thesis
    using OpenLUKS_skips(1) [of d P Config w] OpenLUKS_skips(2) [of d P w ok d1 w1 Config]
    by blast
qed


theorem OpenLUKS_contract_witness:
  "OpenLUKS (sampleProgram None) (sampleConfig [''wrong'', ''right''])
      (sampleDrive\<lparr>Broken := True\<rparr>) (sampleWorld [])
     = Returned (sampleDrive\<lparr>Broken := True\<rparr>) (sampleWorld [])
   \<and> OpenLUKS (sampleProgram None) (sampleConfig [''wrong'', ''right'']) sampleDrive (sampleWorld [])
     = Returned sampleDrive (sampleWorld [])
   \<and> (\<exists>w'. OpenLUKS (sampleProgram (Some DeviceTypeLUKS)) (sampleConfig [''wrong'', ''right''])
               sampleDrive (sampleWorld [([], False), ([], True)])
             = Returned (sampleDrive\<lparr>MappedDevicePath := ''/dev/mapper/abc''\<rparr>) w')
   \<and> (\<exists>w2. OpenLUKS (sampleProgram (Some DeviceTypeLUKS)) (sampleConfig [''wrong'', ''right''])
               sampleDrive (sampleWorld [])
             = Returned (sampleDrive\<lparr>Type := DeviceTypeLUKS, Broken := True\<rparr>) w2
          \<and> logged w2 = [tryingEntry ''/dev/sdb'' ''abc'' 0, tryingEntry ''/dev/sdb'' ''abc'' 1,
                          noKeyAcceptedEntry]
          \<and> filter (\<lambda>e. level e = LogError) (logged w2) = [noKeyAcceptedEntry])"
  using OpenLUKS_contract [of "sampleDrive\<lparr>Broken := True\<rparr>" "sampleProgram None"
          "sampleConfig [''wrong'', ''right'']" "sampleWorld []" False sampleDrive "sampleWorld []"]
        OpenLUKS_contract [of sampleDrive "sampleProgram None"
          "sampleConfig [''wrong'', ''right'']" "sampleWorld []" False sampleDrive "sampleWorld []"]
        OpenLUKS_contract [of sampleDrive "sampleProgram (Some DeviceTypeLUKS)"
          "sampleConfig [''wrong'', ''right'']" "sampleWorld [([], False), ([], True)]" True
          "sampleDrive\<lparr>Type := DeviceTypeLUKS\<rparr>" "sampleWorld [([], False), ([], True)]"]
        OpenLUKS_contract [of sampleDrive "sampleProgram (Some DeviceTypeLUKS)"
          "sampleConfig [''wrong'', ''right'']" "sampleWorld []" True
          "sampleDrive\<lparr>Type := DeviceTypeLUKS\<rparr>" "sampleWorld []"]
  by (simp add: sample_defs anyAccepted_def accepted_def answer_def)

text \<open>
  The claim as it was stated says that the drive state is unchanged whenever the
  classified type is not LUKS. A drive that has not been scanned and holds a filesystem
  leaves \<open>OpenLUKS\<close> with the type \<open>Filesystem\<close> recorded in it.
\<close>

theorem OpenLUKS_noop_counterexample:
  "\<not> Broken sampleDrive \<and> MappedDevicePath sampleDrive = []
   \<and> Classify (sampleProgram (Some DeviceTypeFilesystem)) sampleDrive (sampleWorld [])
       = Returned (True, sampleDrive\<lparr>Type := DeviceTypeFilesystem\<rparr>) (sampleWorld [])
   \<and> Type (sampleDrive\<lparr>Type := DeviceTypeFilesystem\<rparr>) \<noteq> DeviceTypeLUKS
   \<and> OpenLUKS (sampleProgram (Some DeviceTypeFilesystem)) (sampleConfig [''secret''])
        sampleDrive (sampleWorld [])
       = Returned (sampleDrive\<lparr>Type := DeviceTypeFilesystem\<rparr>) (sampleWorld [])
   \<and> sampleDrive\<lparr>Type := DeviceTypeFilesystem\<rparr> \<noteq> sampleDrive"
  by (simp add: OpenLUKS_def sampleProgram_def sampleDrive_def andThen_simps)


section \<open>Key precedence\<close>

text \<open>
  Claim C3. With a non-empty list of keys, on a drive that passes the guards: when the
  \<open>j\<close>-th attempt is the first that succeeds, \<open>OpenLUKS\<close> has started exactly
  \<open>j + 1\<close> commands to open the container, the \<open>i\<close>-th with the \<open>i\<close>-th key of the
  list on its input, and none after the accepted one; when no attempt succeeds it has
  tried every key once, in list order. \<open>FormatLUKSIfRequired\<close>, when it formats, starts
  one format command, with the first key of the list on its input.
\<close>

theorem key_precedence:
  assumes "Keys Config \<noteq> []" and "\<not> Broken d" and "MappedDevicePath d = []"
      and "Classify P d w = Returned (True, d1) w1"
  shows
    "(Type d1 = DeviceTypeLUKS \<and> j < length (Keys Config) \<and> accepted w1 j
        \<and> (\<forall>i<j. \<not> accepted w1 i) \<longrightarrow>
        (\<exists>d' w2. OpenLUKS P Config d w = Returned d' w2
           \<and> issued w2 = issued w1 @
                map (openInvocation (DevicePath d1) (Name (TemporaryMount d1)))
                  (take (Suc j) (Keys Config))))
     \<and> (Type d1 = DeviceTypeLUKS \<and> (\<forall>i<length (Keys Config). \<not> accepted w1 i) \<longrightarrow>
        (\<exists>w2. OpenLUKS P Config d w = MarkAsBroken P d1 w2
           \<and> issued w2 = issued w1 @
                map (openInvocation (DevicePath d1) (Name (TemporaryMount d1))) (Keys Config)))
     \<and> (Type d1 = DeviceTypeUnknown \<longrightarrow>
        (\<exists>w3. issued w3 = issued w1 @
                  [\<lparr>argv = [''cryptsetup'', ''luksFormat'', DevicePath d1],
                    stdin = Secret (hd (Keys Config)) @ ''\<newline>'', skiplog = False\<rparr>]
           \<and> (if accepted w1 0
                then FormatLUKSIfRequired P Config d w = Returned (d1\<lparr>Type := DeviceTypeLUKS\<rparr>) w3
                else FormatLUKSIfRequired P Config d w = MarkAsBroken P d1 w3)))"
proof (intro conjI impI)
  assume a: "Type d1 = DeviceTypeLUKS \<and> j < length (Keys Config) \<and> accepted w1 j
        \<and> (\<forall>i<j. \<not> accepted w1 i)"
  then have any: "anyAccepted (accepted w1) (length (Keys Config))"
    by (auto simp: anyAccepted_iff)
  have m: "attemptsMade (accepted w1) (length (Keys Config)) = Suc j"
    using a by (intro attemptsMade_first) auto
  show "\<exists>d' w2. OpenLUKS P Config d w = Returned d' w2
           \<and> issued w2 = issued w1 @
                map (openInvocation (DevicePath d1) (Name (TemporaryMount d1)))
                  (take (Suc j) (Keys Config))"
    using a any m assms by (simp add: OpenLUKS_run)
next
  assume a: "Type d1 = DeviceTypeLUKS \<and> (\<forall>i<length (Keys Config). \<not> accepted w1 i)"
  then have none: "\<not> anyAccepted (accepted w1) (length (Keys Config))"
    by (auto simp: anyAccepted_iff)
  let ?w2 = "w1\<lparr>issued := issued w1 @
                    map (openInvocation (DevicePath d1) (Name (TemporaryMount d1))) (Keys Config),
                  logged := logged w1 @
                    map (tryingEntry (DevicePath d1) (Name (TemporaryMount d1)))
                      [0..<length (Keys Config)] @ [noKeyAcceptedEntry]\<rparr>"
  have "OpenLUKS P Config d w = MarkAsBroken P d1 ?w2"
    using a none assms by (simp add: OpenLUKS_run)
  then show "\<exists>w2. OpenLUKS P Config d w = MarkAsBroken P d1 w2
           \<and> issued w2 = issued w1 @
                map (openInvocation (DevicePath d1) (Name (TemporaryMount d1))) (Keys Config)"
    by (intro exI [of _ ?w2]) simp
next
  assume a: "Type d1 = DeviceTypeUnknown"
  obtain key others where k: "Keys Config = key # others"
    using assms(1) by (cases "Keys Config") auto
  note run = FormatLUKSIfRequired_run [OF assms(2,3) k assms(4) a]
  show "\<exists>w3. issued w3 = issued w1 @
                  [\<lparr>argv = [''cryptsetup'', ''luksFormat'', DevicePath d1],
                    stdin = Secret (hd (Keys Config)) @ ''\<newline>'', skiplog = False\<rparr>]
           \<and> (if accepted w1 0
                then FormatLUKSIfRequired P Config d w = Returned (d1\<lparr>Type := DeviceTypeLUKS\<rparr>) w3
                else FormatLUKSIfRequired P Config d w = MarkAsBroken P d1 w3)"
  proof (cases "accepted w1 0")
    case True
    then show ?thesis using run k by simp
  next
    case False
    let ?w3 = "w1\<lparr>issued := issued w1 @
                    [\<lparr>argv = [''cryptsetup'', ''luksFormat'', DevicePath d1],
                      stdin = Secret key @ ''\<newline>'', skiplog = False\<rparr>],
                  logged := logged w1 @
                    [\<lparr>level = LogDebug, format = ''running cryptsetup luksFormat %s with key 0...'',
                      args = [ArgS (DevicePath d1)]\<rparr>,
                     \<lparr>level = LogError, format = ''exec(%s) failed'',
                      args = [ArgS (Join [''cryptsetup'', ''luksFormat'', DevicePath d1] '' '')]\<rparr>]\<rparr>"
    have "FormatLUKSIfRequired P Config d w = MarkAsBroken P d1 ?w3"
      using run False by simp
    then show ?thesis
      using False k by (intro exI [of _ ?w3]) simp
  qed
qed


theorem key_precedence_witness:
  "Keys (sampleConfig [''wrong'', ''right'', ''spare'']) \<noteq> []
   \<and> accepted (sampleWorld [([], False), ([], True), ([], True)]) 1
   \<and> \<not> accepted (sampleWorld [([], False), ([], True), ([], True)]) 0
   \<and> (\<exists>d' w2. OpenLUKS (sampleProgram (Some DeviceTypeLUKS))
                  (sampleConfig [''wrong'', ''right'', ''spare'']) sampleDrive
                  (sampleWorld [([], False), ([], True), ([], True)]) = Returned d' w2
          \<and> issued w2 = [openInvocation ''/dev/sdb'' ''abc'' \<lparr>Secret = ''wrong''\<rparr>,
                          openInvocation ''/dev/sdb'' ''abc'' \<lparr>Secret = ''right''\<rparr>])
   \<and> (\<exists>w2. OpenLUKS (sampleProgram (Some DeviceTypeLUKS))
               (sampleConfig [''wrong'', ''right'', ''spare'']) sampleDrive (sampleWorld [])
             = Returned (sampleDrive\<lparr>Type := DeviceTypeLUKS, Broken := True\<rparr>) w2
          \<and> issued w2 = [openInvocation ''/dev/sdb'' ''abc'' \<lparr>Secret = ''wrong''\<rparr>,
                          openInvocation ''/dev/sdb'' ''abc'' \<lparr>Secret = ''right''\<rparr>,
                          openInvocation ''/dev/sdb'' ''abc'' \<lparr>Secret = ''spare''\<rparr>])
   \<and> (\<exists>w3. issued w3 = [\<lparr>argv = [''cryptsetup'', ''luksFormat'', ''/dev/sdb''],
                            stdin = ''wrong\<newline>'', skiplog = False\<rparr>]
          \<and> FormatLUKSIfRequired (sampleProgram (Some DeviceTypeUnknown))
               (sampleConfig [''wrong'', ''right'', ''spare'']) sampleDrive
               (sampleWorld [([], True)]) = Returned (sampleDrive\<lparr>Type := DeviceTypeLUKS\<rparr>) w3)"
  using key_precedence [of "sampleConfig [''wrong'', ''right'', ''spare'']" sampleDrive
          "sampleProgram (Some DeviceTypeLUKS)" "sampleWorld [([], False), ([], True), ([], True)]"
          "sampleDrive\<lparr>Type := DeviceTypeLUKS\<rparr>" "sampleWorld [([], False), ([], True), ([], True)]" 1]
        key_precedence [of "sampleConfig [''wrong'', ''right'', ''spare'']" sampleDrive
          "sampleProgram (Some DeviceTypeLUKS)" "sampleWorld []"
          "sampleDrive\<lparr>Type := DeviceTypeLUKS\<rparr>" "sampleWorld []" 0]
        key_precedence [of "sampleConfig [''wrong'', ''right'', ''spare'']" sampleDrive
          "sampleProgram (Some DeviceTypeUnknown)" "sampleWorld [([], True)]"
          "sampleDrive\<lparr>Type := DeviceTypeUnknown\<rparr>" "sampleWorld [([], True)]" 0]
  by (simp add: sample_defs accepted_def answer_def)

section \<open>FormatLUKSIfRequired\<close>

text \<open>
  Claim C4. \<open>FormatLUKSIfRequired\<close> returns at once, with nothing changed, when the
  drive is broken or already mapped. Otherwise, with no key configured it logs a fatal
  message and the process ends. Otherwise it calls \<open>Classify\<close>; unless that succeeds
  with the type \<open>Unknown\<close> it returns what \<open>Classify\<close> left, having started no command
  (so never over a filesystem or a LUKS header). With the type \<open>Unknown\<close> it starts one
  format command; when the command succeeds the type becomes \<open>LUKS\<close>, when it fails
  \<open>MarkAsBroken\<close> runs on the drive.
\<close>

theorem FormatLUKSIfRequired_contract:
  "(Broken d \<or> MappedDevicePath d \<noteq> [] \<longrightarrow> FormatLUKSIfRequired P Config d w = Returned d w)
   \<and> (\<not> Broken d \<and> MappedDevicePath d = [] \<and> Keys Config = [] \<longrightarrow>
        FormatLUKSIfRequired P Config d w =
          Terminated (w\<lparr>logged := logged w @
            [\<lparr>level = LogFatal,
              format = ''FormatLUKSIfRequired called on %s, but no keys specified!'',
              args = [ArgS (DevicePath d)]\<rparr>]\<rparr>))
   \<and> (\<not> Broken d \<and> MappedDevicePath d = [] \<and> Keys Config \<noteq> []
        \<and> Classify P d w = Returned (ok, d1) w1 \<and> (\<not> ok \<or> Type d1 \<noteq> DeviceTypeUnknown) \<longrightarrow>
        FormatLUKSIfRequired P Config d w = Returned d1 w1)
   \<and> (\<not> Broken d \<and> MappedDevicePath d = [] \<and> Keys Config \<noteq> []
        \<and> Classify P d w = Returned (True, d1) w1 \<and> Type d1 = DeviceTypeUnknown \<longrightarrow>
        (\<exists>w3. issued w3 = issued w1 @
                  [\<lparr>argv = [''cryptsetup'', ''luksFormat'', DevicePath d1],
                    stdin = Secret (hd (Keys Config)) @ ''\<newline>'', skiplog = False\<rparr>]
           \<and> (if accepted w1 0
                then FormatLUKSIfRequired P Config d w = Returned (d1\<lparr>Type := DeviceTypeLUKS\<rparr>) w3
                else FormatLUKSIfRequired P Config d w = MarkAsBroken P d1 w3)))"
proof -
  have last: "\<exists>w3. issued w3 = issued w1 @
                  [\<lparr>argv = [''cryptsetup'', ''luksFormat'', DevicePath d1],
                    stdin = Secret (hd (Keys Config)) @ ''\<newline>'', skiplog = False\<rparr>]
           \<and> (if accepted w1 0
                then FormatLUKSIfRequired P Config d w = Returned (d1\<lparr>Type := DeviceTypeLUKS\<rparr>) w3
                else FormatLUKSIfRequired P Config d w = MarkAsBroken P d1 w3)"
    if nb: "\<not> Broken d" and um: "MappedDevicePath d = []" and ks: "Keys Config \<noteq> []"
      and cl: "Classify P d w = Returned (True, d1) w1" and ty: "Type d1 = DeviceTypeUnknown"
  proof -
    obtain key others where k: "Keys Config = key # others"
      using ks by (cases "Keys Config") auto
    note run = FormatLUKSIfRequired_run [OF nb um k cl ty]
    show ?thesis
    proof (cases "accepted w1 0")
      case True
      then show ?thesis using run k by simp
    next
      case False
      let ?w3 = "w1\<lparr>issued := issued w1 @
                      [\<lparr>argv = [''cryptsetup'', ''luksFormat'', DevicePath d1],
                        stdin = Secret key @ ''\<newline>'', skiplog = False\<rparr>],
                    logged := logged w1 @
                      [\<lparr>level = LogDebug, format = ''running cryptsetup luksFormat %s with key 0...'',
                        args = [ArgS (DevicePath d1)]\<rparr>,
                       \<lparr>level = LogError, format = ''exec(%s) failed'',
                        args = [ArgS (Join [''cryptsetup'', ''luksFormat'', DevicePath d1] '' '')]\<rparr>]\<rparr>"
      have "FormatLUKSIfRequired P Config d w = MarkAsBroken P d1 ?w3"
        using run False by simp
      then show ?thesis
        using False k by (intro exI [of _ ?w3]) simp
    qed
  qed
  show ?thesis
    using FormatLUKSIfRequired_skips(1) [of d P Config w]
      FormatLUKSIfRequired_skips(2) [of d Config P w]
      FormatLUKSIfRequired_skips(3) [of d Config P w ok d1 w1]
      last
    by blast
qed

theorem FormatLUKSIfRequired_contract_witness:
  "FormatLUKSIfRequired (sampleProgram None) (sampleConfig [''first''])
      (sampleDrive\<lparr>MappedDevicePath := ''/dev/mapper/abc''\<rparr>) (sampleWorld [])
     = Returned (sampleDrive\<lparr>MappedDevicePath := ''/dev/mapper/abc''\<rparr>) (sampleWorld [])
   \<and> FormatLUKSIfRequired (sampleProgram None) (sampleConfig []) sampleDrive (sampleWorld [])
     = Terminated ((sampleWorld [])\<lparr>logged :=
         [\<lparr>level = LogFatal,
           format = ''FormatLUKSIfRequired called on %s, but no keys specified!'',
           args = [ArgS ''/dev/sdb'']\<rparr>]\<rparr>)
   \<and> FormatLUKSIfRequired (sampleProgram (Some DeviceTypeFilesystem)) (sampleConfig [''first''])
        sampleDrive (sampleWorld [([], True)])
     = Returned (sampleDrive\<lparr>Type := DeviceTypeFilesystem\<rparr>) (sampleWorld [([], True)])
   \<and> (\<exists>w3. issued w3 = [\<lparr>argv = [''cryptsetup'', ''luksFormat'', ''/dev/sdb''],
                            stdin = ''first\<newline>'', skiplog = False\<rparr>]
          \<and> FormatLUKSIfRequired (sampleProgram (Some DeviceTypeUnknown)) (sampleConfig [''first''])
               sampleDrive (sampleWorld [([], True)])
             = Returned (sampleDrive\<lparr>Type := DeviceTypeLUKS\<rparr>) w3)
   \<and> (\<exists>w3. issued w3 = [\<lparr>argv = [''cryptsetup'', ''luksFormat'', ''/dev/sdb''],
                            stdin = ''first\<newline>'', skiplog = False\<rparr>]
          \<and> FormatLUKSIfRequired (sampleProgram (Some DeviceTypeUnknown)) (sampleConfig [''first''])
               sampleDrive (sampleWorld [])
             = Returned (sampleDrive\<lparr>Type := DeviceTypeUnknown, Broken := True\<rparr>) w3)"
  using FormatLUKSIfRequired_contract [of "sampleDrive\<lparr>MappedDevicePath := ''/dev/mapper/abc''\<rparr>"
          "sampleProgram None" "sampleConfig [''first'']" "sampleWorld []"
          False sampleDrive "sampleWorld []"]
        FormatLUKSIfRequired_contract [of sampleDrive "sampleProgram None" "sampleConfig []"
          "sampleWorld []" False sampleDrive "sampleWorld []"]
        FormatLUKSIfRequired_contract [of sampleDrive "sampleProgram (Some DeviceTypeFilesystem)"
          "sampleConfig [''first'']" "sampleWorld [([], True)]"
          True "sampleDrive\<lparr>Type := DeviceTypeFilesystem\<rparr>" "sampleWorld [([], True)]"]
        FormatLUKSIfRequired_contract [of sampleDrive "sampleProgram (Some DeviceTypeUnknown)"
          "sampleConfig [''first'']" "sampleWorld [([], True)]"
          True "sampleDrive\<lparr>Type := DeviceTypeUnknown\<rparr>" "sampleWorld [([], True)]"]
        FormatLUKSIfRequired_contract [of sampleDrive "sampleProgram (Some DeviceTypeUnknown)"
          "sampleConfig [''first'']" "sampleWorld []"
          True "sampleDrive\<lparr>Type := DeviceTypeUnknown\<rparr>" "sampleWorld []"]
  by (simp add: sample_defs accepted_def answer_def)

section \<open>The aggregate error of OpenLUKS\<close>

text \<open>
  Claim C6 says that the error which \<open>OpenLUKS\<close> logs when every configured key is
  rejected names the device path of the drive. The log call in the source has the two
  verbs \<^verbatim>\<open>%s %s\<close> in its format string and passes no argument for them. The run
  below, on the drive \<open>/dev/sdb\<close> with one key that is rejected, shows the entry: its
  argument list is empty, and neither the device path nor the mapper name is part of it.
\<close>

theorem OpenLUKS_aggregate_error_omits_device:
  "OpenLUKS (sampleProgram (Some DeviceTypeLUKS)) (sampleConfig [''wrong'']) sampleDrive
      (sampleWorld [([], False)])
     = Returned (sampleDrive\<lparr>Type := DeviceTypeLUKS, Broken := True\<rparr>)
         ((sampleWorld [([], False)])
            \<lparr>issued := [\<lparr>argv = [''cryptsetup'', ''luksOpen'', ''/dev/sdb'', ''abc''],
                          stdin = ''wrong\<newline>'', skiplog = True\<rparr>],
             logged := [\<lparr>level = LogDebug, format = ''trying to luksOpen %s as %s with key %d...'',
                          args = [ArgS ''/dev/sdb'', ArgS ''abc'', ArgI 0]\<rparr>,
                        \<lparr>level = LogError,
                          format = ''exec(cryptsetup luksOpen %s %s) failed: none of the configured keys was accepted'',
                          args = []\<rparr>]\<rparr>)"
  by (simp add: OpenLUKS_def sample_defs andThen_simps Log_simps Command_Run_def Let_def)

section \<open>Key material\<close>

text \<open>
  Claim C9. Take two runs of \<open>OpenLUKS\<close>, or of \<open>FormatLUKSIfRequired\<close>, on the same
  drive against the same answers of the operating system, with key lists that differ
  only in the secrets (the lists have the same length), in a program whose
  \<open>MarkAsBroken\<close> does not read the piped input of earlier commands. Then the two runs
  agree on everything but the piped input of the commands: the resulting drive, the
  log, and the commands with their argument vectors are the same. So the secrets reach
  the commands on their piped input only. Moreover every command that \<open>OpenLUKS\<close>
  itself starts is \<open>cryptsetup luksOpen\<close> with the device path and the mapper name as
  its only further arguments, and is run with \<open>SkipLog\<close> set.
\<close>

theorem keys_only_on_stdin:
  assumes "length (Keys Config1) = length (Keys Config2)" and "keyBlind P"
  shows "redactResult (OpenLUKS P Config1 d w) = redactResult (OpenLUKS P Config2 d w)
     \<and> redactResult (FormatLUKSIfRequired P Config1 d w)
         = redactResult (FormatLUKSIfRequired P Config2 d w)
     \<and> (\<not> Broken d \<and> MappedDevicePath d = [] \<and> Classify P d w = Returned (True, d1) w1
          \<and> Type d1 = DeviceTypeLUKS \<longrightarrow>
         (\<exists>w2 cmds.
            (OpenLUKS P Config1 d w = MarkAsBroken P d1 w2
               \<or> (\<exists>d'. OpenLUKS P Config1 d w = Returned d' w2))
            \<and> issued w2 = issued w1 @ cmds
            \<and> list_all (\<lambda>c. argv c = [''cryptsetup'', ''luksOpen'', DevicePath d1,
                                         Name (TemporaryMount d1)] \<and> skiplog c) cmds))"
proof (intro conjI impI)
  show "redactResult (OpenLUKS P Config1 d w) = redactResult (OpenLUKS P Config2 d w)"
    using assms by (rule OpenLUKS_key_independent)
  show "redactResult (FormatLUKSIfRequired P Config1 d w)
         = redactResult (FormatLUKSIfRequired P Config2 d w)"
    using assms by (rule FormatLUKSIfRequired_key_independent)
next
  assume a: "\<not> Broken d \<and> MappedDevicePath d = [] \<and> Classify P d w = Returned (True, d1) w1
          \<and> Type d1 = DeviceTypeLUKS"
  let ?open = "openInvocation (DevicePath d1) (Name (TemporaryMount d1))"
  have all: "list_all (\<lambda>c. argv c = [''cryptsetup'', ''luksOpen'', DevicePath d1,
                                         Name (TemporaryMount d1)] \<and> skiplog c) (map ?open ks)" for ks
    by (simp add: list_all_iff openInvocation_def)
  from a have run: "OpenLUKS P Config1 d w =
     (if anyAccepted (accepted w1) (length (Keys Config1))
      then Returned (d1\<lparr>MappedDevicePath := ''/dev/mapper/'' @ Name (TemporaryMount d1),
                        Type := DeviceTypeNotScanned\<rparr>)
             (w1\<lparr>issued := issued w1 @
                    map ?open (take (attemptsMade (accepted w1) (length (Keys Config1))) (Keys Config1)),
                  logged := logged w1 @
                    map (tryingEntry (DevicePath d1) (Name (TemporaryMount d1)))
                      [0..<attemptsMade (accepted w1) (length (Keys Config1))] @
                    [\<lparr>level = LogInfo, format = ''LUKS container at %s opened as %s'',
                      args = [ArgS (DevicePath d1),
                              ArgS (''/dev/mapper/'' @ Name (TemporaryMount d1))]\<rparr>]\<rparr>)
      else MarkAsBroken P d1
             (w1\<lparr>issued := issued w1 @ map ?open (Keys Config1),
                  logged := logged w1 @
                    map (tryingEntry (DevicePath d1) (Name (TemporaryMount d1)))
                      [0..<length (Keys Config1)] @ [noKeyAcceptedEntry]\<rparr>))"
    by (intro OpenLUKS_run) auto
  show "\<exists>w2 cmds.
            (OpenLUKS P Config1 d w = MarkAsBroken P d1 w2
               \<or> (\<exists>d'. OpenLUKS P Config1 d w = Returned d' w2))
            \<and> issued w2 = issued w1 @ cmds
            \<and> list_all (\<lambda>c. argv c = [''cryptsetup'', ''luksOpen'', DevicePath d1,
                                         Name (TemporaryMount d1)] \<and> skiplog c) cmds"
  proof (cases "anyAccepted (accepted w1) (length (Keys Config1))")
    case True
    let ?cmds = "map ?open (take (attemptsMade (accepted w1) (length (Keys Config1))) (Keys Config1))"
    let ?w2 = "w1\<lparr>issued := issued w1 @ ?cmds,
                  logged := logged w1 @
                    map (tryingEntry (DevicePath d1) (Name (TemporaryMount d1)))
                      [0..<attemptsMade (accepted w1) (length (Keys Config1))] @
                    [\<lparr>level = LogInfo, format = ''LUKS container at %s opened as %s'',
                      args = [ArgS (DevicePath d1),
                              ArgS (''/dev/mapper/'' @ Name (TemporaryMount d1))]\<rparr>]\<rparr>"
    have "\<exists>d'. OpenLUKS P Config1 d w = Returned d' ?w2"
      using run True by simp
    then show ?thesis
      using all [of "take (attemptsMade (accepted w1) (length (Keys Config1))) (Keys Config1)"]
      by (intro exI [of _ ?w2] exI [of _ ?cmds]) simp
  next
    case False
    let ?cmds = "map ?open (Keys Config1)"
    let ?w2 = "w1\<lparr>issued := issued w1 @ ?cmds,
                  logged := logged w1 @
                    map (tryingEntry (DevicePath d1) (Name (TemporaryMount d1)))
                      [0..<length (Keys Config1)] @ [noKeyAcceptedEntry]\<rparr>"
    have "OpenLUKS P Config1 d w = MarkAsBroken P d1 ?w2"
      using run False by simp
    then show ?thesis
      using all [of "Keys Config1"]
      by (intro exI [of _ ?w2] exI [of _ ?cmds]) simp
  qed
qed

lemma keyBlind_sampleProgram: "keyBlind (sampleProgram found)"
  by (simp add: keyBlind_def sampleProgram_def)

theorem keys_only_on_stdin_witness:
  "length (Keys (sampleConfig [''alpha''])) = length (Keys (sampleConfig [''bravo'']))
   \<and> keyBlind (sampleProgram (Some DeviceTypeLUKS))
   \<and> redactResult (OpenLUKS (sampleProgram (Some DeviceTypeLUKS)) (sampleConfig [''alpha''])
          sampleDrive (sampleWorld [([], True)]))
       = redactResult (OpenLUKS (sampleProgram (Some DeviceTypeLUKS)) (sampleConfig [''bravo''])
          sampleDrive (sampleWorld [([], True)]))
   \<and> redactResult (FormatLUKSIfRequired (sampleProgram (Some DeviceTypeUnknown))
          (sampleConfig [''alpha'']) sampleDrive (sampleWorld [([], True)]))
       = redactResult (FormatLUKSIfRequired (sampleProgram (Some DeviceTypeUnknown))
          (sampleConfig [''bravo'']) sampleDrive (sampleWorld [([], True)]))
   \<and> OpenLUKS (sampleProgram (Some DeviceTypeLUKS)) (sampleConfig [''alpha''])
          sampleDrive (sampleWorld [([], True)])
       = Returned (sampleDrive\<lparr>MappedDevicePath := ''/dev/mapper/abc''\<rparr>)
           ((sampleWorld [([], True)])
              \<lparr>issued := [\<lparr>argv = [''cryptsetup'', ''luksOpen'', ''/dev/sdb'', ''abc''],
                            stdin = ''alpha\<newline>'', skiplog = True\<rparr>],
               logged := [tryingEntry ''/dev/sdb'' ''abc'' 0,
                          \<lparr>level = LogInfo, format = ''LUKS container at %s opened as %s'',
                            args = [ArgS ''/dev/sdb'', ArgS ''/dev/mapper/abc'']\<rparr>]\<rparr>)"
  using keys_only_on_stdin [of "sampleConfig [''alpha'']" "sampleConfig [''bravo'']"
          "sampleProgram (Some DeviceTypeLUKS)" sampleDrive "sampleWorld [([], True)]"
          "sampleDrive\<lparr>Type := DeviceTypeLUKS\<rparr>" "sampleWorld [([], True)]"]
        keys_only_on_stdin [of "sampleConfig [''alpha'']" "sampleConfig [''bravo'']"
          "sampleProgram (Some DeviceTypeUnknown)" sampleDrive "sampleWorld [([], True)]"
          "sampleDrive\<lparr>Type := DeviceTypeLUKS\<rparr>" "sampleWorld [([], True)]"]
        keyBlind_sampleProgram
  by (simp add: sampleConfig_def OpenLUKS_def sampleProgram_def sampleDrive_def andThen_simps
        Log_simps Command_Run_def sampleWorld_def tryingEntry_def Let_def)

section \<open>ScanLUKSMappings\<close>

lemma ScanLUKSMappings_list_failed:
  "\<not> accepted w 0 \<Longrightarrow> is_Terminated (ScanLUKSMappings w)"
  by (simp add: ScanLUKSMappings_def Command_Run_def Let_def andThen_simps Log_simps
        accepted_def answer_def)

lemma ScanLUKSMappings_listed:
  "accepted w 0 \<Longrightarrow>
     ScanLUKSMappings w =
       (if TrimSpace (fst (answer w 0)) = ''No devices found''
        then Returned Map.empty (w\<lparr>issued := issued w @ [listInvocation]\<rparr>)
        else scanLines (Split (fst (answer w 0)) CHR ''\<newline>'') Map.empty
               (w\<lparr>issued := issued w @ [listInvocation]\<rparr>))"
  by (simp add: ScanLUKSMappings_def Command_Run_def Let_def andThen_simps
        accepted_def answer_def listInvocation_def)

text \<open>
  Claim C7, as the code has it. Both commands run in exit-on-error mode. When the list
  command succeeds with the sentinel answer \<open>No devices found\<close> (up to the white space
  around it that \<open>strings.TrimSpace\<close> removes, the white space of Unicode), the result
  is the empty map and no further command is started. Otherwise, when every status query
  succeeds and has a match of the pattern, \<open>ScanLUKSMappings\<close> has queried the status
  of every listed mapping name, in order, and returns the map that takes each reported
  backing device to its mapping name (a later name wins when two report the same device;
  with distinct devices every listed name is recorded). The process ends if and only if
  the list command fails, or the output is not the sentinel and, for some listed name,
  the status command fails or its output has no match of the pattern. A backing device
  that is extracted is the text after \<open>device:\<close> in the status output: the output has
  the form \<open>before ws1 device: ws2 p after\<close> with \<open>before\<close> empty or ending a line,
  \<open>ws1\<close> and \<open>ws2\<close> white space of the pattern and \<open>p\<close> a non-empty word.
\<close>

theorem ScanLUKSMappings_contract:
  "(accepted w 0 \<and> TrimSpace (fst (answer w 0)) = ''No devices found'' \<longrightarrow>
        ScanLUKSMappings w = Returned Map.empty (w\<lparr>issued := issued w @ [listInvocation]\<rparr>))
     \<and> (accepted w 0 \<and> TrimSpace (fst (answer w 0)) \<noteq> ''No devices found''
          \<and> (\<forall>i<length (mappingNames (fst (answer w 0))). backingOf w (Suc i) \<noteq> None) \<longrightarrow>
        ScanLUKSMappings w =
          Returned (Map.empty
                     (pathsOf (\<lambda>i. backingOf w (Suc i)) (length (mappingNames (fst (answer w 0))))
                      [\<mapsto>] mappingNames (fst (answer w 0))))
            (w\<lparr>issued := issued w @
                 listInvocation # map statusInvocation (mappingNames (fst (answer w 0)))\<rparr>)
        \<and> (distinct (pathsOf (\<lambda>i. backingOf w (Suc i)) (length (mappingNames (fst (answer w 0))))) \<longrightarrow>
             (\<forall>i<length (mappingNames (fst (answer w 0))).
                (Map.empty
                   (pathsOf (\<lambda>i. backingOf w (Suc i)) (length (mappingNames (fst (answer w 0))))
                    [\<mapsto>] mappingNames (fst (answer w 0))))
                  (pathsOf (\<lambda>i. backingOf w (Suc i)) (length (mappingNames (fst (answer w 0)))) ! i)
                = Some (mappingNames (fst (answer w 0)) ! i))))
     \<and> (is_Terminated (ScanLUKSMappings w) \<longleftrightarrow>
          (\<not> accepted w 0
           \<or> (TrimSpace (fst (answer w 0)) \<noteq> ''No devices found''
               \<and> (\<exists>i<length (mappingNames (fst (answer w 0))). backingOf w (Suc i) = None))))
     \<and> (backingOf w k = Some p \<longrightarrow>
          (\<exists>before ws1 ws2 after.
              fst (answer w k) = before @ ws1 @ ''device:'' @ ws2 @ p @ after
              \<and> (before = [] \<or> last before = CHR ''\<newline>'')
              \<and> list_all rxSpace ws1 \<and> list_all rxSpace ws2
              \<and> p \<noteq> [] \<and> list_all (\<lambda>c. \<not> rxSpace c) p))"
proof -
  let ?out = "fst (answer w 0)"
  let ?names = "mappingNames ?out"
  let ?w1 = "w\<lparr>issued := issued w @ [listInvocation]\<rparr>"
  let ?paths = "pathsOf (\<lambda>i. backingOf w (Suc i)) (length ?names)"
  have shift: "backingOf ?w1 = (\<lambda>i. backingOf w (Suc i))"
    by (rule ext) (rule backingOf_after_command)
  have sentinel: "ScanLUKSMappings w = Returned Map.empty ?w1"
    if "accepted w 0" "TrimSpace ?out = ''No devices found''"
    using that by (simp add: ScanLUKSMappings_listed)
  have found: "ScanLUKSMappings w =
      Returned (Map.empty(?paths [\<mapsto>] ?names))
        (w\<lparr>issued := issued w @ listInvocation # map statusInvocation ?names\<rparr>)"
    if "accepted w 0" "TrimSpace ?out \<noteq> ''No devices found''"
       "\<forall>i<length ?names. backingOf w (Suc i) \<noteq> None"
  proof -
    have "\<And>i. i < length (mappingNamesOf (Split ?out CHR ''\<newline>'')) \<Longrightarrow> backingOf ?w1 i \<noteq> None"
      using that(3) by (simp add: shift mappingNames_def)
    then have "scanLines (Split ?out CHR ''\<newline>'') Map.empty ?w1 =
        Returned (Map.empty(pathsOf (backingOf ?w1) (length (mappingNamesOf (Split ?out CHR ''\<newline>'')))
                    [\<mapsto>] mappingNamesOf (Split ?out CHR ''\<newline>'')))
          (?w1\<lparr>issued := issued ?w1 @ map statusInvocation (mappingNamesOf (Split ?out CHR ''\<newline>''))\<rparr>)"
      by (rule scanLines_all_found)
    then show ?thesis
      using that(1,2) by (simp add: ScanLUKSMappings_listed shift mappingNames_def)
  qed
  have each: "(Map.empty(?paths [\<mapsto>] ?names)) (?paths ! i) = Some (?names ! i)"
    if "distinct ?paths" "i < length ?names" for i
    using that by (intro map_upds_nth) (simp_all add: pathsOf_def)
  have fatal: "is_Terminated (ScanLUKSMappings w) \<longleftrightarrow>
          (\<not> accepted w 0
           \<or> (TrimSpace ?out \<noteq> ''No devices found''
               \<and> (\<exists>i<length ?names. backingOf w (Suc i) = None)))"
  proof (cases "accepted w 0")
    case False
    then show ?thesis using ScanLUKSMappings_list_failed by simp
  next
    case True
    show ?thesis
      using True scanLines_fatal_iff [of "Split ?out CHR ''\<newline>''" Map.empty ?w1]
      by (simp add: ScanLUKSMappings_listed shift mappingNames_def)
  qed
  have line: "\<exists>before ws1 ws2 after.
              fst (answer w k) = before @ ws1 @ ''device:'' @ ws2 @ p @ after
              \<and> (before = [] \<or> last before = CHR ''\<newline>'')
              \<and> list_all rxSpace ws1 \<and> list_all rxSpace ws2
              \<and> p \<noteq> [] \<and> list_all (\<lambda>c. \<not> rxSpace c) p"
    if "backingOf w k = Some p"
    using that by (intro FindStringSubmatch_device_line) (simp add: backingOf_def split: if_splits)
  show ?thesis
    using sentinel found each fatal line by blast
qed

lemmas scan_eval = sampleWorld_def answer_def accepted_def backingOf_def
  TrimSpace_def TrimRightSpace_def DecodeLastRuneInString_def IsSpace_def byte_def
  mappingNames_def mappingNamesOf_def Fields_def pathsOf_def
  backingDeviceRx_FindStringSubmatch_def rxMatchAt_def rxSpace_def
  listInvocation_def statusInvocation_def All_less_Suc2 Ex_less_Suc2 Let_def

theorem ScanLUKSMappings_contract_witness:
  "ScanLUKSMappings (sampleWorld [(''No devices found\<newline>'', True)])
       = Returned Map.empty
           ((sampleWorld [(''No devices found\<newline>'', True)])\<lparr>issued := [listInvocation]\<rparr>)
   \<and> ScanLUKSMappings (sampleWorld [(CHR 0xC2 # CHR 0xA0 # ''No devices found\<newline>'', True)])
       = Returned Map.empty
           ((sampleWorld [(CHR 0xC2 # CHR 0xA0 # ''No devices found\<newline>'', True)])
              \<lparr>issued := [listInvocation]\<rparr>)
   \<and> ScanLUKSMappings
        (sampleWorld [(''abc (253, 0)\<newline>xyz (253, 1)\<newline>'', True),
                      (''/dev/mapper/abc is active.\<newline>  type:    LUKS1\<newline>  device:  /dev/sdb\<newline>'', True),
                      (''  device:  /dev/sdc\<newline>'', True)])
       = Returned [''/dev/sdb'' \<mapsto> ''abc'', ''/dev/sdc'' \<mapsto> ''xyz'']
           ((sampleWorld [(''abc (253, 0)\<newline>xyz (253, 1)\<newline>'', True),
                      (''/dev/mapper/abc is active.\<newline>  type:    LUKS1\<newline>  device:  /dev/sdb\<newline>'', True),
                      (''  device:  /dev/sdc\<newline>'', True)])
              \<lparr>issued := [listInvocation, statusInvocation ''abc'', statusInvocation ''xyz'']\<rparr>)
   \<and> is_Terminated
        (ScanLUKSMappings (sampleWorld [(''abc (253, 0)\<newline>'', True), (''  type:    LUKS1\<newline>'', True)]))"
  using ScanLUKSMappings_contract [of "sampleWorld [(''No devices found\<newline>'', True)]"]
        ScanLUKSMappings_contract
          [of "sampleWorld [(CHR 0xC2 # CHR 0xA0 # ''No devices found\<newline>'', True)]"]
        ScanLUKSMappings_contract
          [of "sampleWorld [(''abc (253, 0)\<newline>xyz (253, 1)\<newline>'', True),
                      (''/dev/mapper/abc is active.\<newline>  type:    LUKS1\<newline>  device:  /dev/sdb\<newline>'', True),
                      (''  device:  /dev/sdc\<newline>'', True)]"]
        ScanLUKSMappings_contract
          [of "sampleWorld [(''abc (253, 0)\<newline>'', True), (''  type:    LUKS1\<newline>'', True)]"]
  by (simp add: scan_eval)

text \<open>
  The claim as it was stated says that the process ends only if a reported mapping name
  has status output without a \<open>device:\<close> line. When the list command itself fails, the
  process ends although no mapping name was reported at all.
\<close>

theorem ScanLUKSMappings_fatal_counterexample:
  "is_Terminated (ScanLUKSMappings (sampleWorld []))
   \<and> mappingNames (fst (answer (sampleWorld []) 0)) = []"
  by (simp add: ScanLUKSMappings_def Command_Run_def Let_def andThen_simps Log_simps
        sampleWorld_def answer_def mappingNames_def mappingNamesOf_def Fields_def)

section \<open>The run of main\<close>

lemma trace_append [simp]:
  "drives (xs @ ys) = drives xs @ drives ys"
  "mountCalls (xs @ ys) = mountCalls xs @ mountCalls ys"
  "mounted (xs @ ys) = mounted xs @ mounted ys"
  "scans (xs @ ys) = scans xs @ scans ys"
  "finalCalls (xs @ ys) = finalCalls xs @ finalCalls ys"
  "logOf (xs @ ys) = logOf xs @ logOf ys"
  by (simp_all add: drives_def mountCalls_def mounted_def scans_def finalCalls_def logOf_def)

lemma trace_Nil [simp]:
  "drives [] = []" "mountCalls [] = []" "mounted [] = []" "scans [] = []"
  "finalCalls [] = []" "logOf [] = []"
  by (simp_all add: drives_def mountCalls_def mounted_def scans_def finalCalls_def logOf_def)

lemma trace_Cons [simp]:
  "drives (e # es) = drivesArg e @ drives es"
  "mountCalls (e # es) = mountArg e @ mountCalls es"
  "mounted (e # es) = mountedArg e @ mounted es"
  "scans (e # es) = scanArg e @ scans es"
  "finalCalls (e # es) = finalArg e @ finalCalls es"
  "logOf (e # es) = logArg e @ logOf es"
  by (simp_all add: drives_def mountCalls_def mounted_def scans_def finalCalls_def logOf_def)

lemma trace_stage_logs [simp]:
  "drives (map StageLogEvent logs) = []"
  "mountCalls (map StageLogEvent logs) = []"
  "mounted (map StageLogEvent logs) = []"
  "scans (map StageLogEvent logs) = []"
  "finalCalls (map StageLogEvent logs) = []"
  "filter isScan (map StageLogEvent logs) = []"
  "filter isTouch (map StageLogEvent logs) = []"
  "\<not> list_ex stageFailed (map StageLogEvent logs)"
  "\<not> list_ex fatalReturned (map StageLogEvent logs)"
  "StageEndedEvent \<notin> StageLogEvent ` set logs"
  by (induction logs) auto

lemma paired_append: "paired xs \<Longrightarrow> paired (xs @ ys) = paired ys"
  by (induction xs rule: paired.induct) (auto split: option.splits list.splits)

lemma paired_stage_logs [simp]: "paired (map StageLogEvent logs @ xs) = paired xs"
  by (induction logs) auto

lemma call_result:
  "(\<exists>logs. call stage event s tr
             = Stop EndedByStage (tr @ map StageLogEvent logs @ [StageEndedEvent]))
   \<or> (\<exists>logs x s1. call stage event s tr
             = Continue (x, s1) (tr @ map StageLogEvent logs @ [event x]))"
  by (auto simp: call_def split: prod.splits option.splits)

lemma call_cases:
  obtains (ended) logs where
      "call stage event s tr = Stop EndedByStage (tr @ map StageLogEvent logs @ [StageEndedEvent])"
  | (returned) logs x s1 where
      "call stage event s tr = Continue (x, s1) (tr @ map StageLogEvent logs @ [event x])"
  using call_result [of stage event s tr] by blast

lemma mountLoop_trace:
  "\<exists>seg. paired seg \<and> \<not> list_ex fatalReturned seg \<and> filter isScan seg = []
      \<and> drives seg = [] \<and> scans seg = [] \<and> finalCalls seg = [] \<and> filter isTouch seg = []
      \<and> ((mountLoop S allMounts paths failed mountPaths s tr = Stop EndedByStage (tr @ seg)
            \<and> StageEndedEvent \<in> set seg)
         \<or> (\<exists>s'. mountLoop S allMounts paths failed mountPaths s tr
                    = Continue (failed \<or> list_ex stageFailed seg, mountPaths @ mounted seg, s')
                        (tr @ seg)
               \<and> StageEndedEvent \<notin> set seg
               \<and> mountCalls seg = map ((@) ''/'') paths))"
proof (induction paths arbitrary: failed mountPaths s tr)
  case Nil
  show ?case by (intro exI [of _ "[]"]) simp
next
  case (Cons drivePath rest)
  let ?path = "CHR ''/'' # drivePath"
  show ?case
  proof (cases rule: call_cases [of "MountDevice S ?path allMounts" "MountDeviceEvent ?path" s tr])
    case (ended logs)
    show ?thesis
      by (intro exI [of _ "map StageLogEvent logs @ [StageEndedEvent]"]) (simp add: ended)
  next
    case (returned logs x s1)
    show ?thesis
    proof (cases x)
      case (Inr mountPath)
      let ?pre = "map StageLogEvent logs @ [MountDeviceEvent ?path (Inr mountPath)]"
      obtain seg where seg:
        "paired seg" "\<not> list_ex fatalReturned seg" "filter isScan seg = []"
        "drives seg = []" "scans seg = []" "finalCalls seg = []" "filter isTouch seg = []"
        "(mountLoop S allMounts rest failed (mountPaths @ [mountPath]) s1 (tr @ ?pre)
            = Stop EndedByStage ((tr @ ?pre) @ seg) \<and> StageEndedEvent \<in> set seg)
         \<or> (\<exists>s'. mountLoop S allMounts rest failed (mountPaths @ [mountPath]) s1 (tr @ ?pre)
                    = Continue (failed \<or> list_ex stageFailed seg,
                                (mountPaths @ [mountPath]) @ mounted seg, s')
                        ((tr @ ?pre) @ seg)
               \<and> StageEndedEvent \<notin> set seg
               \<and> mountCalls seg = map ((@) ''/'') rest)"
        using Cons.IH [of failed "mountPaths @ [mountPath]" s1 "tr @ ?pre"] by blast
      show ?thesis
        using seg by (intro exI [of _ "?pre @ seg"]) (auto simp: returned Inr)
    next
      case (Inl err)
      let ?pre = "map StageLogEvent logs @ [MountDeviceEvent ?path (Inl err), logEvent LogError err []]"
      obtain seg where seg:
        "paired seg" "\<not> list_ex fatalReturned seg" "filter isScan seg = []"
        "drives seg = []" "scans seg = []" "finalCalls seg = []" "filter isTouch seg = []"
        "(mountLoop S allMounts rest True mountPaths s1 (tr @ ?pre)
            = Stop EndedByStage ((tr @ ?pre) @ seg) \<and> StageEndedEvent \<in> set seg)
         \<or> (\<exists>s'. mountLoop S allMounts rest True mountPaths s1 (tr @ ?pre)
                    = Continue (True \<or> list_ex stageFailed seg, mountPaths @ mounted seg, s')
                        ((tr @ ?pre) @ seg)
               \<and> StageEndedEvent \<notin> set seg
               \<and> mountCalls seg = map ((@) ''/'') rest)"
        using Cons.IH [of True mountPaths s1 "tr @ ?pre"] by blast
      show ?thesis
        using seg by (intro exI [of _ "?pre @ seg"]) (auto simp: returned Inl logEvent_def)
    qed
  qed
qed

lemma finalLoop_trace:
  "\<exists>seg. paired seg \<and> \<not> list_ex fatalReturned seg \<and> filter isScan seg = []
      \<and> drives seg = [] \<and> mountCalls seg = [] \<and> mounted seg = [] \<and> scans seg = []
      \<and> filter isTouch seg = []
      \<and> ((finalLoop S allMounts entries failed s tr = Stop EndedByStage (tr @ seg)
            \<and> StageEndedEvent \<in> set seg)
         \<or> (\<exists>s'. finalLoop S allMounts entries failed s tr
                    = Continue (failed \<or> list_ex stageFailed seg, s') (tr @ seg)
               \<and> StageEndedEvent \<notin> set seg
               \<and> finalCalls seg = entries))"
proof (induction entries arbitrary: failed s tr)
  case Nil
  show ?case by (intro exI [of _ "[]"]) simp
next
  case (Cons entry rest)
  obtain swiftID device where entry: "entry = (swiftID, device)"
    by (cases entry)
  show ?case
  proof (cases rule: call_cases [of "ExecuteFinalMount S device swiftID allMounts"
                                    "ExecuteFinalMountEvent device swiftID" s tr])
    case (ended logs)
    show ?thesis
      by (intro exI [of _ "map StageLogEvent logs @ [StageEndedEvent]"])
         (simp add: ended entry)
  next
    case (returned logs x s1)
    show ?thesis
    proof (cases x)
      case None
      let ?pre = "map StageLogEvent logs @
                  [ExecuteFinalMountEvent device swiftID None,
                   logEvent LogInfo ''%s is mounted on /srv/node/%s'' [ArgS device, ArgS swiftID]]"
      obtain seg where seg:
        "paired seg" "\<not> list_ex fatalReturned seg" "filter isScan seg = []"
        "drives seg = []" "mountCalls seg = []" "mounted seg = []" "scans seg = []"
        "filter isTouch seg = []"
        "(finalLoop S allMounts rest failed s1 (tr @ ?pre) = Stop EndedByStage ((tr @ ?pre) @ seg)
            \<and> StageEndedEvent \<in> set seg)
         \<or> (\<exists>s'. finalLoop S allMounts rest failed s1 (tr @ ?pre)
                    = Continue (failed \<or> list_ex stageFailed seg, s') ((tr @ ?pre) @ seg)
               \<and> StageEndedEvent \<notin> set seg
               \<and> finalCalls seg = rest)"
        using Cons.IH [of failed s1 "tr @ ?pre"] by blast
      show ?thesis
        using seg
        by (intro exI [of _ "?pre @ seg"]) (auto simp: returned None entry logEvent_def)
    next
      case (Some err)
      let ?pre = "map StageLogEvent logs @
                  [ExecuteFinalMountEvent device swiftID (Some err), logEvent LogError err []]"
      obtain seg where seg:
        "paired seg" "\<not> list_ex fatalReturned seg" "filter isScan seg = []"
        "drives seg = []" "mountCalls seg = []" "mounted seg = []" "scans seg = []"
        "filter isTouch seg = []"
        "(finalLoop S allMounts rest True s1 (tr @ ?pre) = Stop EndedByStage ((tr @ ?pre) @ seg)
            \<and> StageEndedEvent \<in> set seg)
         \<or> (\<exists>s'. finalLoop S allMounts rest True s1 (tr @ ?pre)
                    = Continue (True \<or> list_ex stageFailed seg, s') ((tr @ ?pre) @ seg)
               \<and> StageEndedEvent \<notin> set seg
               \<and> finalCalls seg = rest)"
        using Cons.IH [of True s1 "tr @ ?pre"] by blast
      show ?thesis
        using seg
        by (intro exI [of _ "?pre @ seg"]) (auto simp: returned Some entry logEvent_def)
    qed
  qed
qed

lemma finishPass_trace:
  "\<exists>outcome seg.
      finishPass S allMounts failed s tr = (outcome, tr @ seg)
      \<and> paired seg \<and> \<not> list_ex fatalReturned seg \<and> filter isScan seg = []
      \<and> drives seg = [] \<and> mountCalls seg = [] \<and> mounted seg = []
      \<and> ((outcome = EndedByStage \<and> StageEndedEvent \<in> set seg)
         \<or> (outcome = ExitStatus (if failed \<or> list_ex stageFailed seg then 1 else 0)
             \<and> StageEndedEvent \<notin> set seg
             \<and> (\<exists>mountsByID. scans seg = [mountsByID] \<and> finalCalls seg = mountsByID)
             \<and> length (filter isTouch seg) = 1))"
proof (cases rule: call_cases [of "ScanSwiftID S allMounts"
          "\<lambda>(mountsByID, scanFailed). ScanSwiftIDEvent mountsByID scanFailed" s tr])
  case (ended logs)
  have run: "finishPass S allMounts failed s tr
               = (EndedByStage, tr @ map StageLogEvent logs @ [StageEndedEvent])"
    by (simp add: finishPass_def ended)
  show ?thesis
    by (intro exI [of _ EndedByStage] exI [of _ "map StageLogEvent logs @ [StageEndedEvent]"]
          conjI run) simp_all
next
  case (returned logs x s1)
  note scan = returned
  obtain mountsByID scanFailed where x: "x = (mountsByID, scanFailed)"
    by (cases x)
  let ?seg1 = "map StageLogEvent logs @ [ScanSwiftIDEvent mountsByID scanFailed]"
  obtain seg2 where seg2:
    "paired seg2" "\<not> list_ex fatalReturned seg2" "filter isScan seg2 = []"
    "drives seg2 = []" "mountCalls seg2 = []" "mounted seg2 = []" "scans seg2 = []"
    "filter isTouch seg2 = []"
    "(finalLoop S allMounts mountsByID (failed \<or> scanFailed) s1 (tr @ ?seg1)
        = Stop EndedByStage ((tr @ ?seg1) @ seg2) \<and> StageEndedEvent \<in> set seg2)
     \<or> (\<exists>s'. finalLoop S allMounts mountsByID (failed \<or> scanFailed) s1 (tr @ ?seg1)
                = Continue ((failed \<or> scanFailed) \<or> list_ex stageFailed seg2, s')
                    ((tr @ ?seg1) @ seg2)
           \<and> StageEndedEvent \<notin> set seg2
           \<and> finalCalls seg2 = mountsByID)"
    using finalLoop_trace [of S allMounts mountsByID "failed \<or> scanFailed" s1 "tr @ ?seg1"]
    by blast
  from seg2(9) show ?thesis
  proof (elim disjE conjE exE)
    assume stop: "finalLoop S allMounts mountsByID (failed \<or> scanFailed) s1 (tr @ ?seg1)
        = Stop EndedByStage ((tr @ ?seg1) @ seg2)" and isend: "StageEndedEvent \<in> set seg2"
    have run: "finishPass S allMounts failed s tr = (EndedByStage, tr @ ?seg1 @ seg2)"
      by (simp add: finishPass_def scan x stop)
    show ?thesis
      by (intro exI [of _ EndedByStage] exI [of _ "?seg1 @ seg2"] conjI run)
         (use seg2(1-8) isend in \<open>simp_all add: paired_append\<close>)
  next
    fix s2
    assume cont: "finalLoop S allMounts mountsByID (failed \<or> scanFailed) s1 (tr @ ?seg1)
                = Continue ((failed \<or> scanFailed) \<or> list_ex stageFailed seg2, s2)
                    ((tr @ ?seg1) @ seg2)"
      and noend: "StageEndedEvent \<notin> set seg2" and calls: "finalCalls seg2 = mountsByID"
    let ?tr2 = "tr @ map StageLogEvent logs @ ScanSwiftIDEvent mountsByID scanFailed # seg2"
    let ?touch = "[''touch'', ''/srv/node/ready'']"
    show ?thesis
    proof (cases rule: call_cases [of "ExecSimple S ExecChroot ?touch"
              "\<lambda>(out, err). ExecSimpleEvent ExecChroot ?touch err" s2 ?tr2])
      case (ended logs3)
      let ?seg = "?seg1 @ seg2 @ map StageLogEvent logs3 @ [StageEndedEvent]"
      have run: "finishPass S allMounts failed s tr = (EndedByStage, tr @ ?seg)"
        by (simp add: finishPass_def scan x cont ended)
      show ?thesis
        by (intro exI [of _ EndedByStage] exI [of _ ?seg] conjI run)
           (use seg2(1-8) in \<open>simp_all add: paired_append\<close>)
    next
      case (returned logs3 y s3)
      note touch = returned
      obtain out err where y: "y = (out, err)"
        by (cases y)
      show ?thesis
      proof (cases err)
        case None
        let ?seg = "?seg1 @ seg2 @ map StageLogEvent logs3 @ [ExecSimpleEvent ExecChroot ?touch None]"
        have decide: "finishPass S allMounts failed s tr
            = exitDecision ((failed \<or> scanFailed) \<or> list_ex stageFailed seg2) (tr @ ?seg)"
          by (simp add: finishPass_def scan x cont touch y None)
        show ?thesis
        proof (cases "(failed \<or> scanFailed) \<or> list_ex stageFailed seg2")
          case True
          let ?seg' = "?seg @ [logEvent LogInfo ''completed with errors, see above'' []]"
          have run: "finishPass S allMounts failed s tr = (ExitStatus 1, tr @ ?seg')"
            unfolding decide using True by (simp add: exitDecision_def)
          show ?thesis
            by (intro exI [of _ "ExitStatus 1"] exI [of _ ?seg'] conjI run)
               (use seg2(1-8) noend calls True in
                 \<open>auto simp add: paired_append logEvent_def\<close>)
        next
          case False
          have run: "finishPass S allMounts failed s tr = (ExitStatus 0, tr @ ?seg)"
            unfolding decide using False by (simp add: exitDecision_def)
          show ?thesis
            by (intro exI [of _ "ExitStatus 0"] exI [of _ ?seg] conjI run)
               (use seg2(1-8) noend calls False in
                 \<open>auto simp add: paired_append logEvent_def\<close>)
        qed
      next
        case (Some e)
        let ?seg = "?seg1 @ seg2 @ map StageLogEvent logs3
                    @ [ExecSimpleEvent ExecChroot ?touch (Some e),
                       logEvent LogError ''touch /srv/node/ready: %s'' [ArgS e],
                       logEvent LogInfo ''completed with errors, see above'' []]"
        have run: "finishPass S allMounts failed s tr = (ExitStatus 1, tr @ ?seg)"
          by (simp add: finishPass_def scan x cont touch y Some exitDecision_def)
        show ?thesis
          by (intro exI [of _ "ExitStatus 1"] exI [of _ ?seg] conjI run)
             (use seg2(1-8) noend calls in \<open>auto simp add: paired_append logEvent_def\<close>)
      qed
    qed
  qed
qed

lemma main_pass_trace:
  "\<exists>outcome seg.
      main_pass S s tr = (outcome, tr @ seg)
      \<and> paired seg
      \<and> outcome \<noteq> Panicked
      \<and> (outcome = FatalExit \<longleftrightarrow> list_ex fatalReturned seg)
      \<and> (outcome = EndedByStage \<longleftrightarrow> StageEndedEvent \<in> set seg)
      \<and> (outcome = FatalExit \<longrightarrow> filter isTouch seg = [])
      \<and> length (filter isScan seg) \<le> 2
      \<and> (length (filter isScan seg) = 2 \<longrightarrow>
            mounted seg \<noteq> [] \<and> mountCalls seg = map ((@) ''/'') (drives seg))
      \<and> (\<forall>k. outcome = ExitStatus k \<longrightarrow>
            mountCalls seg = map ((@) ''/'') (drives seg)
            \<and> length (filter isScan seg) = (if mounted seg = [] then 1 else 2)
            \<and> (\<exists>mountsByID. scans seg = [mountsByID] \<and> finalCalls seg = mountsByID)
            \<and> length (filter isTouch seg) = 1
            \<and> k = (if list_ex stageFailed seg then 1 else 0))"
  (is "\<exists>outcome seg. ?run outcome seg \<and> ?good outcome seg")
proof (cases rule: call_cases [of "ListDrives S" ListDrivesEvent s tr])
  case (ended logs1)
  have run: "main_pass S s tr = (EndedByStage, tr @ map StageLogEvent logs1 @ [StageEndedEvent])"
    by (simp add: main_pass_def ended)
  show ?thesis
    by (intro exI [of _ EndedByStage] exI [of _ "map StageLogEvent logs1 @ [StageEndedEvent]"]
          conjI run) simp_all
next
  case (returned logs1 x s1)
  note list = returned
  show ?thesis
  proof (cases x)
    case (Inl err)
    let ?seg = "map StageLogEvent logs1
                @ [ListDrivesEvent (Inl err), logEvent LogFatal ''list drives: %s'' [ArgS err]]"
    have run: "main_pass S s tr = (FatalExit, tr @ ?seg)"
      by (simp add: main_pass_def list Inl)
    show ?thesis
      by (intro exI [of _ FatalExit] exI [of _ ?seg] conjI run) (simp_all add: logEvent_def)
  next
    case (Inr drivePaths)
    let ?seg1 = "map StageLogEvent logs1 @ [ListDrivesEvent (Inr drivePaths)]"
    show ?thesis
    proof (cases rule: call_cases [of "ScanMountPoints S" scanEvent s1 "tr @ ?seg1"])
      case (ended logs2)
      let ?seg = "?seg1 @ map StageLogEvent logs2 @ [StageEndedEvent]"
      have run: "main_pass S s tr = (EndedByStage, tr @ ?seg)"
        by (simp add: main_pass_def list Inr ended)
      show ?thesis
        by (intro exI [of _ EndedByStage] exI [of _ ?seg] conjI run) simp_all
    next
      case (returned logs2 y s2)
      note scan = returned
      show ?thesis
      proof (cases y)
        case (Inl err)
        let ?seg = "?seg1 @ map StageLogEvent logs2
                    @ [ScanMountPointsEvent (Some err),
                       logEvent LogFatal ''list mount points: %s'' [ArgS err]]"
        have run: "main_pass S s tr = (FatalExit, tr @ ?seg)"
          by (simp add: main_pass_def list Inr scan Inl)
        show ?thesis
          by (intro exI [of _ FatalExit] exI [of _ ?seg] conjI run) (simp_all add: logEvent_def)
      next
        case (Inr allMounts)
        note table = Inr
        let ?pre = "map StageLogEvent logs1 @ ListDrivesEvent (Inr drivePaths)
                    # map StageLogEvent logs2 @ [ScanMountPointsEvent None]"
        have pre: "paired ?pre" "\<not> list_ex fatalReturned ?pre" "StageEndedEvent \<notin> set ?pre"
          "drives ?pre = drivePaths" "mountCalls ?pre = []" "mounted ?pre = []"
          "scans ?pre = []" "finalCalls ?pre = []" "filter isTouch ?pre = []"
          "length (filter isScan ?pre) = 1" "\<not> list_ex stageFailed ?pre"
          by simp_all
        obtain segm where segm:
          "paired segm" "\<not> list_ex fatalReturned segm" "filter isScan segm = []"
          "drives segm = []" "scans segm = []" "finalCalls segm = []" "filter isTouch segm = []"
          "(mountLoop S allMounts drivePaths False [] s2 (tr @ ?pre)
              = Stop EndedByStage ((tr @ ?pre) @ segm) \<and> StageEndedEvent \<in> set segm)
           \<or> (\<exists>s'. mountLoop S allMounts drivePaths False [] s2 (tr @ ?pre)
                      = Continue (False \<or> list_ex stageFailed segm, [] @ mounted segm, s')
                          ((tr @ ?pre) @ segm)
                 \<and> StageEndedEvent \<notin> set segm
                 \<and> mountCalls segm = map ((@) ''/'') drivePaths)"
          using mountLoop_trace [of S allMounts drivePaths False "[]" s2 "tr @ ?pre"] by blast
        have start: "main_pass S s tr =
            (case mountLoop S allMounts drivePaths False [] s2 (tr @ ?pre) of
               Stop outcome tr3 \<Rightarrow> (outcome, tr3)
             | Continue (failed, mountPaths, s3) tr3 \<Rightarrow>
                 if length mountPaths > 0 then
                   (case call (ScanMountPoints S) scanEvent s3 tr3 of
                      Stop outcome tr4 \<Rightarrow> (outcome, tr4)
                    | Continue (Inl err, s4) tr4 \<Rightarrow>
                        (FatalExit, tr4 @ [logEvent LogFatal ''list mount points: %s'' [ArgS err]])
                    | Continue (Inr rescanned, s4) tr4 \<Rightarrow> finishPass S rescanned failed s4 tr4)
                 else finishPass S allMounts failed s3 tr3)"
          by (simp add: main_pass_def list \<open>x = Inr drivePaths\<close> scan table)
        from segm(8) show ?thesis
        proof (elim disjE conjE exE)
          assume stop: "mountLoop S allMounts drivePaths False [] s2 (tr @ ?pre)
              = Stop EndedByStage ((tr @ ?pre) @ segm)" and isend: "StageEndedEvent \<in> set segm"
          have run: "main_pass S s tr = (EndedByStage, tr @ ?pre @ segm)"
            by (simp add: start stop)
          show ?thesis
            by (intro exI [of _ EndedByStage] exI [of _ "?pre @ segm"] conjI run)
               (use segm(1-7) isend in \<open>simp_all add: paired_append\<close>)
        next
          fix s3
          assume cont: "mountLoop S allMounts drivePaths False [] s2 (tr @ ?pre)
                      = Continue (False \<or> list_ex stageFailed segm, [] @ mounted segm, s3)
                          ((tr @ ?pre) @ segm)"
            and noend: "StageEndedEvent \<notin> set segm"
            and calls: "mountCalls segm = map ((@) ''/'') drivePaths"
          have finish: ?thesis
            if fp: "main_pass S s tr
                      = finishPass S am (list_ex stageFailed segm) s' (tr @ ?pre @ segm @ mid)"
              and mid: "(mid = [] \<and> mounted segm = [])
                         \<or> (mid = map StageLogEvent logs3 @ [ScanMountPointsEvent None]
                             \<and> mounted segm \<noteq> [])"
            for am s' mid logs3
          proof -
            obtain outcome segf where segf:
              "finishPass S am (list_ex stageFailed segm) s' (tr @ ?pre @ segm @ mid)
                 = (outcome, (tr @ ?pre @ segm @ mid) @ segf)"
              "paired segf" "\<not> list_ex fatalReturned segf" "filter isScan segf = []"
              "drives segf = []" "mountCalls segf = []" "mounted segf = []"
              "(outcome = EndedByStage \<and> StageEndedEvent \<in> set segf)
               \<or> (outcome = ExitStatus (if list_ex stageFailed segm \<or> list_ex stageFailed segf
                                          then 1 else 0)
                   \<and> StageEndedEvent \<notin> set segf
                   \<and> (\<exists>mountsByID. scans segf = [mountsByID] \<and> finalCalls segf = mountsByID)
                   \<and> length (filter isTouch segf) = 1)"
              using finishPass_trace [of S am "list_ex stageFailed segm" s' "tr @ ?pre @ segm @ mid"]
              by blast
            have run: "main_pass S s tr = (outcome, tr @ ?pre @ segm @ mid @ segf)"
              using fp segf(1) by simp
            have mids: "paired mid" "\<not> list_ex fatalReturned mid" "StageEndedEvent \<notin> set mid"
              "drives mid = []" "mountCalls mid = []" "mounted mid = []" "scans mid = []"
              "finalCalls mid = []" "filter isTouch mid = []" "\<not> list_ex stageFailed mid"
              "length (filter isScan mid) = (if mounted segm = [] then 0 else 1)"
              using mid by auto
            show ?thesis
              by (intro exI [of _ outcome] exI [of _ "?pre @ segm @ mid @ segf"] conjI run)
                 (use segm(1-7) noend calls segf(2-) mids in
                   \<open>auto simp add: paired_append\<close>)
          qed
          show ?thesis
          proof (cases "mounted segm = []")
            case True
            have "main_pass S s tr
                    = finishPass S allMounts (list_ex stageFailed segm) s3 (tr @ ?pre @ segm @ [])"
              using True by (simp add: start cont)
            then show ?thesis
              by (rule finish) (simp add: True)
          next
            case False
            show ?thesis
            proof (cases rule: call_cases [of "ScanMountPoints S" scanEvent s3 "tr @ ?pre @ segm"])
              case (ended logs3)
              let ?seg = "?pre @ segm @ map StageLogEvent logs3 @ [StageEndedEvent]"
              have run: "main_pass S s tr = (EndedByStage, tr @ ?seg)"
                using False ended by (simp add: start cont)
              show ?thesis
                by (intro exI [of _ EndedByStage] exI [of _ ?seg] conjI run)
                   (use segm(1-7) in \<open>simp_all add: paired_append\<close>)
            next
              case (returned logs3 z s4)
              show ?thesis
              proof (cases z)
                case (Inl err)
                let ?seg = "?pre @ segm @ map StageLogEvent logs3
                            @ [ScanMountPointsEvent (Some err),
                               logEvent LogFatal ''list mount points: %s'' [ArgS err]]"
                have run: "main_pass S s tr = (FatalExit, tr @ ?seg)"
                  using False returned Inl by (simp add: start cont)
                show ?thesis
                  by (intro exI [of _ FatalExit] exI [of _ ?seg] conjI run)
                     (use segm(1-7) noend calls False in
                       \<open>simp_all add: paired_append logEvent_def\<close>)
              next
                case (Inr rescanned)
                have "main_pass S s tr
                        = finishPass S rescanned (list_ex stageFailed segm) s4
                            (tr @ ?pre @ segm @ map StageLogEvent logs3 @ [ScanMountPointsEvent None])"
                  using False returned Inr by (simp add: start cont)
                then show ?thesis
                  by (rule finish) (simp add: False)
              qed
            qed
          qed
        qed
      qed
    qed
  qed
qed

lemma paired_main_error:
  "paired tr \<Longrightarrow> list_ex isMainError tr \<Longrightarrow> list_ex stageFailed tr"
proof (induction tr rule: paired.induct)
  case 1
  then show ?case by simp
next
  case (2 e rest)
  show ?case
  proof (cases "errorEntryOf e")
    case None
    then show ?thesis using 2 by auto
  next
    case (Some entry)
    then have "stageFailed e"
      by (cases e rule: errorEntryOf.cases) auto
    then show ?thesis by simp
  qed
qed

lemma startup_trace:
  "(Args = [] \<and> startup L Args s = Stop Panicked [])
   \<or> (Args \<noteq> [] \<and> length Args \<noteq> 2 \<and> startup L Args s = Stop (ExitStatus 1) [UsageEvent (hd Args)])
   \<or> (length Args = 2 \<and>
       (\<exists>seg. (startup L Args s = Stop FatalExit seg \<and> list_ex fatalReturned seg
                \<or> (\<exists>s1. startup L Args s = Continue s1 seg) \<and> \<not> list_ex fatalReturned seg)
          \<and> paired seg \<and> StageEndedEvent \<notin> set seg \<and> \<not> list_ex stageFailed seg
          \<and> drives seg = [] \<and> mountCalls seg = [] \<and> mounted seg = [] \<and> scans seg = []
          \<and> finalCalls seg = [] \<and> filter isScan seg = [] \<and> filter isTouch seg = []))"
proof (cases "length Args = 2")
  case False
  then show ?thesis
    by (cases Args) (simp_all add: startup_def)
next
  case True
  obtain r s1 where rf: "ReadFile L (Args ! 1) s = (r, s1)"
    by (cases "ReadFile L (Args ! 1) s")
  show ?thesis
  proof (cases r)
    case (Inl err)
    show ?thesis
      using True rf Inl by (simp add: startup_def logEvent_def)
  next
    case (Inr configBytes)
    obtain u s2 where um: "Unmarshal L configBytes s1 = (u, s2)"
      by (cases "Unmarshal L configBytes s1")
    show ?thesis
    proof (cases u)
      case (Some err)
      show ?thesis
        using True rf Inr um Some by (simp add: startup_def logEvent_def)
    next
      case None
      have ex: "\<exists>dir c s3. Chdir L dir s2 = (c, s3)
          \<and> startup L Args s =
              (case c of
                 Some err \<Rightarrow>
                   Stop FatalExit
                     [ReadFileEvent (Args ! 1) (Inr configBytes), UnmarshalEvent configBytes None,
                      ChdirEvent dir (Some err),
                      logEvent LogFatal ''chdir to %s: %s'' [ArgS dir, ArgS err]]
               | None \<Rightarrow>
                   Continue s3
                     [ReadFileEvent (Args ! 1) (Inr configBytes), UnmarshalEvent configBytes None,
                      ChdirEvent dir None])"
      proof (cases "ChrootPath (Config_global L s2) = []")
        case True
        obtain c s3 where cd: "Chdir L ''/'' s2 = (c, s3)"
          by (cases "Chdir L ''/'' s2")
        have "startup L Args s =
              (case c of
                 Some err \<Rightarrow>
                   Stop FatalExit
                     [ReadFileEvent (Args ! 1) (Inr configBytes), UnmarshalEvent configBytes None,
                      ChdirEvent ''/'' (Some err),
                      logEvent LogFatal ''chdir to %s: %s'' [ArgS ''/'', ArgS err]]
               | None \<Rightarrow>
                   Continue s3
                     [ReadFileEvent (Args ! 1) (Inr configBytes), UnmarshalEvent configBytes None,
                      ChdirEvent ''/'' None])"
          using \<open>length Args = 2\<close> rf Inr um None cd True
          by (simp add: startup_def Let_def split: option.splits)
        with cd show ?thesis by blast
      next
        case False
        obtain c s3 where cd: "Chdir L (ChrootPath (Config_global L s2)) s2 = (c, s3)"
          by (cases "Chdir L (ChrootPath (Config_global L s2)) s2")
        have "startup L Args s =
              (case c of
                 Some err \<Rightarrow>
                   Stop FatalExit
                     [ReadFileEvent (Args ! 1) (Inr configBytes), UnmarshalEvent configBytes None,
                      ChdirEvent (ChrootPath (Config_global L s2)) (Some err),
                      logEvent LogFatal ''chdir to %s: %s''
                        [ArgS (ChrootPath (Config_global L s2)), ArgS err]]
               | None \<Rightarrow>
                   Continue s3
                     [ReadFileEvent (Args ! 1) (Inr configBytes), UnmarshalEvent configBytes None,
                      ChdirEvent (ChrootPath (Config_global L s2)) None])"
          using \<open>length Args = 2\<close> rf Inr um None cd False
          by (simp add: startup_def Let_def split: option.splits)
        with cd show ?thesis by blast
      qed
      then obtain dir c s3 where st: "startup L Args s =
              (case c of
                 Some err \<Rightarrow>
                   Stop FatalExit
                     [ReadFileEvent (Args ! 1) (Inr configBytes), UnmarshalEvent configBytes None,
                      ChdirEvent dir (Some err),
                      logEvent LogFatal ''chdir to %s: %s'' [ArgS dir, ArgS err]]
               | None \<Rightarrow>
                   Continue s3
                     [ReadFileEvent (Args ! 1) (Inr configBytes), UnmarshalEvent configBytes None,
                      ChdirEvent dir None])"
        by blast
      show ?thesis
        using \<open>length Args = 2\<close> by (cases c) (simp_all add: st logEvent_def)
    qed
  qed
qed

text \<open>
  Claim C5, as the code has it, for every run of \<open>main\<close>. Every error that
  \<open>MountDevice\<close>, \<open>ExecuteFinalMount\<close> or the touch of the readiness marker returns is
  followed at once by one entry of level Error, written by \<open>main\<close>, that carries the
  text of the error, and \<open>main\<close> writes no other entry of level Error; so an Error
  entry of \<open>main\<close> comes with a reported failure. None of these errors ends the run.
  The run ends before the exit decision in these ways only: in the panic of the usage
  message when there is no argument at all; with status 1 after the usage message when
  the number of arguments is wrong; in a fatal log entry, exactly when \<open>ReadFile\<close>,
  \<open>Unmarshal\<close>, \<open>Chdir\<close>, \<open>ListDrives\<close> or \<open>ScanMountPoints\<close> returns an error, and
  then the marker is not touched; and inside a stage, exactly when a stage ends the
  process. \<open>ScanMountPoints\<close> is called at most twice, and a second time only after
  \<open>MountDevice\<close> has been called for every listed drive and has succeeded for one. In
  every run that reaches the exit decision, \<open>MountDevice\<close> has been called for every
  drive path that \<open>ListDrives\<close> returned, in order; the mount table has been scanned a
  second time if and only if some \<open>MountDevice\<close> succeeded; \<open>ExecuteFinalMount\<close> has
  been called for every entry that the identity scan returned; the readiness marker
  \<open>/srv/node/ready\<close> has been touched exactly once; and the exit status is 1 when some
  stage reported a failure (\<open>MountDevice\<close> or \<open>ExecuteFinalMount\<close> returned an error
  for a drive, the identity scan reported a failure, or the touch returned an error) and
  0 otherwise. What the stages write to the log has no part in the exit status.
\<close>

theorem main_pass_isolation:
  assumes "main L S Args s = (outcome, tr)"
  shows "paired tr
     \<and> (list_ex isMainError tr \<longrightarrow> list_ex stageFailed tr)
     \<and> (outcome = Panicked \<longleftrightarrow> Args = [])
     \<and> (outcome = FatalExit \<longleftrightarrow> list_ex fatalReturned tr)
     \<and> (outcome = EndedByStage \<longleftrightarrow> StageEndedEvent \<in> set tr)
     \<and> (Args \<noteq> [] \<and> length Args \<noteq> 2 \<longrightarrow> outcome = ExitStatus 1 \<and> tr = [UsageEvent (hd Args)])
     \<and> (outcome = FatalExit \<longrightarrow> filter isTouch tr = [])
     \<and> length (filter isScan tr) \<le> 2
     \<and> (length (filter isScan tr) = 2 \<longrightarrow>
          mounted tr \<noteq> [] \<and> mountCalls tr = map ((@) ''/'') (drives tr))
     \<and> (\<forall>k. length Args = 2 \<and> outcome = ExitStatus k \<longrightarrow>
          mountCalls tr = map ((@) ''/'') (drives tr)
          \<and> length (filter isScan tr) = (if mounted tr = [] then 1 else 2)
          \<and> (\<exists>mountsByID. scans tr = [mountsByID] \<and> finalCalls tr = mountsByID)
          \<and> length (filter isTouch tr) = 1
          \<and> k = (if list_ex stageFailed tr then 1 else 0))"
proof -
  have main: "paired tr
     \<and> (outcome = Panicked \<longleftrightarrow> Args = [])
     \<and> (outcome = FatalExit \<longleftrightarrow> list_ex fatalReturned tr)
     \<and> (outcome = EndedByStage \<longleftrightarrow> StageEndedEvent \<in> set tr)
     \<and> (Args \<noteq> [] \<and> length Args \<noteq> 2 \<longrightarrow> outcome = ExitStatus 1 \<and> tr = [UsageEvent (hd Args)])
     \<and> (outcome = FatalExit \<longrightarrow> filter isTouch tr = [])
     \<and> length (filter isScan tr) \<le> 2
     \<and> (length (filter isScan tr) = 2 \<longrightarrow>
          mounted tr \<noteq> [] \<and> mountCalls tr = map ((@) ''/'') (drives tr))
     \<and> (\<forall>k. length Args = 2 \<and> outcome = ExitStatus k \<longrightarrow>
          mountCalls tr = map ((@) ''/'') (drives tr)
          \<and> length (filter isScan tr) = (if mounted tr = [] then 1 else 2)
          \<and> (\<exists>mountsByID. scans tr = [mountsByID] \<and> finalCalls tr = mountsByID)
          \<and> length (filter isTouch tr) = 1
          \<and> k = (if list_ex stageFailed tr then 1 else 0))"
    using startup_trace [of Args L s]
  proof (elim disjE conjE exE)
    assume "Args = []" "startup L Args s = Stop Panicked []"
    then show ?thesis using assms by (simp add: main_def)
  next
    assume "Args \<noteq> []" "length Args \<noteq> 2"
      "startup L Args s = Stop (ExitStatus 1) [UsageEvent (hd Args)]"
    then show ?thesis using assms by (auto simp: main_def)
  next
    fix seg
    assume "length Args = 2" "startup L Args s = Stop FatalExit seg" "list_ex fatalReturned seg"
      "paired seg" "StageEndedEvent \<notin> set seg" "filter isScan seg = []" "filter isTouch seg = []"
    then show ?thesis using assms by (auto simp: main_def)
  next
    fix seg s1
    assume len: "length Args = 2" and st: "startup L Args s = Continue s1 seg"
      and seg: "\<not> list_ex fatalReturned seg" "paired seg" "StageEndedEvent \<notin> set seg"
        "\<not> list_ex stageFailed seg" "drives seg = []" "mountCalls seg = []" "mounted seg = []"
        "scans seg = []" "finalCalls seg = []" "filter isScan seg = []" "filter isTouch seg = []"
    obtain outcome' segp where p:
      "main_pass S s1 seg = (outcome', seg @ segp)"
      "paired segp"
      "outcome' \<noteq> Panicked"
      "outcome' = FatalExit \<longleftrightarrow> list_ex fatalReturned segp"
      "outcome' = EndedByStage \<longleftrightarrow> StageEndedEvent \<in> set segp"
      "outcome' = FatalExit \<longrightarrow> filter isTouch segp = []"
      "length (filter isScan segp) \<le> 2"
      "length (filter isScan segp) = 2 \<longrightarrow>
            mounted segp \<noteq> [] \<and> mountCalls segp = map ((@) ''/'') (drives segp)"
      "\<forall>k. outcome' = ExitStatus k \<longrightarrow>
            mountCalls segp = map ((@) ''/'') (drives segp)
            \<and> length (filter isScan segp) = (if mounted segp = [] then 1 else 2)
            \<and> (\<exists>mountsByID. scans segp = [mountsByID] \<and> finalCalls segp = mountsByID)
            \<and> length (filter isTouch segp) = 1
            \<and> k = (if list_ex stageFailed segp then 1 else 0)"
      using main_pass_trace [of S s1 seg] by blast
    have tr: "tr = seg @ segp" and oc: "outcome = outcome'"
      using assms st p(1) by (simp_all add: main_def)
    have args: "Args \<noteq> []" using len by auto
    have c1: "paired (seg @ segp)"
      using seg p(2) by (simp add: paired_append)
    have c2: "outcome' = Panicked \<longleftrightarrow> Args = []"
      using p(3) args by simp
    have c3: "outcome' = FatalExit \<longleftrightarrow> list_ex fatalReturned (seg @ segp)"
      using seg p(4) by simp
    have c4: "outcome' = EndedByStage \<longleftrightarrow> StageEndedEvent \<in> set (seg @ segp)"
      using seg p(5) by simp
    have c5: "Args \<noteq> [] \<and> length Args \<noteq> 2 \<longrightarrow>
                outcome' = ExitStatus 1 \<and> seg @ segp = [UsageEvent (hd Args)]"
      using len by simp
    have c6: "outcome' = FatalExit \<longrightarrow> filter isTouch (seg @ segp) = []"
      using seg p(6) by simp
    have c7: "length (filter isScan (seg @ segp)) \<le> 2"
      using seg p(7) by simp
    have c8: "length (filter isScan (seg @ segp)) = 2 \<longrightarrow>
          mounted (seg @ segp) \<noteq> []
          \<and> mountCalls (seg @ segp) = map ((@) ''/'') (drives (seg @ segp))"
      using seg p(8) by simp
    have c9: "\<forall>k. length Args = 2 \<and> outcome' = ExitStatus k \<longrightarrow>
          mountCalls (seg @ segp) = map ((@) ''/'') (drives (seg @ segp))
          \<and> length (filter isScan (seg @ segp)) = (if mounted (seg @ segp) = [] then 1 else 2)
          \<and> (\<exists>mountsByID. scans (seg @ segp) = [mountsByID]
                \<and> finalCalls (seg @ segp) = mountsByID)
          \<and> length (filter isTouch (seg @ segp)) = 1
          \<and> k = (if list_ex stageFailed (seg @ segp) then 1 else 0)"
    proof (intro allI impI, elim conjE)
      fix k
      assume "outcome' = ExitStatus k"
      with p(9) have
        "mountCalls segp = map ((@) ''/'') (drives segp)
            \<and> length (filter isScan segp) = (if mounted segp = [] then 1 else 2)
            \<and> (\<exists>mountsByID. scans segp = [mountsByID] \<and> finalCalls segp = mountsByID)
            \<and> length (filter isTouch segp) = 1
            \<and> k = (if list_ex stageFailed segp then 1 else 0)"
        by blast
      then show "mountCalls (seg @ segp) = map ((@) ''/'') (drives (seg @ segp))
          \<and> length (filter isScan (seg @ segp)) = (if mounted (seg @ segp) = [] then 1 else 2)
          \<and> (\<exists>mountsByID. scans (seg @ segp) = [mountsByID]
                \<and> finalCalls (seg @ segp) = mountsByID)
          \<and> length (filter isTouch (seg @ segp)) = 1
          \<and> k = (if list_ex stageFailed (seg @ segp) then 1 else 0)"
        using seg by simp
    qed
    show ?thesis
      unfolding tr oc by (intro conjI) (rule c1 c2 c3 c4 c5 c6 c7 c8 c9)+
  qed
  then show ?thesis
    using paired_main_error [of tr] by blast
qed

theorem main_pass_isolation_witness:
  "main sampleLibrary sampleStages [''swift-storage-boot'', ''/etc/boot.yaml''] 0
     = (ExitStatus 1,
        [ReadFileEvent ''/etc/boot.yaml'' (Inr ''chroot: /mnt''),
         UnmarshalEvent ''chroot: /mnt'' None,
         ChdirEvent ''/mnt'' None,
         ListDrivesEvent (Inr [''dev/sdb'', ''dev/sdc'']),
         ScanMountPointsEvent None,
         MountDeviceEvent ''/dev/sdb'' (Inl ''mount failed''),
         MainLogEvent \<lparr>level = LogError, format = ''mount failed'', args = []\<rparr>,
         MountDeviceEvent ''/dev/sdc'' (Inr ''/run/swift-storage/dev/sdc''),
         ScanMountPointsEvent None,
         ScanSwiftIDEvent [(''swift1'', ''/dev/sdc'')] False,
         ExecuteFinalMountEvent ''/dev/sdc'' ''swift1'' None,
         MainLogEvent \<lparr>level = LogInfo, format = ''%s is mounted on /srv/node/%s'',
                       args = [ArgS ''/dev/sdc'', ArgS ''swift1'']\<rparr>,
         ExecSimpleEvent ExecChroot [''touch'', ''/srv/node/ready''] None,
         MainLogEvent \<lparr>level = LogInfo, format = ''completed with errors, see above'',
                       args = []\<rparr>])
   \<and> paired (snd (main sampleLibrary sampleStages [''swift-storage-boot'', ''/etc/boot.yaml''] 0))
   \<and> mountCalls (snd (main sampleLibrary sampleStages [''swift-storage-boot'', ''/etc/boot.yaml''] 0))
       = [''/dev/sdb'', ''/dev/sdc'']
   \<and> finalCalls (snd (main sampleLibrary sampleStages [''swift-storage-boot'', ''/etc/boot.yaml''] 0))
       = [(''swift1'', ''/dev/sdc'')]
   \<and> length (filter isScan
         (snd (main sampleLibrary sampleStages [''swift-storage-boot'', ''/etc/boot.yaml''] 0))) = 2
   \<and> length (filter isTouch
         (snd (main sampleLibrary sampleStages [''swift-storage-boot'', ''/etc/boot.yaml''] 0))) = 1
   \<and> list_ex stageFailed
         (snd (main sampleLibrary sampleStages [''swift-storage-boot'', ''/etc/boot.yaml''] 0))"
proof -
  let ?tr = "[ReadFileEvent ''/etc/boot.yaml'' (Inr ''chroot: /mnt''),
         UnmarshalEvent ''chroot: /mnt'' None,
         ChdirEvent ''/mnt'' None,
         ListDrivesEvent (Inr [''dev/sdb'', ''dev/sdc'']),
         ScanMountPointsEvent None,
         MountDeviceEvent ''/dev/sdb'' (Inl ''mount failed''),
         MainLogEvent \<lparr>level = LogError, format = ''mount failed'', args = []\<rparr>,
         MountDeviceEvent ''/dev/sdc'' (Inr ''/run/swift-storage/dev/sdc''),
         ScanMountPointsEvent None,
         ScanSwiftIDEvent [(''swift1'', ''/dev/sdc'')] False,
         ExecuteFinalMountEvent ''/dev/sdc'' ''swift1'' None,
         MainLogEvent \<lparr>level = LogInfo, format = ''%s is mounted on /srv/node/%s'',
                       args = [ArgS ''/dev/sdc'', ArgS ''swift1'']\<rparr>,
         ExecSimpleEvent ExecChroot [''touch'', ''/srv/node/ready''] None,
         MainLogEvent \<lparr>level = LogInfo, format = ''completed with errors, see above'',
                       args = []\<rparr>]"
  have run: "main sampleLibrary sampleStages [''swift-storage-boot'', ''/etc/boot.yaml''] 0
               = (ExitStatus 1, ?tr)"
    by (simp add: main_def startup_def main_pass_def finishPass_def exitDecision_def call_def
          logEvent_def sampleLibrary_def sampleStages_def Let_def)
  show ?thesis
    using run main_pass_isolation [OF run] by simp
qed

text \<open>
  The claim as it was stated has the marker touched, and the exit status decided by the
  failures of drives and by the logged errors, in every run. Two runs differ. In the
  first the one drive is mounted, the rescan of the mount table returns an error, and
  the process ends in the fatal entry: the marker is not touched, although no drive
  failed and no entry of level Error was logged. In the second every call succeeds and
  \<open>MountDevice\<close> writes an entry of level Error about a problem that it has worked
  around: the log holds an entry of level Error, and the exit status is 0.
\<close>

theorem main_pass_fatal_counterexample:
  "main sampleLibrary rescanFailsStages [''swift-storage-boot'', ''/etc/boot.yaml''] 0
     = (FatalExit,
        [ReadFileEvent ''/etc/boot.yaml'' (Inr ''chroot: /mnt''),
         UnmarshalEvent ''chroot: /mnt'' None,
         ChdirEvent ''/mnt'' None,
         ListDrivesEvent (Inr [''dev/sdb'']),
         ScanMountPointsEvent None,
         MountDeviceEvent ''/dev/sdb'' (Inr ''/run/swift-storage/dev/sdb''),
         ScanMountPointsEvent (Some ''cannot read the mount table''),
         MainLogEvent \<lparr>level = LogFatal, format = ''list mount points: %s'',
                       args = [ArgS ''cannot read the mount table'']\<rparr>])
   \<and> filter isTouch
        (snd (main sampleLibrary rescanFailsStages [''swift-storage-boot'', ''/etc/boot.yaml''] 0))
       = []
   \<and> \<not> list_ex stageFailed
        (snd (main sampleLibrary rescanFailsStages [''swift-storage-boot'', ''/etc/boot.yaml''] 0))
   \<and> \<not> list_ex (\<lambda>entry. level entry = LogError)
        (logOf (snd (main sampleLibrary rescanFailsStages
                       [''swift-storage-boot'', ''/etc/boot.yaml''] 0)))
   \<and> main sampleLibrary chattyStages [''swift-storage-boot'', ''/etc/boot.yaml''] 0
     = (ExitStatus 0,
        [ReadFileEvent ''/etc/boot.yaml'' (Inr ''chroot: /mnt''),
         UnmarshalEvent ''chroot: /mnt'' None,
         ChdirEvent ''/mnt'' None,
         ListDrivesEvent (Inr [''dev/sdb'']),
         ScanMountPointsEvent None,
         StageLogEvent
           \<lparr>level = LogError,
            format = ''cannot determine serial number for %s, will use device ID %s instead'',
            args = [ArgS ''/dev/sdb'', ArgS ''d41d8cd9'']\<rparr>,
         MountDeviceEvent ''/dev/sdb'' (Inr ''/run/swift-storage/dev/sdb''),
         ScanMountPointsEvent None,
         ScanSwiftIDEvent [(''swift1'', ''/dev/sdb'')] False,
         ExecuteFinalMountEvent ''/dev/sdb'' ''swift1'' None,
         MainLogEvent \<lparr>level = LogInfo, format = ''%s is mounted on /srv/node/%s'',
                       args = [ArgS ''/dev/sdb'', ArgS ''swift1'']\<rparr>,
         ExecSimpleEvent ExecChroot [''touch'', ''/srv/node/ready''] None])
   \<and> list_ex (\<lambda>entry. level entry = LogError)
        (logOf (snd (main sampleLibrary chattyStages [''swift-storage-boot'', ''/etc/boot.yaml''] 0)))"
  by (simp add: main_def startup_def main_pass_def finishPass_def exitDecision_def call_def
        logEvent_def sampleLibrary_def rescanFailsStages_def chattyStages_def Let_def)

end
